(* ===== verification/Prelude.thy ===== *)
theory Prelude
  imports Main "HOL-Library.Signed_Division"
begin

text \<open>
  What every component shares: Go's fixed-width integers, its instants and durations, the
  fragments of a formatted message, the collections of rewrite rules that carry the component
  proofs, and the generic lemmas on lists, folds and maps.

  Go's \<open>int\<close>, \<open>int64\<close> and \<open>time.Duration\<close> are 64-bit: their values are HOL integers, and an
  operation of the source that can leave the 64-bit range is written with \<^verbatim>\<open>wrap64\<close>, which
  is the two's complement wrap-around.  Go's \<open>/\<close> and \<open>%\<close> truncate toward zero: they are
  \<^verbatim>\<open>sdiv\<close> and \<^verbatim>\<open>smod\<close> of HOL-Library.
\<close>

named_theorems go_arith \<open>unfoldings of the Go arithmetic\<close>
named_theorems go_consts \<open>the source's constants\<close>
named_theorems frame \<open>what an operation leaves alone\<close>

section \<open>64-bit integers\<close>

definition maxInt64 :: int where
  "maxInt64 = 9223372036854775807"

definition minInt64 :: int where
  "minInt64 = - 9223372036854775808"

definition int64 :: "int \<Rightarrow> bool" where
  "int64 x \<longleftrightarrow> minInt64 \<le> x \<and> x \<le> maxInt64"

definition wrap64 :: "int \<Rightarrow> int" where
  "wrap64 x = (x + 9223372036854775808) mod 18446744073709551616 - 9223372036854775808"

lemmas int64_bounds = int64_def maxInt64_def minInt64_def

lemma wrap64_id: "int64 x \<Longrightarrow> wrap64 x = x"
  by (simp add: wrap64_def int64_bounds)

lemma int64_zero [simp]: "int64 0"
  by (simp add: int64_bounds)

lemma int64_wrap64 [simp, intro]: "int64 (wrap64 x)"
  by (simp add: wrap64_def int64_bounds)

lemma wrap64_cong: "\<exists>k. wrap64 x = x + k * 18446744073709551616"
proof -
  have "wrap64 x = x + (- ((x + 9223372036854775808) div 18446744073709551616)) * 18446744073709551616"
    unfolding wrap64_def by (simp add: minus_mult_div_eq_mod [symmetric] algebra_simps)
  then show ?thesis by blast
qed

lemma wrap64_le: "minInt64 \<le> x \<Longrightarrow> wrap64 x \<le> x"
proof -
  assume "minInt64 \<le> x"
  then have "(x + 9223372036854775808) mod 18446744073709551616 \<le> x + 9223372036854775808"
    by (intro zmod_le_nonneg_dividend) (simp add: minInt64_def)
  then show ?thesis by (simp add: wrap64_def)
qed

lemma sdiv_pos: "0 \<le> a \<Longrightarrow> 0 \<le> b \<Longrightarrow> a sdiv b = a div b" for a b :: int
  by (cases "a = 0"; cases "b = 0") (auto simp: signed_divide_int_def sgn_if)

lemma smod_pos: "0 \<le> a \<Longrightarrow> 0 \<le> b \<Longrightarrow> a smod b = a mod b" for a b :: int
  by (cases "a = 0") (auto simp: signed_modulo_int_def sgn_if)

lemmas go_div = sdiv_pos smod_pos

section \<open>Instants and durations\<close>

text \<open>
  A \<open>time.Time\<close> is the number of nanoseconds since January 1 of year 1, UTC, the instant
  whose \<open>IsZero\<close> is true: 0 is Go's zero time.  The location a \<open>time.Time\<close> carries changes no
  comparison; where the code calls \<open>In\<close>, the model keeps the location beside the instant.
  A \<open>time.Duration\<close> counts nanoseconds.
\<close>

type_synonym time = int
type_synonym duration = int

definition isZero :: "time \<Rightarrow> bool" where
  "isZero t \<longleftrightarrow> t = 0"

definition nanosecond :: duration where
  "nanosecond = 1"

definition second :: duration where
  "second = 1000000000"

definition minute :: duration where
  "minute = 60000000000"

text \<open>\<open>time.Time.Sub\<close> saturates at the ends of the duration range.\<close>

definition timeSub :: "time \<Rightarrow> time \<Rightarrow> duration" where
  "timeSub t u =
     (if t - u > maxInt64 then maxInt64 else if t - u < minInt64 then minInt64 else t - u)"

lemmas go_time = isZero_def nanosecond_def second_def minute_def

lemma timeSub_exact: "int64 (t - u) \<Longrightarrow> timeSub t u = t - u"
  by (auto simp: timeSub_def int64_def)

lemma int64_timeSub [simp, intro]: "int64 (timeSub t u)"
  by (auto simp: timeSub_def int64_bounds)

lemma timeSub_pos_iff: "0 < timeSub t u \<longleftrightarrow> u < t"
  by (auto simp: timeSub_def maxInt64_def minInt64_def)

lemma timeSub_nonneg_iff: "0 \<le> timeSub t u \<longleftrightarrow> u \<le> t"
  by (auto simp: timeSub_def maxInt64_def minInt64_def)

lemma timeSub_le: "u \<le> t \<Longrightarrow> timeSub t u \<le> t - u"
  by (auto simp: timeSub_def maxInt64_def minInt64_def)

lemma timeSub_less_iff: "int64 d \<Longrightarrow> d < maxInt64 \<Longrightarrow> d < timeSub t u \<longleftrightarrow> d < t - u"
  by (auto simp: timeSub_def int64_bounds)

lemma timeSub_ge_iff: "int64 d \<Longrightarrow> d \<le> timeSub t u \<longleftrightarrow> d \<le> t - u"
  if "minInt64 < d" for d
  using that by (auto simp: timeSub_def int64_bounds)

lemma timeSub_lt_iff: "int64 d \<Longrightarrow> minInt64 < d \<Longrightarrow> timeSub t u < d \<longleftrightarrow> t - u < d"
  by (auto simp: timeSub_def int64_bounds)

section \<open>Formatted messages\<close>

text \<open>
  A message built with \<open>fmt.Sprintf\<close> is the list of its pieces in printing order: literal text
  and the formatted arguments, left unprinted.  Appending to a message is list append, and
  the empty string is the empty list.
\<close>

datatype frag =
    Lit string
  | FStr string
  | FQuoted string
  | FInt int
  | FBool bool
  | FDur duration
  | FTime time

type_synonym msg = "frag list"

section \<open>Lookups with a default\<close>

text \<open>A Go map of strings read at an absent key gives the empty string, also when the map is nil.\<close>

definition mapGet :: "('k \<rightharpoonup> string) \<Rightarrow> 'k \<Rightarrow> string" where
  "mapGet m k = (case m k of None \<Rightarrow> '''' | Some v \<Rightarrow> v)"

lemma mapGet_upd [simp]: "mapGet (m(k \<mapsto> v)) k = v"
  by (simp add: mapGet_def)

lemma mapGet_upd_other [simp]: "k \<noteq> k' \<Longrightarrow> mapGet (m(k \<mapsto> v)) k' = mapGet m k'"
  by (simp add: mapGet_def)

lemma mapGet_del [simp]: "mapGet (m(k := None)) k = ''''"
  by (simp add: mapGet_def)

end
