(* ===== verification/GoStd.thy ===== *)
theory GoStd
  imports Prelude "HOL-Library.Char_ord" "HOL-Library.List_Lexorder"
begin

text \<open>
  The part of Go's \<open>strings\<close> and \<open>time\<close> packages the program calls, on byte strings: a Go
  \<open>string\<close> is its sequence of bytes, and a HOL \<open>char\<close> is a byte.  Comparison of Go strings
  is the lexicographic order of \<open>List_Lexorder\<close> on \<open>Char_ord\<close>.  \<open>time.ParseDuration\<close> is
  translated with its overflow checks and the float64 product it uses for a fraction.
\<close>

section \<open>Prefixes, substrings, splitting\<close>

definition hasPrefix :: "string \<Rightarrow> string \<Rightarrow> bool" where
  "hasPrefix s p \<longleftrightarrow> take (length p) s = p"

definition hasSuffix :: "string \<Rightarrow> string \<Rightarrow> bool" where
  "hasSuffix s p \<longleftrightarrow> length p \<le> length s \<and> drop (length s - length p) s = p"

fun contains :: "string \<Rightarrow> string \<Rightarrow> bool" where
  "contains [] t = (t = [])"
| "contains (c # s) t = (hasPrefix (c # s) t \<or> contains s t)"

definition containsAny :: "string \<Rightarrow> string \<Rightarrow> bool" where
  "containsAny s cs \<longleftrightarrow> list_ex (\<lambda>c. c \<in> set cs) s"

fun splitOn :: "char \<Rightarrow> string \<Rightarrow> string list" where
  "splitOn sep [] = [[]]"
| "splitOn sep (c # s) =
     (if c = sep then [] # splitOn sep s
      else (case splitOn sep s of [] \<Rightarrow> [[c]] | w # ws \<Rightarrow> (c # w) # ws))"

text \<open>\<open>strings.Cut\<close> at a one-byte separator.\<close>

fun cutAt :: "char \<Rightarrow> string \<Rightarrow> (string \<times> string) option" where
  "cutAt sep [] = None"
| "cutAt sep (c # s) =
     (if c = sep then Some ([], s)
      else map_option (\<lambda>(a, b). (c # a, b)) (cutAt sep s))"

section \<open>White space\<close>

text \<open>
  The UTF-8 encodings of the code points with \<open>unicode.IsSpace\<close>.  No encoding is a proper
  suffix or prefix of another, and none ends inside another rune, so trimming runes and
  trimming these byte sequences agree, also on strings that are not valid UTF-8.
\<close>

definition spaceSeqs :: "string list" where
  "spaceSeqs =
     [[CHR 0x09], [CHR 0x0A], [CHR 0x0B], [CHR 0x0C], [CHR 0x0D], [CHR 0x20],
      [CHR 0xC2, CHR 0x85], [CHR 0xC2, CHR 0xA0], [CHR 0xE1, CHR 0x9A, CHR 0x80],
      [CHR 0xE2, CHR 0x80, CHR 0x80], [CHR 0xE2, CHR 0x80, CHR 0x81],
      [CHR 0xE2, CHR 0x80, CHR 0x82], [CHR 0xE2, CHR 0x80, CHR 0x83],
      [CHR 0xE2, CHR 0x80, CHR 0x84], [CHR 0xE2, CHR 0x80, CHR 0x85],
      [CHR 0xE2, CHR 0x80, CHR 0x86], [CHR 0xE2, CHR 0x80, CHR 0x87],
      [CHR 0xE2, CHR 0x80, CHR 0x88], [CHR 0xE2, CHR 0x80, CHR 0x89],
      [CHR 0xE2, CHR 0x80, CHR 0x8A], [CHR 0xE2, CHR 0x80, CHR 0xA8],
      [CHR 0xE2, CHR 0x80, CHR 0xA9], [CHR 0xE2, CHR 0x80, CHR 0xAF],
      [CHR 0xE2, CHR 0x81, CHR 0x9F], [CHR 0xE3, CHR 0x80, CHR 0x80]]"

definition leadSeq :: "string list \<Rightarrow> string \<Rightarrow> string option" where
  "leadSeq seqs s = find (\<lambda>q. q \<noteq> [] \<and> hasPrefix s q) seqs"

lemma leadSeq_shortens: "leadSeq seqs s = Some q \<Longrightarrow> length (drop (length q) s) < length s"
proof -
  assume "leadSeq seqs s = Some q"
  then have "q \<noteq> []" and "take (length q) s = q"
    by (auto simp: leadSeq_def find_Some_iff hasPrefix_def)
  then show ?thesis by (cases s) auto
qed

function dropSeqs :: "string list \<Rightarrow> string \<Rightarrow> string" where
  "dropSeqs seqs s =
     (case leadSeq seqs s of None \<Rightarrow> s | Some q \<Rightarrow> dropSeqs seqs (drop (length q) s))"
  by pat_completeness auto
termination
  by (relation "measure (\<lambda>(seqs, s). length s)") (use leadSeq_shortens in auto)

declare dropSeqs.simps [simp del]

definition trimSpace :: "string \<Rightarrow> string" where
  "trimSpace s = rev (dropSeqs (map rev spaceSeqs) (rev (dropSeqs spaceSeqs s)))"

text \<open>\<open>strings.Fields\<close>: the maximal runs of bytes outside white space.\<close>

function fieldsFrom :: "string \<Rightarrow> string \<Rightarrow> string list" where
  "fieldsFrom w s =
     (case leadSeq spaceSeqs s of
        Some q \<Rightarrow> (if w = [] then [] else [rev w]) @ fieldsFrom [] (drop (length q) s)
      | None \<Rightarrow> (case s of [] \<Rightarrow> (if w = [] then [] else [rev w]) | c # r \<Rightarrow> fieldsFrom (c # w) r))"
  by pat_completeness auto
termination
  by (relation "measure (\<lambda>(w, s). length s)") (use leadSeq_shortens in auto)

declare fieldsFrom.simps [simp del]

definition strFields :: "string \<Rightarrow> string list" where
  "strFields s = fieldsFrom [] s"

lemma dropSeqs_Nil [simp]: "dropSeqs seqs [] = []"
  by (subst dropSeqs.simps) (auto simp: leadSeq_def hasPrefix_def split: option.splits dest!: find_Some_iff [THEN iffD1])

lemma trimSpace_Nil [simp]: "trimSpace [] = []"
  by (simp add: trimSpace_def)

section \<open>Case\<close>

definition lowerChar :: "char \<Rightarrow> char" where
  "lowerChar c =
     (let n = of_char c :: nat in if 65 \<le> n \<and> n \<le> 90 then char_of (n + 32) else c)"

definition isAscii :: "string \<Rightarrow> bool" where
  "isAscii s \<longleftrightarrow> list_all (\<lambda>c. (of_char c :: nat) < 128) s"

text \<open>
  \<open>strings.ToLower\<close> maps an ASCII string byte by byte.  On other strings it uses the Unicode
  tables of the Go release: the parameter \<open>uni\<close>.
\<close>

definition toLower :: "(string \<Rightarrow> string) \<Rightarrow> string \<Rightarrow> string" where
  "toLower uni s = (if isAscii s then map lowerChar s else uni s)"

text \<open>
  \<open>strings.EqualFold\<close> against an ASCII string.  The code points outside ASCII whose simple
  case folding is an ASCII letter are U+017F (long s) and U+212A (Kelvin sign); they fold to
  \<open>s\<close> and \<open>k\<close>.
\<close>

fun foldBytes :: "string \<Rightarrow> string" where
  "foldBytes (a # b # c # r) =
     (if a = CHR 0xC5 \<and> b = CHR 0xBF then CHR ''s'' # foldBytes (c # r)
      else if a = CHR 0xE2 \<and> b = CHR 0x84 \<and> c = CHR 0xAA then CHR ''k'' # foldBytes r
      else lowerChar a # foldBytes (b # c # r))"
| "foldBytes [a, b] =
     (if a = CHR 0xC5 \<and> b = CHR 0xBF then [CHR ''s''] else [lowerChar a, lowerChar b])"
| "foldBytes [a] = [lowerChar a]"
| "foldBytes [] = []"

definition equalFold :: "string \<Rightarrow> string \<Rightarrow> bool" where
  "equalFold s t \<longleftrightarrow> foldBytes s = foldBytes t"

lemma equalFold_refl [simp]: "equalFold s s"
  by (simp add: equalFold_def)

lemma foldBytes_Nil_iff [simp]: "foldBytes t = [] \<longleftrightarrow> t = []"
  by (cases t rule: foldBytes.cases) auto

section \<open>Durations\<close>

definition isDigit :: "char \<Rightarrow> bool" where
  "isDigit c \<longleftrightarrow> (let n = of_char c :: nat in 48 \<le> n \<and> n \<le> 57)"

definition digitVal :: "char \<Rightarrow> int" where
  "digitVal c = of_char c - 48"

definition twoTo63 :: int where
  "twoTo63 = 9223372036854775808"

text \<open>\<open>leadingInt\<close>: the value of the leading digits and the rest, None on overflow.\<close>

fun leadingInt :: "int \<Rightarrow> string \<Rightarrow> (int \<times> string) option" where
  "leadingInt x [] = Some (x, [])"
| "leadingInt x (c # s) =
     (if \<not> isDigit c then Some (x, c # s)
      else if x > twoTo63 div 10 then None
      else if x * 10 + digitVal c > twoTo63 then None
      else leadingInt (x * 10 + digitVal c) s)"

text \<open>
  \<open>leadingFraction\<close>: digits past the 63-bit range are skipped; the scale is a power of ten
  that float64 holds exactly.
\<close>

fun leadingFraction :: "int \<Rightarrow> int \<Rightarrow> bool \<Rightarrow> string \<Rightarrow> int \<times> int \<times> string" where
  "leadingFraction x scale over [] = (x, scale, [])"
| "leadingFraction x scale over (c # s) =
     (if \<not> isDigit c then (x, scale, c # s)
      else if over then leadingFraction x scale True s
      else if x > (twoTo63 - 1) div 10 then leadingFraction x scale True s
      else if x * 10 + digitVal c > twoTo63 then leadingFraction x scale True s
      else leadingFraction (x * 10 + digitVal c) (scale * 10) False s)"

function bitLen :: "int \<Rightarrow> int" where
  "bitLen n = (if n \<le> 0 then 0 else 1 + bitLen (n div 2))"
  by pat_completeness auto
termination
  by (relation "measure nat") auto

declare bitLen.simps [simp del]

text \<open>
  The float64 nearest to the positive rational \<open>n / d\<close>, ties to even, again as a rational:
  a 53-bit significand over a power of two.
\<close>

definition roundEven :: "int \<Rightarrow> int \<Rightarrow> int" where
  "roundEven n d =
     (let q = n div d; r = n mod d
      in if 2 * r < d \<or> (2 * r = d \<and> q mod 2 = 0) then q else q + 1)"

definition scaleBy :: "int \<Rightarrow> int \<Rightarrow> int \<Rightarrow> int \<times> int" where
  "scaleBy n d k = (if k \<ge> 0 then (n * 2 ^ nat k, d) else (n, d * 2 ^ nat (- k)))"

definition toFloat :: "int \<times> int \<Rightarrow> int \<times> int" where
  "toFloat q =
     (case q of (n, d) \<Rightarrow>
        if n = 0 then (0, 1)
        else
          let k0 = 53 - (bitLen n - bitLen d);
              k = (case scaleBy n d k0 of (a, b) \<Rightarrow> if a div b \<ge> 2 ^ 53 then k0 - 1 else k0);
              m = (case scaleBy n d k of (a, b) \<Rightarrow> roundEven a b)
          in (if k \<ge> 0 then (m, 2 ^ nat k) else (m * 2 ^ nat (- k), 1)))"

text \<open>\<open>uint64(float64(f) * (float64(unit) / scale))\<close>\<close>

definition fracNanos :: "int \<Rightarrow> int \<Rightarrow> int \<Rightarrow> int" where
  "fracNanos f unit scale =
     (let (fn, fd) = toFloat (f, 1);
          (un, ud) = toFloat (unit, 1);
          (rn, rd) = toFloat (un, ud * scale);
          (pn, pd) = toFloat (fn * rn, fd * rd)
      in pn div pd)"

definition unitMap :: "string \<Rightarrow> int option" where
  "unitMap u =
     map_of [(''ns'', 1), (''us'', 1000), ([CHR 0xC2, CHR 0xB5, CHR ''s''], 1000),
             ([CHR 0xCE, CHR 0xBC, CHR ''s''], 1000), (''ms'', 1000000),
             (''s'', 1000000000), (''m'', 60000000000), (''h'', 3600000000000)] u"

text \<open>One \<open>number unit\<close> pair: its nanoseconds and the rest of the string.\<close>

definition durationTerm :: "string \<Rightarrow> (int \<times> string) option" where
  "durationTerm s =
     (if s = [] \<or> \<not> (hd s = CHR ''.'' \<or> isDigit (hd s)) then None
      else case leadingInt 0 s of
        None \<Rightarrow> None
      | Some (v, s1) \<Rightarrow>
          let pre = length s \<noteq> length s1;
              (f, scale, s2, post) =
                (if s1 \<noteq> [] \<and> hd s1 = CHR ''.''
                 then (case leadingFraction 0 1 False (tl s1) of
                         (f, scale, r) \<Rightarrow> (f, scale, r, length (tl s1) \<noteq> length r))
                 else (0, 1, s1, False));
              u = takeWhile (\<lambda>c. \<not> (c = CHR ''.'' \<or> isDigit c)) s2;
              s3 = drop (length u) s2
          in if \<not> pre \<and> \<not> post then None
             else if u = [] then None
             else case unitMap u of
               None \<Rightarrow> None
             | Some unit \<Rightarrow>
                 if v > twoTo63 div unit then None
                 else let w = (if f > 0 then v * unit + fracNanos f unit scale else v * unit)
                      in if f > 0 \<and> w > twoTo63 then None else Some (w, s3))"

text \<open>The loop over the terms; each consumes at least its unit, so the length bounds it.\<close>

fun durationTerms :: "nat \<Rightarrow> int \<Rightarrow> string \<Rightarrow> int option" where
  "durationTerms fuel d [] = Some d"
| "durationTerms 0 d (c # s) = None"
| "durationTerms (Suc fuel) d (c # s) =
     (case durationTerm (c # s) of
        None \<Rightarrow> None
      | Some (v, r) \<Rightarrow> if d + v > twoTo63 then None else durationTerms fuel (d + v) r)"

definition parseDuration :: "string \<Rightarrow> duration option" where
  "parseDuration orig =
     (let neg = (orig \<noteq> [] \<and> hd orig = CHR ''-'');
          s = (if orig \<noteq> [] \<and> (hd orig = CHR ''-'' \<or> hd orig = CHR ''+'') then tl orig else orig)
      in if s = ''0'' then Some 0
         else if s = [] then None
         else case durationTerms (length s) 0 s of
           None \<Rightarrow> None
         | Some d \<Rightarrow>
             if neg then Some (wrap64 (- d))
             else if d > twoTo63 - 1 then None
             else Some (wrap64 d))"

lemma int64_parseDuration: "parseDuration s = Some d \<Longrightarrow> int64 d"
  by (auto simp: parseDuration_def Let_def split: if_splits option.splits)

end
