(* ===== verification/Types.thy ===== *)
theory Types
  imports GoStd
begin

text \<open>
  The objects the program reads and writes: the \<open>NodeActivity\<close> API of \<open>api/v1alpha1/types.go\<close>,
  the taint policy of the controller, and the fields the controller uses of the Kubernetes
  Node, Pod, PersistentVolumeClaim and PersistentVolume.  A nil pointer is None.  The
  objects hold values here, on which a deep copy is the identity; DeepCopy has them with their
  pointers and justifies it.
\<close>

section \<open>The API group\<close>

definition apiGroup :: string where
  "apiGroup = ''availability.interactive-node.io''"

definition apiVersion :: string where
  "apiVersion = ''v1alpha1''"

definition apiResource :: string where
  "apiResource = ''nodeactivities''"

section \<open>States and activities\<close>

text \<open>
  \<open>State\<close> and \<open>Activity\<close> are strings in the source: a status can carry any string, and the
  code has branches for the ones it does not know.
\<close>

type_synonym State = string
type_synonym Activity = string

definition StateActive :: State where
  "StateActive = ''active''"

definition StateIdle :: State where
  "StateIdle = ''idle''"

definition StateUnknown :: State where
  "StateUnknown = ''unknown''"

definition StateStale :: State where
  "StateStale = ''stale''"

definition ActivityGame :: Activity where
  "ActivityGame = ''game''"

definition ActivityInteractive :: Activity where
  "ActivityInteractive = ''interactive''"

definition ActivityIdle :: Activity where
  "ActivityIdle = ''idle''"

definition ActivityUnknown :: Activity where
  "ActivityUnknown = ''unknown''"

lemmas state_defs = StateActive_def StateIdle_def StateUnknown_def StateStale_def
lemmas activity_defs = ActivityGame_def ActivityInteractive_def ActivityIdle_def ActivityUnknown_def

lemma states_distinct [simp]:
  "StateActive \<noteq> StateIdle" "StateIdle \<noteq> StateActive" "StateActive \<noteq> StateUnknown"
  "StateUnknown \<noteq> StateActive" "StateActive \<noteq> StateStale" "StateStale \<noteq> StateActive"
  "StateIdle \<noteq> StateUnknown" "StateUnknown \<noteq> StateIdle" "StateIdle \<noteq> StateStale"
  "StateStale \<noteq> StateIdle" "StateUnknown \<noteq> StateStale" "StateStale \<noteq> StateUnknown"
  by (simp_all add: state_defs)

lemma activities_distinct [simp]:
  "ActivityGame \<noteq> ActivityInteractive" "ActivityInteractive \<noteq> ActivityGame"
  "ActivityGame \<noteq> ActivityIdle" "ActivityIdle \<noteq> ActivityGame"
  "ActivityGame \<noteq> ActivityUnknown" "ActivityUnknown \<noteq> ActivityGame"
  "ActivityInteractive \<noteq> ActivityIdle" "ActivityIdle \<noteq> ActivityInteractive"
  "ActivityInteractive \<noteq> ActivityUnknown" "ActivityUnknown \<noteq> ActivityInteractive"
  "ActivityIdle \<noteq> ActivityUnknown" "ActivityUnknown \<noteq> ActivityIdle"
  by (simp_all add: activity_defs)

lemma states_nonempty [simp]:
  "StateActive \<noteq> ''''" "StateIdle \<noteq> ''''" "StateUnknown \<noteq> ''''" "StateStale \<noteq> ''''"
  by (simp_all add: state_defs)

section \<open>Taints and Nodes\<close>

text \<open>
  Of a taint's \<open>TimeAdded\<close> pointer the code only ever compares the identity (Go compares the
  structs with \<open>!=\<close>), so it is an abstract address here.
\<close>

datatype TaintEffect = NoSchedule | PreferNoSchedule | NoExecute

record Taint =
  tKey :: string
  tValue :: string
  tEffect :: TaintEffect
  tTimeAdded :: "nat option"

definition mkTaint :: "string \<Rightarrow> string \<Rightarrow> TaintEffect \<Rightarrow> Taint" where
  "mkTaint key val effect = \<lparr>tKey = key, tValue = val, tEffect = effect, tTimeAdded = None\<rparr>"

lemma mkTaint_sel [simp]:
  "tKey (mkTaint k v e) = k" "tValue (mkTaint k v e) = v" "tEffect (mkTaint k v e) = e"
  "tTimeAdded (mkTaint k v e) = None"
  by (simp_all add: mkTaint_def)

lemma mkTaint_inject [simp]: "mkTaint k v e = mkTaint k' v' e' \<longleftrightarrow> k = k' \<and> v = v' \<and> e = e'"
  by (simp add: mkTaint_def)

record Node =
  nodeName :: string
  nodeLabels :: "string \<rightharpoonup> string"
  nodeTaints :: "Taint list"

section \<open>The taint policy\<close>

record TaintPolicy =
  polKey :: string
  polInteractiveValue :: string
  polActiveValue :: string
  polFailClosedValue :: string
  polBurstTaintKey :: string
  polStaleAfter :: duration
  polHeartbeatSkew :: duration
  polFailClosed :: bool

section \<open>NodeActivity\<close>

record AvailabilityWindow =
  awSchedule :: string
  awDuration :: string
  awTimeZone :: string
  awState :: string

record NodeActivitySpec =
  specNodeName :: string
  specWindows :: "AvailabilityWindow list"
  specLeadTime :: string

record ManagedTaintStatus =
  mtKey :: string
  mtValue :: string
  mtEffect :: TaintEffect

record BurstTaintStatus =
  btConfigured :: bool
  btDesired :: bool
  btApplied :: bool

record AdmissionStatus =
  adAdmitted :: bool
  adReason :: string
  adMessage :: msg
  adHeartbeatValid :: bool
  adHeartbeatAgeSeconds :: "int option"
  adBurstTaint :: BurstTaintStatus
  adNextTransition :: "time option"
  adNextTransitionReason :: string

datatype ConditionStatus = ConditionTrue | ConditionFalse | ConditionUnknown

record Condition =
  cType :: string
  cStatus :: ConditionStatus
  cReason :: string
  cMessage :: msg
  cObservedGeneration :: int
  cLastTransitionTime :: time

record NodeActivityStatus =
  stState :: State
  stActivity :: Activity
  stReason :: msg
  stObservedAt :: time
  stHeartbeatAt :: time
  stGeneration :: int
  stFailClosed :: bool
  stConditions :: "Condition list"
  stManagedTaint :: "ManagedTaintStatus option"
  stAdmission :: "AdmissionStatus option"

record NodeActivity =
  naNamespace :: string
  naName :: string
  naGeneration :: int
  naDeletionTimestamp :: "time option"
  naFinalizers :: "string list"
  naAnnotations :: "string \<rightharpoonup> string"
  naSpec :: NodeActivitySpec
  naStatus :: NodeActivityStatus

text \<open>\<open>activity.DeletionTimestamp.IsZero()\<close> is true of a nil pointer and of the zero time.\<close>

definition deletionIsZero :: "NodeActivity \<Rightarrow> bool" where
  "deletionIsZero a = (case naDeletionTimestamp a of None \<Rightarrow> True | Some t \<Rightarrow> isZero t)"

section \<open>Pods and volumes\<close>

record OwnerReference =
  orKind :: string

record Volume =
  volHostPath :: bool
  volEmptyDir :: bool
  volClaim :: "string option"

datatype AccessMode = ReadWriteOnce | ReadOnlyMany | ReadWriteMany | ReadWriteOncePod

datatype PodPhase = PodPending | PodRunning | PodSucceeded | PodFailed | PodUnknown

text \<open>
  \<open>podAffinity\<close> nests the three pointers \<open>Affinity\<close>, \<open>NodeAffinity\<close> and
  \<open>RequiredDuringSchedulingIgnoredDuringExecution\<close>; only whether they are nil is read.
\<close>

record Pod =
  podNamespace :: string
  podName :: string
  podUID :: string
  podResourceVersion :: string
  podLabels :: "string \<rightharpoonup> string"
  podAnnotations :: "string \<rightharpoonup> string"
  podDeletionTimestamp :: "time option"
  podOwnerReferences :: "OwnerReference list"
  podNodeName :: string
  podNodeSelector :: "(string \<times> string) list"
  podAffinity :: "unit option option option"
  podPriority :: "int option"
  podVolumes :: "Volume list"
  podGracePeriod :: "int option"
  podPhase :: PodPhase

record PersistentVolumeClaim =
  pvcVolumeName :: string
  pvcAccessModes :: "AccessMode list"

record PersistentVolume =
  pvLocal :: bool
  pvHostPath :: bool

end
