(* ===== verification/GoText.thy ===== *)
theory GoText
  imports GoStd
begin

text \<open>
  More of Go's standard library on byte strings: decimal numbers (\<open>strconv.Atoi\<close> and the \<open>%d\<close> of
  \<open>fmt\<close>), UTF-8 validity, and the path functions the host reporter calls.
\<close>

section \<open>Decimal numbers\<close>

fun digitsVal :: "int \<Rightarrow> string \<Rightarrow> int" where
  "digitsVal x [] = x"
| "digitsVal x (c # s) = digitsVal (x * 10 + digitVal c) s"

definition atoi :: "string \<Rightarrow> int option" where
  "atoi s =
     (let neg = (s \<noteq> [] \<and> hd s = CHR ''-'');
          ds = (if s \<noteq> [] \<and> (hd s = CHR ''-'' \<or> hd s = CHR ''+'') then tl s else s)
      in if ds = [] \<or> \<not> list_all isDigit ds then None
         else let v = digitsVal 0 ds
           in if neg then (if v > twoTo63 then None else Some (- v))
              else if v \<ge> twoTo63 then None else Some v)"

definition digitChar :: "nat \<Rightarrow> char" where
  "digitChar d = char_of (48 + d mod 10)"

fun decimal :: "nat \<Rightarrow> string" where
  "decimal n = (if n < 10 then [digitChar n] else decimal (n div 10) @ [digitChar n])"

declare decimal.simps [simp del]

lemma of_char_digitChar: "(of_char (digitChar d) :: nat) = 48 + d mod 10"
  unfolding digitChar_def by (subst of_char_of) (simp add: mod_less)

lemma digitChar_isDigit [simp]: "isDigit (digitChar d)"
  unfolding isDigit_def Let_def of_char_digitChar by simp

lemma digitVal_digitChar [simp]: "digitVal (digitChar d) = int (d mod 10)"
proof -
  have "(of_char (digitChar d) :: int) = int (of_char (digitChar d) :: nat)"
    by (simp add: of_char_def of_nat_of_bool)
  then show ?thesis unfolding digitVal_def of_char_digitChar by simp
qed

lemma digitsVal_append: "digitsVal x (s @ t) = digitsVal (digitsVal x s) t"
  by (induction s arbitrary: x) auto

lemma decimal_nonempty [simp]: "decimal n \<noteq> []"
  by (subst decimal.simps) simp

lemma decimal_digits: "list_all isDigit (decimal n)"
  by (induction n rule: decimal.induct) (subst decimal.simps, simp)

lemma digitsVal_decimal: "digitsVal 0 (decimal n) = int n"
proof (induction n rule: decimal.induct)
  case (1 n)
  show ?case
  proof (cases "n < 10")
    case True
    then show ?thesis by (subst decimal.simps) simp
  next
    case False
    then have "digitsVal 0 (decimal (n div 10)) = int (n div 10)" by (rule 1)
    moreover have "int (n div 10) * 10 + int (n mod 10) = int n"
      by (metis div_mult_mod_eq of_nat_add of_nat_mult of_nat_numeral)
    ultimately show ?thesis
      using False by (subst decimal.simps) (simp add: digitsVal_append)
  qed
qed

lemma isDigit_signs: "isDigit c \<Longrightarrow> c \<noteq> CHR ''-'' \<and> c \<noteq> CHR ''+''"
  by (auto simp: isDigit_def)

lemma decimal_hd: "isDigit (hd (decimal n))"
  using decimal_digits [of n] decimal_nonempty [of n] by (cases "decimal n") auto

lemma atoi_decimal: "int n < twoTo63 \<Longrightarrow> atoi (decimal n) = Some (int n)"
  using decimal_digits [of n] isDigit_signs [OF decimal_hd [of n]]
  by (simp add: atoi_def digitsVal_decimal)

lemma int64_atoi: "atoi s = Some v \<Longrightarrow> int64 v"
proof -
  have "0 \<le> digitsVal x t" if "0 \<le> x" "list_all isDigit t" for x t
    using that
  proof (induction t arbitrary: x)
    case (Cons c t)
    have "(of_char c :: int) = int (of_char c :: nat)" by (simp add: of_char_def of_nat_of_bool)
    then have "0 \<le> digitVal c" using Cons.prems(2) by (simp add: digitVal_def isDigit_def Let_def)
    then show ?case using Cons by simp
  qed simp
  then show "atoi s = Some v \<Longrightarrow> int64 v"
    unfolding atoi_def Let_def by (fastforce simp: int64_bounds twoTo63_def split: if_splits)
qed

lemma length_decimal: "n < 10 ^ k \<Longrightarrow> 0 < k \<Longrightarrow> length (decimal n) \<le> k"
proof (induction k arbitrary: n)
  case (Suc k)
  show ?case
  proof (cases "n < 10")
    case True
    then show ?thesis by (subst decimal.simps) simp
  next
    case False
    then have "0 < k" using Suc.prems by (cases k) auto
    moreover have "n div 10 < 10 ^ k" using Suc.prems(1) by (simp add: less_mult_imp_div_less mult.commute)
    ultimately have "length (decimal (n div 10)) \<le> k" by (intro Suc.IH)
    then show ?thesis using False by (subst decimal.simps) simp
  qed
qed simp

section \<open>UTF-8\<close>

text \<open>\<open>utf8.ValidString\<close>: the table of well-formed byte sequences.\<close>

definition byteIn :: "char \<Rightarrow> nat \<Rightarrow> nat \<Rightarrow> bool" where
  "byteIn c lo hi \<longleftrightarrow> lo \<le> of_char c \<and> of_char c \<le> hi"

definition rune2 :: "char \<Rightarrow> char \<Rightarrow> bool" where
  "rune2 a b \<longleftrightarrow> byteIn a 0xC2 0xDF \<and> byteIn b 0x80 0xBF"

definition rune3 :: "char \<Rightarrow> char \<Rightarrow> char \<Rightarrow> bool" where
  "rune3 a b c \<longleftrightarrow>
     (byteIn a 0xE0 0xE0 \<and> byteIn b 0xA0 0xBF \<or> byteIn a 0xE1 0xEC \<and> byteIn b 0x80 0xBF \<or>
      byteIn a 0xED 0xED \<and> byteIn b 0x80 0x9F \<or> byteIn a 0xEE 0xEF \<and> byteIn b 0x80 0xBF) \<and>
     byteIn c 0x80 0xBF"

definition rune4 :: "char \<Rightarrow> char \<Rightarrow> char \<Rightarrow> char \<Rightarrow> bool" where
  "rune4 a b c d \<longleftrightarrow>
     (byteIn a 0xF0 0xF0 \<and> byteIn b 0x90 0xBF \<or> byteIn a 0xF1 0xF3 \<and> byteIn b 0x80 0xBF \<or>
      byteIn a 0xF4 0xF4 \<and> byteIn b 0x80 0x8F) \<and>
     byteIn c 0x80 0xBF \<and> byteIn d 0x80 0xBF"

fun validUtf8 :: "string \<Rightarrow> bool" where
  "validUtf8 [] = True"
| "validUtf8 [a] = byteIn a 0 0x7F"
| "validUtf8 [a, b] = (if byteIn a 0 0x7F then validUtf8 [b] else rune2 a b)"
| "validUtf8 [a, b, c] =
     (if byteIn a 0 0x7F then validUtf8 [b, c]
      else if rune2 a b then validUtf8 [c] else rune3 a b c)"
| "validUtf8 (a # b # c # d # s) =
     (if byteIn a 0 0x7F then validUtf8 (b # c # d # s)
      else if rune2 a b then validUtf8 (c # d # s)
      else if rune3 a b c then validUtf8 (d # s)
      else rune4 a b c d \<and> validUtf8 s)"

section \<open>Strings and paths\<close>

definition trimSuffix :: "string \<Rightarrow> string \<Rightarrow> string" where
  "trimSuffix s suffix = (if hasSuffix s suffix then take (length s - length suffix) s else s)"

definition replaceChar :: "char \<Rightarrow> char \<Rightarrow> string \<Rightarrow> string" where
  "replaceChar old new s = map (\<lambda>c. if c = old then new else c) s"

text \<open>\<open>filepath.IsAbs\<close> and \<open>filepath.Base\<close> on Unix.\<close>

definition isAbs :: "string \<Rightarrow> bool" where
  "isAbs path \<longleftrightarrow> hasPrefix path ''/''"

definition pathBase :: "string \<Rightarrow> string" where
  "pathBase path =
     (if path = [] then ''.''
      else let stripped = rev (dropWhile (\<lambda>c. c = CHR ''/'') (rev path));
               base = rev (takeWhile (\<lambda>c. c \<noteq> CHR ''/'') (rev stripped))
           in if base = [] then ''/'' else base)"

definition newline :: char where
  "newline = CHR 0x0A"

end
