(* ===== verification/Signals.thy ===== *)
theory Signals
  imports Types GoText
begin

text \<open>
  \<open>internal/signals/signals.go\<close>, \<open>logind.go\<close> and \<open>nvidia.go\<close>: what a provider observes on the
  host, and how the observations of one sample become one candidate activity.  A provider is its
  name and the result of its \<open>Observe\<close>; the commands the providers execute are the parameter
  \<open>run\<close>, which gives the output or the error of the n-th command of one observation.
\<close>

section \<open>Observations\<close>

record Observation =
  obProvider :: string
  obActivity :: Activity
  obReason :: msg
  obErr :: "msg option"

text \<open>What \<open>Observe\<close> returns: an activity, a reason and an error.\<close>

type_synonym observed = "Activity \<times> msg \<times> msg option"

record Provider =
  prvName :: string
  prvObserve :: observed

fun collectOne :: "Provider \<Rightarrow> Observation" where
  "collectOne provider =
     (case prvObserve provider of
        (activity, reason, None) \<Rightarrow>
          \<lparr>obProvider = prvName provider, obActivity = activity, obReason = reason, obErr = None\<rparr>
      | (_, _, Some err) \<Rightarrow>
          \<lparr>obProvider = prvName provider, obActivity = ActivityUnknown, obReason = err, obErr = Some err\<rparr>)"

definition Collect :: "Provider list \<Rightarrow> Observation list" where
  "Collect providers = map collectOne providers"

section \<open>Aggregation\<close>

definition labelledReason :: "Observation \<Rightarrow> msg" where
  "labelledReason ob = [FStr (obProvider ob), Lit '': ''] @ obReason ob"

fun joinMsgs :: "msg list \<Rightarrow> msg" where
  "joinMsgs [] = []"
| "joinMsgs [m] = m"
| "joinMsgs (m # n # ms) = m @ [Lit ''; ''] @ joinMsgs (n # ms)"

text \<open>The first observation of the target activity, in provider order.\<close>

definition positive :: "Activity \<Rightarrow> Observation list \<Rightarrow> (Activity \<times> msg) option" where
  "positive target obs =
     map_option (\<lambda>ob. (target, labelledReason ob)) (find (\<lambda>ob. obActivity ob = target) obs)"

definition unknownReason :: "Observation \<Rightarrow> msg option" where
  "unknownReason ob =
     (if obActivity ob = ActivityUnknown then Some (labelledReason ob)
      else if obActivity ob = ActivityIdle then None
      else Some [FStr (obProvider ob), Lit '': invalid activity '', FQuoted (obActivity ob)])"

definition idleReason :: "Observation \<Rightarrow> msg option" where
  "idleReason ob = (if obActivity ob = ActivityIdle then Some (labelledReason ob) else None)"

definition Aggregate :: "Observation list \<Rightarrow> Activity \<times> msg" where
  "Aggregate observations =
     (if observations = [] then (ActivityUnknown, [Lit ''no signal providers configured''])
      else
        let sorted = sort_key obProvider observations
        in case positive ActivityGame sorted of
             Some r \<Rightarrow> r
           | None \<Rightarrow>
             (case positive ActivityInteractive sorted of
                Some r \<Rightarrow> r
              | None \<Rightarrow>
                let unknownReasons = List.map_filter unknownReason sorted;
                    idleReasons = List.map_filter idleReason sorted
                in if unknownReasons \<noteq> [] then (ActivityUnknown, joinMsgs unknownReasons)
                   else (ActivityIdle, joinMsgs idleReasons)))"

section \<open>Lemmas\<close>

lemma positive_None: "positive a obs = None \<longleftrightarrow> (\<forall>ob \<in> set obs. obActivity ob \<noteq> a)"
  by (auto simp: positive_def find_None_iff)

lemma positive_iff: "(\<exists>r. positive a obs = Some r) \<longleftrightarrow> (\<exists>ob \<in> set obs. obActivity ob = a)"
  using positive_None [of a obs] by (cases "positive a obs") auto

lemma positive_fst: "positive a obs = Some r \<Longrightarrow> fst r = a"
  by (auto simp: positive_def)

lemma map_filter_Nil: "List.map_filter f xs = [] \<longleftrightarrow> (\<forall>x \<in> set xs. f x = None)"
  by (induction xs) (auto simp: List.map_filter_simps split: option.splits)

text \<open>The activity of an aggregate, read off the set of activities.\<close>

definition verdictActivity :: "Activity set \<Rightarrow> Activity" where
  "verdictActivity as =
     (if ActivityGame \<in> as then ActivityGame
      else if ActivityInteractive \<in> as then ActivityInteractive
      else if as = {ActivityIdle} then ActivityIdle
      else ActivityUnknown)"

lemma Aggregate_positive:
  "obs \<noteq> [] \<Longrightarrow> positive ActivityGame (sort_key obProvider obs) = Some r \<Longrightarrow> Aggregate obs = r"
  "obs \<noteq> [] \<Longrightarrow> positive ActivityGame (sort_key obProvider obs) = None \<Longrightarrow>
     positive ActivityInteractive (sort_key obProvider obs) = Some r \<Longrightarrow> Aggregate obs = r"
  by (simp_all add: Aggregate_def)

lemma Aggregate_negative:
  assumes "obs \<noteq> []" "positive ActivityGame (sort_key obProvider obs) = None"
    "positive ActivityInteractive (sort_key obProvider obs) = None"
  shows "fst (Aggregate obs) =
    (if \<exists>ob \<in> set obs. obActivity ob \<noteq> ActivityIdle then ActivityUnknown else ActivityIdle)"
proof -
  have "List.map_filter unknownReason (sort_key obProvider obs) = [] \<longleftrightarrow>
      (\<forall>ob \<in> set obs. obActivity ob = ActivityIdle)"
    unfolding map_filter_Nil set_sort by (auto simp: unknownReason_def)
  then show ?thesis
    unfolding Aggregate_def Let_def using assms by (simp split: if_split)
qed

lemma Aggregate_activity: "fst (Aggregate obs) = verdictActivity (obActivity ` set obs)"
proof (cases "obs = []")
  case True
  then show ?thesis by (simp add: Aggregate_def verdictActivity_def)
next
  case ne: False
  consider (game) r where "positive ActivityGame (sort_key obProvider obs) = Some r"
    | (interactive) r where "positive ActivityGame (sort_key obProvider obs) = None"
        "positive ActivityInteractive (sort_key obProvider obs) = Some r"
    | (neither) "positive ActivityGame (sort_key obProvider obs) = None"
        "positive ActivityInteractive (sort_key obProvider obs) = None"
    by (meson not_Some_eq)
  then show ?thesis
  proof cases
    case game
    then have "\<exists>ob \<in> set obs. obActivity ob = ActivityGame"
      using positive_iff [of ActivityGame "sort_key obProvider obs"] by auto
    then have "ActivityGame \<in> obActivity ` set obs" by (metis imageI)
    then show ?thesis
      using positive_fst [OF game] Aggregate_positive(1) [OF ne game] by (simp add: verdictActivity_def)
  next
    case interactive
    then have "\<exists>ob \<in> set obs. obActivity ob = ActivityInteractive"
      using positive_iff [of ActivityInteractive "sort_key obProvider obs"] by auto
    then have "ActivityInteractive \<in> obActivity ` set obs" by (metis imageI)
    moreover have "ActivityGame \<notin> obActivity ` set obs"
      using interactive(1) by (auto simp: positive_None)
    ultimately show ?thesis
      using positive_fst [OF interactive(2)] Aggregate_positive(2) [OF ne interactive]
      by (simp add: verdictActivity_def)
  next
    case neither
    then have n: "ActivityGame \<notin> obActivity ` set obs" "ActivityInteractive \<notin> obActivity ` set obs"
      by (auto simp: positive_None)
    have "obActivity ` set obs = {ActivityIdle} \<longleftrightarrow> \<not> (\<exists>ob \<in> set obs. obActivity ob \<noteq> ActivityIdle)"
      using ne by (cases obs) auto
    then show ?thesis
      using Aggregate_negative [OF ne neither] n by (simp add: verdictActivity_def)
  qed
qed

lemma Aggregate_idle_iff:
  "fst (Aggregate obs) = ActivityIdle \<longleftrightarrow> obs \<noteq> [] \<and> (\<forall>ob \<in> set obs. obActivity ob = ActivityIdle)"
  unfolding Aggregate_activity verdictActivity_def by (cases obs) auto

lemma collectOne_err: "obErr (collectOne pv) \<noteq> None \<Longrightarrow> obActivity (collectOne pv) = ActivityUnknown"
  by (cases pv rule: collectOne.cases) (auto split: option.splits prod.splits)

lemma Aggregate_range:
  "fst (Aggregate obs) \<in> {ActivityGame, ActivityInteractive, ActivityIdle, ActivityUnknown}"
  unfolding Aggregate_activity verdictActivity_def by auto

end
