(* ===== verification/Engine.thy ===== *)
theory Engine
  imports Signals
begin

text \<open>
  \<open>internal/engine/engine.go\<close>: the evaluator that turns the candidate of each sample into a
  reported status, with a number of consecutive samples required before the established activity
  changes.
\<close>

section \<open>Definitions\<close>

record DebounceSamples =
  dsGame :: int
  dsInteractive :: int
  dsIdle :: int

record Evaluator =
  evStaleAfter :: duration
  evSamples :: DebounceSamples
  evCurrent :: Activity
  evPending :: Activity
  evPendingCount :: int
  evLastGood :: time
  evFirstSeen :: time
  evLastObserved :: time
  evLastState :: State
  evLastActivity :: Activity
  evGeneration :: int

definition New :: "duration \<Rightarrow> DebounceSamples \<Rightarrow> Evaluator" where
  "New staleAfter samples =
     \<lparr>evStaleAfter = staleAfter, evSamples = samples, evCurrent = ActivityUnknown, evPending = [],
      evPendingCount = 0, evLastGood = 0, evFirstSeen = 0, evLastObserved = 0, evLastState = [],
      evLastActivity = [], evGeneration = 0\<rparr>"

definition requiredSamples :: "DebounceSamples \<Rightarrow> Activity \<Rightarrow> int" where
  "requiredSamples samples act =
     (if act = ActivityGame then dsGame samples
      else if act = ActivityInteractive then dsInteractive samples
      else if act = ActivityIdle then dsIdle samples
      else 1)"

definition stateFor :: "Activity \<Rightarrow> State" where
  "stateFor act =
     (if act = ActivityGame \<or> act = ActivityInteractive then StateActive
      else if act = ActivityIdle then StateIdle
      else StateUnknown)"

text \<open>What one sample concludes: the state, the activity, the reason and when it was observed.\<close>

record sampled =
  saState :: State
  saActivity :: Activity
  saReason :: msg
  saObservedAt :: time

text \<open>A candidate nobody could establish: unknown, and stale when that has lasted.\<close>

definition unknownSample :: "msg \<Rightarrow> time \<Rightarrow> Evaluator \<Rightarrow> sampled \<times> Evaluator" where
  "unknownSample reason now e =
     (let e' = e\<lparr>evPending := ActivityUnknown, evPendingCount := 0\<rparr>;
          since = (if \<not> isZero (evLastGood e) then evLastGood e else evFirstSeen e);
          staleReason = (if \<not> isZero (evLastGood e) then Lit ''last successful observation is stale: ''
                         else Lit ''no successful observation since reporter start: '')
      in if timeSub now since \<ge> evStaleAfter e
         then (\<lparr>saState = StateStale, saActivity = ActivityUnknown, saReason = staleReason # reason,
                saObservedAt = since\<rparr>, e')
         else (\<lparr>saState = StateUnknown, saActivity = ActivityUnknown, saReason = reason,
                saObservedAt = since\<rparr>, e'))"

definition established :: "Activity \<Rightarrow> msg \<Rightarrow> time \<Rightarrow> sampled" where
  "established act reason now =
     \<lparr>saState = stateFor act, saActivity = act, saReason = reason, saObservedAt = now\<rparr>"

definition countPending :: "Activity \<Rightarrow> Evaluator \<Rightarrow> Evaluator" where
  "countPending candidate e =
     (if candidate \<noteq> evPending e then e\<lparr>evPending := candidate, evPendingCount := 1\<rparr>
      else e\<lparr>evPendingCount := wrap64 (evPendingCount e + 1)\<rparr>)"

text \<open>A known candidate: the established activity again, or one more sample of another.\<close>

definition knownSample :: "Activity \<Rightarrow> msg \<Rightarrow> time \<Rightarrow> Evaluator \<Rightarrow> sampled \<times> Evaluator" where
  "knownSample candidate reason now e0 =
     (let e = e0\<lparr>evLastGood := now\<rparr>
      in if candidate = evCurrent e
         then (established (evCurrent e) reason now, e\<lparr>evPending := ActivityUnknown, evPendingCount := 0\<rparr>)
         else
           let e1 = countPending candidate e;
               required = requiredSamples (evSamples e1) candidate;
               progress = [FStr candidate, Lit '' ('', FInt (evPendingCount e1), Lit ''/'', FInt required]
           in if evPendingCount e1 \<ge> required
              then (established candidate reason now,
                    e1\<lparr>evCurrent := candidate, evPending := ActivityUnknown, evPendingCount := 0\<rparr>)
              else if evCurrent e1 \<noteq> ActivityUnknown
              then (established (evCurrent e1)
                      ([Lit ''debouncing ''] @ progress @ [Lit ''); retaining '', FStr (evCurrent e1)]) now, e1)
              else (\<lparr>saState = StateUnknown, saActivity = ActivityUnknown,
                     saReason = [Lit ''debouncing initial ''] @ progress @ [Lit ''): ''] @ reason,
                     saObservedAt = now\<rparr>, e1))"

definition sample :: "Activity \<times> msg \<Rightarrow> time \<Rightarrow> Evaluator \<Rightarrow> sampled \<times> Evaluator" where
  "sample candidate now e0 =
     (let e = (if isZero (evFirstSeen e0) then e0\<lparr>evFirstSeen := now\<rparr> else e0)
      in if fst candidate = ActivityUnknown then unknownSample (snd candidate) now e
         else knownSample (fst candidate) (snd candidate) now e)"

text \<open>The generation moves with the state and the activity; the observation time is kept through
  unknown and stale.\<close>

definition publish :: "sampled \<Rightarrow> Evaluator \<Rightarrow> Evaluator" where
  "publish s e =
     (let e1 =
        (if evGeneration e = 0 \<or> saState s \<noteq> evLastState e \<or> saActivity s \<noteq> evLastActivity e
         then e\<lparr>evGeneration := wrap64 (evGeneration e + 1), evLastState := saState s,
                evLastActivity := saActivity s, evLastObserved := saObservedAt s\<rparr>
         else if saState s = StateActive \<or> saState s = StateIdle
         then e\<lparr>evLastObserved := saObservedAt s\<rparr>
         else e)
      in if isZero (evLastObserved e1) then e1\<lparr>evLastObserved := saObservedAt s\<rparr> else e1)"

definition Next :: "Observation list \<Rightarrow> time \<Rightarrow> Evaluator \<Rightarrow> NodeActivityStatus \<times> Evaluator" where
  "Next observations now e0 =
     (let (s, e1) = sample (Aggregate observations) now e0;
          e2 = publish s e1
      in (\<lparr>stState = saState s, stActivity = saActivity s, stReason = saReason s,
           stObservedAt = evLastObserved e2, stHeartbeatAt = now, stGeneration = evGeneration e2,
           stFailClosed = True, stConditions = [], stManagedTaint = None, stAdmission = None\<rparr>, e2))"

section \<open>The history-based specification\<close>

text \<open>
  A history lists the candidates of the samples and their times, the newest first.  The settled
  activity is the one of the latest candidate that had enough consecutive samples.
\<close>

type_synonym history = "(Activity \<times> time) list"

definition trailing :: "Activity \<Rightarrow> history \<Rightarrow> int" where
  "trailing c h = int (length (takeWhile (\<lambda>x. fst x = c) h))"

fun settled :: "DebounceSamples \<Rightarrow> history \<Rightarrow> Activity" where
  "settled ds [] = ActivityUnknown"
| "settled ds (x # h) =
     (if fst x \<noteq> ActivityUnknown \<and> trailing (fst x) (x # h) \<ge> requiredSamples ds (fst x)
      then fst x else settled ds h)"

fun lastKnown :: "history \<Rightarrow> time option" where
  "lastKnown [] = None"
| "lastKnown (x # h) = (if fst x \<noteq> ActivityUnknown then Some (snd x) else lastKnown h)"

text \<open>Since when nothing is known: the last known candidate, or the first sample.\<close>

definition unknownSince :: "history \<Rightarrow> time" where
  "unknownSince h = (case lastKnown h of Some t \<Rightarrow> t | None \<Rightarrow> snd (last h))"

definition specActivity :: "DebounceSamples \<Rightarrow> history \<Rightarrow> Activity" where
  "specActivity ds h = (if fst (hd h) = ActivityUnknown then ActivityUnknown else settled ds h)"

definition specState :: "duration \<Rightarrow> DebounceSamples \<Rightarrow> history \<Rightarrow> State" where
  "specState staleAfter ds h =
     (if fst (hd h) = ActivityUnknown
      then (if timeSub (snd (hd h)) (unknownSince h) \<ge> staleAfter then StateStale else StateUnknown)
      else stateFor (settled ds h))"

text \<open>A run of the evaluator over samples, in order, and the history it leaves.\<close>

definition stepNext :: "Observation list \<times> time \<Rightarrow> Evaluator \<Rightarrow> Evaluator" where
  "stepNext x e = snd (Next (fst x) (snd x) e)"

definition runNext :: "(Observation list \<times> time) list \<Rightarrow> Evaluator \<Rightarrow> Evaluator" where
  "runNext samples e = fold stepNext samples e"

definition historyOfSamples :: "(Observation list \<times> time) list \<Rightarrow> history" where
  "historyOfSamples samples = rev (map (\<lambda>(obs, now). (fst (Aggregate obs), now)) samples)"

section \<open>The evaluator keeps to the specification\<close>

definition samplesOk :: "DebounceSamples \<Rightarrow> bool" where
  "samplesOk ds \<longleftrightarrow> int64 (dsGame ds) \<and> int64 (dsInteractive ds) \<and> int64 (dsIdle ds)"

lemma requiredSamples_int64: "samplesOk ds \<Longrightarrow> requiredSamples ds c \<le> maxInt64"
  by (simp add: samplesOk_def requiredSamples_def int64_bounds)

text \<open>The latest candidate is neither unknown nor settled: it is being counted.\<close>

definition counting :: "Activity \<Rightarrow> history \<Rightarrow> bool" where
  "counting cur h \<longleftrightarrow> h \<noteq> [] \<and> fst (hd h) \<noteq> ActivityUnknown \<and> fst (hd h) \<noteq> cur"

definition tracks :: "Evaluator \<Rightarrow> history \<Rightarrow> bool" where
  "tracks e h \<longleftrightarrow>
     evCurrent e = settled (evSamples e) h \<and>
     (if counting (evCurrent e) h
      then evPending e = fst (hd h) \<and> evPendingCount e = trailing (fst (hd h)) h \<and>
           evPendingCount e < requiredSamples (evSamples e) (fst (hd h))
      else evPending e \<in> {[], ActivityUnknown}) \<and>
     evFirstSeen e = (if h = [] then 0 else snd (last h)) \<and>
     evLastGood e = (case lastKnown h of None \<Rightarrow> 0 | Some t \<Rightarrow> t)"

lemma New_tracks: "tracks (New staleAfter ds) []"
  by (simp add: tracks_def New_def counting_def)

lemma countPending_sel [simp]:
  "evCurrent (countPending c e) = evCurrent e" "evSamples (countPending c e) = evSamples e"
  "evStaleAfter (countPending c e) = evStaleAfter e" "evPending (countPending c e) = c"
  "evLastGood (countPending c e) = evLastGood e" "evFirstSeen (countPending c e) = evFirstSeen e"
  by (simp_all add: countPending_def)

lemma publish_sel [simp]:
  "evCurrent (publish s e) = evCurrent e" "evSamples (publish s e) = evSamples e"
  "evStaleAfter (publish s e) = evStaleAfter e" "evPending (publish s e) = evPending e"
  "evPendingCount (publish s e) = evPendingCount e"
  "evLastGood (publish s e) = evLastGood e" "evFirstSeen (publish s e) = evFirstSeen e"
  by (simp_all add: publish_def Let_def)

lemma publish_tracks [simp]: "tracks (publish s e) h = tracks e h"
  by (simp add: tracks_def)

lemma trailing_Cons: "trailing c ((d, t) # h) = (if c = d then 1 + trailing c h else 0)"
  by (auto simp: trailing_def)

lemma trailing_nonneg: "0 \<le> trailing c h"
  by (simp add: trailing_def)

lemma trailing_other: "h \<noteq> [] \<Longrightarrow> fst (hd h) \<noteq> c \<Longrightarrow> trailing c h = 0"
  by (cases h) (auto simp: trailing_def)

text \<open>Counting one more sample counts the trailing run of the candidate.\<close>

lemma countPending_trailing:
  assumes t: "tracks e h" and ok: "samplesOk (evSamples e)"
    and c: "c \<noteq> ActivityUnknown" "c \<noteq> []" "c \<noteq> evCurrent e"
  shows "evPendingCount (countPending c e) = trailing c ((c, now) # h)"
proof (cases "h \<noteq> [] \<and> fst (hd h) = c")
  case True
  then have "counting (evCurrent e) h" using c by (simp add: counting_def)
  then have p: "evPending e = c" "evPendingCount e = trailing c h"
    "evPendingCount e < requiredSamples (evSamples e) c"
    using t True by (simp_all add: tracks_def)
  have "int64 (evPendingCount e + 1)"
    using p(2,3) trailing_nonneg [of c h] requiredSamples_int64 [OF ok, of c]
    unfolding int64_bounds by linarith
  then show ?thesis
    using p by (simp add: countPending_def wrap64_id trailing_Cons)
next
  case False
  then have "trailing c h = 0" using trailing_other by (cases "h = []") (auto simp: trailing_def)
  moreover have "evPending e \<noteq> c"
    using t False c unfolding tracks_def counting_def by (auto split: if_splits)
  ultimately show ?thesis by (simp add: countPending_def trailing_Cons)
qed

lemma sample_tracks:
  assumes t: "tracks e h" and ok: "samplesOk (evSamples e)" and now: "now \<noteq> 0"
    and first: "h \<noteq> [] \<longrightarrow> snd (last h) \<noteq> 0" and c: "fst cand \<noteq> []"
  shows "tracks (snd (sample cand now e)) ((fst cand, now) # h)"
proof -
  define e1 where "e1 = (if isZero (evFirstSeen e) then e\<lparr>evFirstSeen := now\<rparr> else e)"
  have s: "sample cand now e =
     (if fst cand = ActivityUnknown then unknownSample (snd cand) now e1
      else knownSample (fst cand) (snd cand) now e1)"
    by (simp add: sample_def e1_def Let_def)
  have e1: "evCurrent e1 = evCurrent e" "evPending e1 = evPending e" "evPendingCount e1 = evPendingCount e"
    "evSamples e1 = evSamples e" "evLastGood e1 = evLastGood e"
    "evFirstSeen e1 = snd (last ((fst cand, now) # h))"
    using t first by (auto simp: e1_def tracks_def isZero_def split: if_splits)
  consider (unknown) "fst cand = ActivityUnknown"
    | (same) "fst cand \<noteq> ActivityUnknown" "fst cand = evCurrent e"
    | (other) "fst cand \<noteq> ActivityUnknown" "fst cand \<noteq> evCurrent e" by blast
  then show ?thesis
  proof cases
    case unknown
    then show ?thesis
      using t e1 unfolding s unknownSample_def Let_def
      by (simp add: tracks_def counting_def)
  next
    case same
    then show ?thesis
      using t e1 unfolding s knownSample_def Let_def
      by (simp add: tracks_def counting_def)
  next
    case other
    let ?e = "e1\<lparr>evLastGood := now\<rparr>"
    have "evPendingCount (countPending (fst cand) ?e) = evPendingCount (countPending (fst cand) e)"
      using e1 by (simp add: countPending_def)
    also have "\<dots> = trailing (fst cand) ((fst cand, now) # h)"
      by (rule countPending_trailing [OF t ok other(1) c other(2)])
    finally have n: "evPendingCount (countPending (fst cand) ?e) = trailing (fst cand) ((fst cand, now) # h)" .
    show ?thesis
    proof (cases "requiredSamples (evSamples e) (fst cand) \<le> trailing (fst cand) ((fst cand, now) # h)")
      case True
      then show ?thesis
        using t e1 other n unfolding s knownSample_def Let_def
        by (simp add: tracks_def counting_def)
    next
      case False
      then show ?thesis
        using t e1 other n unfolding s knownSample_def Let_def
        by (simp add: tracks_def counting_def)
    qed
  qed
qed

text \<open>What the sample says, in terms of the history with the new candidate.\<close>

lemma sample_status:
  assumes t: "tracks e h" and ok: "samplesOk (evSamples e)" and now: "now \<noteq> 0"
    and first: "h \<noteq> [] \<longrightarrow> snd (last h) \<noteq> 0" and c: "fst cand \<noteq> []"
    and known: "\<forall>t. lastKnown h = Some t \<longrightarrow> t \<noteq> 0"
  shows "saState (fst (sample cand now e)) = specState (evStaleAfter e) (evSamples e) ((fst cand, now) # h) \<and>
         saActivity (fst (sample cand now e)) = specActivity (evSamples e) ((fst cand, now) # h)"
proof -
  define e1 where "e1 = (if isZero (evFirstSeen e) then e\<lparr>evFirstSeen := now\<rparr> else e)"
  have s: "sample cand now e =
     (if fst cand = ActivityUnknown then unknownSample (snd cand) now e1
      else knownSample (fst cand) (snd cand) now e1)"
    by (simp add: sample_def e1_def Let_def)
  have e1: "evCurrent e1 = evCurrent e" "evPending e1 = evPending e" "evPendingCount e1 = evPendingCount e"
    "evSamples e1 = evSamples e" "evLastGood e1 = evLastGood e" "evStaleAfter e1 = evStaleAfter e"
    "evFirstSeen e1 = snd (last ((fst cand, now) # h))"
    using t first by (auto simp: e1_def tracks_def isZero_def split: if_splits)
  consider (unknown) "fst cand = ActivityUnknown"
    | (same) "fst cand \<noteq> ActivityUnknown" "fst cand = evCurrent e"
    | (other) "fst cand \<noteq> ActivityUnknown" "fst cand \<noteq> evCurrent e" by blast
  then show ?thesis
  proof cases
    case unknown
    have "(if \<not> isZero (evLastGood e1) then evLastGood e1 else evFirstSeen e1) = unknownSince ((fst cand, now) # h)"
      using t e1 unknown known by (auto simp: tracks_def isZero_def unknownSince_def split: option.splits)
    then show ?thesis
      using unknown e1 unfolding s unknownSample_def Let_def
      by (simp add: specState_def specActivity_def split: if_split)
  next
    case same
    have "settled (evSamples e) ((fst cand, now) # h) = fst cand"
      using t same by (simp add: tracks_def)
    then show ?thesis
      using same e1 unfolding s knownSample_def Let_def
      by (simp add: specState_def specActivity_def established_def)
  next
    case other
    let ?e = "e1\<lparr>evLastGood := now\<rparr>"
    have "evPendingCount (countPending (fst cand) ?e) = evPendingCount (countPending (fst cand) e)"
      using e1 by (simp add: countPending_def)
    also have "\<dots> = trailing (fst cand) ((fst cand, now) # h)"
      by (rule countPending_trailing [OF t ok other(1) c other(2)])
    finally have n: "evPendingCount (countPending (fst cand) ?e) = trailing (fst cand) ((fst cand, now) # h)" .
    have cur: "evCurrent e = settled (evSamples e) h" using t by (simp add: tracks_def)
    show ?thesis
      using e1 other n cur unfolding s knownSample_def Let_def
      by (simp add: specState_def specActivity_def established_def stateFor_def split: if_split)
  qed
qed

lemma Aggregate_nonempty: "fst (Aggregate obs) \<noteq> []"
  using Aggregate_range [of obs] by (auto simp: activity_defs)

lemma Next_sel:
  "snd (Next obs now e) = publish (fst (sample (Aggregate obs) now e)) (snd (sample (Aggregate obs) now e))"
  "stState (fst (Next obs now e)) = saState (fst (sample (Aggregate obs) now e))"
  "stActivity (fst (Next obs now e)) = saActivity (fst (sample (Aggregate obs) now e))"
  "stGeneration (fst (Next obs now e)) = evGeneration (snd (Next obs now e))"
  "stObservedAt (fst (Next obs now e)) = evLastObserved (snd (Next obs now e))"
  "stHeartbeatAt (fst (Next obs now e)) = now" "stFailClosed (fst (Next obs now e))"
  by (simp_all add: Next_def Let_def split_beta)

lemma sample_fixed [simp]:
  "evSamples (snd (sample c now e)) = evSamples e"
  "evStaleAfter (snd (sample c now e)) = evStaleAfter e"
  "evGeneration (snd (sample c now e)) = evGeneration e"
  "evLastState (snd (sample c now e)) = evLastState e"
  "evLastActivity (snd (sample c now e)) = evLastActivity e"
  "evLastObserved (snd (sample c now e)) = evLastObserved e"
  by (simp_all add: sample_def unknownSample_def knownSample_def countPending_def Let_def split: if_split)

lemma Next_fixed [simp]:
  "evSamples (snd (Next obs now e)) = evSamples e"
  "evStaleAfter (snd (Next obs now e)) = evStaleAfter e"
  by (simp_all add: Next_sel)

lemma historyOfSamples_snoc:
  "historyOfSamples (xs @ [(obs, now)]) = (fst (Aggregate obs), now) # historyOfSamples xs"
  by (simp add: historyOfSamples_def)

lemma historyOfSamples_nz:
  assumes "\<forall>x \<in> set xs. snd x \<noteq> 0"
  shows "historyOfSamples xs \<noteq> [] \<longrightarrow> snd (last (historyOfSamples xs)) \<noteq> 0"
    and "lastKnown (historyOfSamples xs) = Some t \<Longrightarrow> t \<noteq> 0"
proof -
  have nz: "\<forall>y \<in> set (historyOfSamples xs). snd y \<noteq> 0"
    using assms by (auto simp: historyOfSamples_def)
  then show "historyOfSamples xs \<noteq> [] \<longrightarrow> snd (last (historyOfSamples xs)) \<noteq> 0" by simp
  have "lastKnown h = Some t \<Longrightarrow> \<exists>y \<in> set h. snd y = t" for h
    by (induction h) (auto split: if_splits)
  then show "lastKnown (historyOfSamples xs) = Some t \<Longrightarrow> t \<noteq> 0" using nz by metis
qed

lemma runNext_append: "runNext (xs @ ys) e = runNext ys (runNext xs e)"
  by (simp add: runNext_def)

lemma runNext_fixed [simp]:
  "evSamples (runNext xs e) = evSamples e" "evStaleAfter (runNext xs e) = evStaleAfter e"
  by (induction xs arbitrary: e) (simp_all add: runNext_def stepNext_def)

lemma runNext_tracks:
  assumes "samplesOk ds" "\<forall>x \<in> set xs. snd x \<noteq> 0"
  shows "tracks (runNext xs (New staleAfter ds)) (historyOfSamples xs)"
  using assms(2)
proof (induction xs rule: rev_induct)
  case Nil
  then show ?case by (simp add: runNext_def historyOfSamples_def New_tracks)
next
  case (snoc x xs)
  obtain obs now where x: "x = (obs, now)" by (cases x)
  let ?e = "runNext xs (New staleAfter ds)"
  have IH: "tracks ?e (historyOfSamples xs)" using snoc by simp
  have ds: "evSamples ?e = ds" by (simp add: New_def)
  have "tracks (snd (sample (Aggregate obs) now ?e)) ((fst (Aggregate obs), now) # historyOfSamples xs)"
  proof (rule sample_tracks [OF IH])
    show "historyOfSamples xs \<noteq> [] \<longrightarrow> snd (last (historyOfSamples xs)) \<noteq> 0"
      by (rule historyOfSamples_nz) (use snoc.prems in auto)
  qed (use assms(1) snoc.prems x ds Aggregate_nonempty in auto)
  then show ?case
    unfolding x runNext_append historyOfSamples_snoc by (simp add: runNext_def stepNext_def Next_sel)
qed

lemma Next_refines:
  assumes "samplesOk ds" "\<forall>x \<in> set (xs @ [(obs, now)]). snd x \<noteq> 0"
  shows "stState (fst (Next obs now (runNext xs (New staleAfter ds)))) =
           specState staleAfter ds (historyOfSamples (xs @ [(obs, now)])) \<and>
         stActivity (fst (Next obs now (runNext xs (New staleAfter ds)))) =
           specActivity ds (historyOfSamples (xs @ [(obs, now)]))"
proof -
  let ?e = "runNext xs (New staleAfter ds)"
  have ds: "evSamples ?e = ds" "evStaleAfter ?e = staleAfter" by (simp_all add: New_def)
  have nz: "\<forall>x \<in> set xs. snd x \<noteq> 0" "now \<noteq> 0" using assms(2) by auto
  show ?thesis
    using sample_status [OF runNext_tracks [OF assms(1) nz(1)], of staleAfter now "Aggregate obs"]
      historyOfSamples_nz [OF nz(1)] nz(2) assms(1) Aggregate_nonempty [of obs]
    unfolding historyOfSamples_snoc Next_sel ds by auto
qed

section \<open>Generations and times\<close>

lemma Next_last [simp]:
  "evLastState (snd (Next obs now e)) = stState (fst (Next obs now e))"
  "evLastActivity (snd (Next obs now e)) = stActivity (fst (Next obs now e))"
  by (auto simp: Next_sel publish_def Let_def)

lemma Next_generation:
  "stGeneration (fst (Next obs now e)) =
     (if evGeneration e = 0 \<or> stState (fst (Next obs now e)) \<noteq> evLastState e \<or>
         stActivity (fst (Next obs now e)) \<noteq> evLastActivity e
      then wrap64 (evGeneration e + 1) else evGeneration e)"
  by (simp add: Next_sel publish_def Let_def)

text \<open>The instants of the evaluator are never ahead of the last sample.\<close>

definition timesBefore :: "Evaluator \<Rightarrow> time \<Rightarrow> bool" where
  "timesBefore e t \<longleftrightarrow> evLastGood e \<le> t \<and> evFirstSeen e \<le> t \<and> evLastObserved e \<le> t"

lemma timesBefore_sample: "timesBefore e now \<Longrightarrow>
    timesBefore (snd (sample c now e)) now \<and> saObservedAt (fst (sample c now e)) \<le> now"
  by (simp add: timesBefore_def sample_def unknownSample_def knownSample_def established_def countPending_def
      Let_def split: if_split)

lemma timesBefore_Next: "timesBefore e now \<Longrightarrow> timesBefore (snd (Next obs now e)) now"
  using timesBefore_sample [of e now "Aggregate obs"]
  by (auto simp: Next_sel timesBefore_def publish_def Let_def)

lemma timesBefore_mono: "timesBefore e t \<Longrightarrow> t \<le> u \<Longrightarrow> timesBefore e u"
  by (auto simp: timesBefore_def)

end
