(* ===== verification/Logind.thy ===== *)
theory Logind
  imports Signals
begin

text \<open>
  \<open>internal/signals/logind.go\<close> and the command runner of \<open>signals.go\<close>: the graphical sessions
  of the host.  The runner is a parameter: \<open>run n command args\<close> is what the n-th command of
  one observation gave, an error or its output.
\<close>

section \<open>The command runner\<close>

type_synonym runner = "nat \<Rightarrow> string \<Rightarrow> string list \<Rightarrow> msg + string"

record boundedBuffer =
  bbBytes :: string
  bbRemaining :: int

text \<open>\<open>Write\<close>: the error, when the data does not fit, and the buffer after it.\<close>

definition boundedWrite :: "string \<Rightarrow> boundedBuffer \<Rightarrow> msg option \<times> boundedBuffer" where
  "boundedWrite data b =
     (if int (length data) > bbRemaining b
      then (Some [Lit ''command output exceeds 1 MiB limit''],
            b\<lparr>bbBytes := bbBytes b @ take (nat (bbRemaining b)) data, bbRemaining := 0\<rparr>)
      else (None, b\<lparr>bbBytes := bbBytes b @ data, bbRemaining := bbRemaining b - int (length data)\<rparr>))"

text \<open>The copy of the command's output, chunk by chunk, which stops at the first error.\<close>

fun copyOutput :: "string list \<Rightarrow> boundedBuffer \<Rightarrow> msg option \<times> boundedBuffer" where
  "copyOutput [] b = (None, b)"
| "copyOutput (chunk # chunks) b =
     (case boundedWrite chunk b of
        (Some err, b') \<Rightarrow> (Some err, b')
      | (None, b') \<Rightarrow> copyOutput chunks b')"

definition outputLimit :: int where
  "outputLimit = 1048576"

text \<open>A command that wrote these chunks and ended with this error, or none.\<close>

definition execRun :: "string list \<Rightarrow> msg option \<Rightarrow> msg + string" where
  "execRun chunks exitErr =
     (let (copyErr, b) = copyOutput chunks \<lparr>bbBytes = [], bbRemaining = outputLimit\<rparr>
      in case exitErr of
           Some err \<Rightarrow> Inl err
         | None \<Rightarrow> (case copyErr of Some err \<Rightarrow> Inl err | None \<Rightarrow> Inr (bbBytes b)))"

section \<open>Sessions\<close>

record LogindProvider =
  lpCommand :: string
  lpGraphicalTypes :: "string set"

definition alnum :: "char \<Rightarrow> bool" where
  "alnum c \<longleftrightarrow> (let n = of_char c :: nat in 97 \<le> n \<and> n \<le> 122 \<or> 65 \<le> n \<and> n \<le> 90 \<or> 48 \<le> n \<and> n \<le> 57)"

definition safeSessionID :: "string \<Rightarrow> bool" where
  "safeSessionID value \<longleftrightarrow>
     \<not> (value = [] \<or> length value > 64) \<and> alnum (hd value) \<and>
     list_all (\<lambda>c. alnum c \<or> c = CHR ''-'' \<or> c = CHR ''_'') value"

definition sessionOfLine :: "string \<Rightarrow> string option" where
  "sessionOfLine line =
     (case strFields line of
        [] \<Rightarrow> None
      | f # _ \<Rightarrow> if safeSessionID f then Some f else None)"

definition parseSessionIDs :: "string \<Rightarrow> string list" where
  "parseSessionIDs output = List.map_filter sessionOfLine (splitOn newline output)"

record sessionProperties =
  spActive :: bool
  spType :: string
  spIdleHint :: bool
  spLockedHint :: bool

definition sessionLine :: "(string \<Rightarrow> string) \<Rightarrow> string \<Rightarrow> sessionProperties \<Rightarrow> sessionProperties" where
  "sessionLine uni line props =
     (case cutAt CHR ''='' (trimSpace line) of
        None \<Rightarrow> props
      | Some (key, value) \<Rightarrow>
          if key = ''Active'' then props\<lparr>spActive := equalFold value ''yes''\<rparr>
          else if key = ''Type'' then props\<lparr>spType := toLower uni value\<rparr>
          else if key = ''IdleHint'' then props\<lparr>spIdleHint := equalFold value ''yes''\<rparr>
          else if key = ''LockedHint'' then props\<lparr>spLockedHint := equalFold value ''yes''\<rparr>
          else props)"

definition parseSessionProperties :: "(string \<Rightarrow> string) \<Rightarrow> string \<Rightarrow> sessionProperties" where
  "parseSessionProperties uni output =
     fold (sessionLine uni) (splitOn newline output)
       \<lparr>spActive = False, spType = [], spIdleHint = False, spLockedHint = False\<rparr>"

definition interactiveSession :: "(string \<Rightarrow> string) \<Rightarrow> LogindProvider \<Rightarrow> string \<Rightarrow> bool" where
  "interactiveSession uni p output =
     (let props = parseSessionProperties uni output
      in spActive props \<and> toLower uni (spType props) \<in> lpGraphicalTypes p \<and>
         \<not> spIdleHint props \<and> \<not> spLockedHint props)"

definition showSessionArgs :: "string \<Rightarrow> string list" where
  "showSessionArgs session =
     [''show-session'', session, ''--property=Active'', ''--property=Type'', ''--property=IdleHint'',
      ''--property=LockedHint'', ''--no-pager'']"

fun inspectSessions ::
    "(string \<Rightarrow> string) \<Rightarrow> runner \<Rightarrow> LogindProvider \<Rightarrow> nat \<Rightarrow> string list \<Rightarrow> observed" where
  "inspectSessions uni run p n [] =
     (ActivityIdle, [Lit ''no active interactive graphical logind session''], None)"
| "inspectSessions uni run p n (session # sessions) =
     (case run n (lpCommand p) (showSessionArgs session) of
        Inl err \<Rightarrow>
          (ActivityUnknown, [], Some ([Lit ''inspect logind session '', FStr session, Lit '': ''] @ err))
      | Inr output \<Rightarrow>
          if interactiveSession uni p output
          then (ActivityInteractive,
                [Lit ''active '', FStr (spType (parseSessionProperties uni output)), Lit '' session '',
                 FStr session], None)
          else inspectSessions uni run p (Suc n) sessions)"

definition logindObserve :: "(string \<Rightarrow> string) \<Rightarrow> runner \<Rightarrow> LogindProvider \<Rightarrow> observed" where
  "logindObserve uni run p =
     (case run 0 (lpCommand p) [''list-sessions'', ''--no-legend'', ''--no-pager''] of
        Inl err \<Rightarrow> (ActivityUnknown, [], Some ([Lit ''list logind sessions: ''] @ err))
      | Inr output \<Rightarrow> inspectSessions uni run p 1 (parseSessionIDs output))"

section \<open>Lemmas\<close>

lemma copyOutput_run:
  assumes "0 \<le> bbRemaining b"
  shows "copyOutput chunks b =
     (if int (length (concat chunks)) \<le> bbRemaining b
      then (None, b\<lparr>bbBytes := bbBytes b @ concat chunks, bbRemaining := bbRemaining b - int (length (concat chunks))\<rparr>)
      else (Some [Lit ''command output exceeds 1 MiB limit''],
            b\<lparr>bbBytes := bbBytes b @ take (nat (bbRemaining b)) (concat chunks), bbRemaining := 0\<rparr>))"
  using assms
proof (induction chunks arbitrary: b)
  case Nil
  then show ?case by simp
next
  case (Cons chunk chunks)
  show ?case
  proof (cases "int (length chunk) > bbRemaining b")
    case True
    then show ?thesis using Cons.prems by (simp add: boundedWrite_def)
  next
    case False
    let ?b = "b\<lparr>bbBytes := bbBytes b @ chunk, bbRemaining := bbRemaining b - int (length chunk)\<rparr>"
    have n: "nat (bbRemaining b) = length chunk + nat (bbRemaining b - int (length chunk))"
      using False by simp
    have "copyOutput (chunk # chunks) b = copyOutput chunks ?b"
      using False by (simp add: boundedWrite_def)
    also have "\<dots> = (if int (length (concat chunks)) \<le> bbRemaining ?b
      then (None, ?b\<lparr>bbBytes := bbBytes ?b @ concat chunks, bbRemaining := bbRemaining ?b - int (length (concat chunks))\<rparr>)
      else (Some [Lit ''command output exceeds 1 MiB limit''],
            ?b\<lparr>bbBytes := bbBytes ?b @ take (nat (bbRemaining ?b)) (concat chunks), bbRemaining := 0\<rparr>))"
      by (rule Cons.IH) (use False in simp)
    finally show ?thesis using n by simp
  qed
qed

lemma execRun_Inr: "execRun chunks exitErr = Inr out \<longleftrightarrow>
    exitErr = None \<and> out = concat chunks \<and> int (length (concat chunks)) \<le> outputLimit"
  by (auto simp: execRun_def copyOutput_run outputLimit_def split: option.splits if_splits)

lemma parseSessionIDs_safe: "session \<in> set (parseSessionIDs output) \<Longrightarrow> safeSessionID session"
  unfolding parseSessionIDs_def
  by (auto simp: List.map_filter_def sessionOfLine_def split: list.splits if_splits)

text \<open>What one session's inspection says, and the first session that decides.\<close>

definition decides :: "(string \<Rightarrow> string) \<Rightarrow> LogindProvider \<Rightarrow> msg + string \<Rightarrow> bool" where
  "decides uni p r = (case r of Inl _ \<Rightarrow> True | Inr output \<Rightarrow> interactiveSession uni p output)"

lemma inspectSessions_idle:
  "fst (inspectSessions uni run p n ss) = ActivityIdle \<longleftrightarrow>
     (\<forall>i < length ss. \<not> decides uni p (run (n + i) (lpCommand p) (showSessionArgs (ss ! i))))"
proof (induction ss arbitrary: n)
  case Nil
  then show ?case by simp
next
  case (Cons s ss)
  have split: "(\<forall>i < length (s # ss). Q i) \<longleftrightarrow> Q 0 \<and> (\<forall>i < length ss. Q (Suc i))" for Q :: "nat \<Rightarrow> bool"
    by (simp add: All_less_Suc2)
  show ?case
    unfolding split using Cons.IH [of "Suc n"]
    by (cases "run n (lpCommand p) (showSessionArgs s)") (simp_all add: decides_def)
qed

lemma inspectSessions_interactive:
  "fst (inspectSessions uni run p n ss) = ActivityInteractive \<Longrightarrow>
     \<exists>i < length ss. \<exists>out. run (n + i) (lpCommand p) (showSessionArgs (ss ! i)) = Inr out \<and>
       interactiveSession uni p out"
proof (induction ss arbitrary: n)
  case Nil
  then show ?case by simp
next
  case (Cons s ss)
  show ?case
  proof (cases "\<exists>out. run n (lpCommand p) (showSessionArgs s) = Inr out \<and> interactiveSession uni p out")
    case True
    then show ?thesis by (intro exI [of _ 0]) simp
  next
    case False
    then have "fst (inspectSessions uni run p (Suc n) ss) = ActivityInteractive"
      using Cons.prems by (simp split: sum.splits if_splits)
    then obtain i out where "i < length ss" "run (Suc n + i) (lpCommand p) (showSessionArgs (ss ! i)) = Inr out"
      "interactiveSession uni p out"
      using Cons.IH by blast
    then show ?thesis by (intro exI [of _ "Suc i"]) simp
  qed
qed

end
