(* ===== verification/GameProcess.thy ===== *)
theory GameProcess
  imports Signals
begin

text \<open>
  \<open>internal/signals/process.go\<close>: the game-process provider.  The directory \<open>/proc\<close> is a
  parameter: the entries \<open>os.ReadDir\<close> returned, in its order, each with what reading its files
  gave at that moment.
\<close>

section \<open>Files\<close>

text \<open>A file that could not be opened, or its bytes and whether reading fails after them.\<close>

datatype fileRead = OpenError | Contents string bool

definition readLimited :: "fileRead \<Rightarrow> nat \<Rightarrow> string \<times> bool" where
  "readLimited f limit =
     (case f of
        OpenError \<Rightarrow> ([], True)
      | Contents bytes fails \<Rightarrow>
          if limit \<le> length bytes then (take limit bytes, False) else (bytes, fails))"

record procEntry =
  peName :: string
  peIsDir :: bool
  peComm :: fileRead
  peCmdline :: fileRead
  peExe :: string

record ProcessProvider =
  ppProcRoot :: string
  ppNames :: "string set"
  ppCommandLineContains :: "string list"

section \<open>Matching\<close>

definition wineNames :: "string list" where
  "wineNames = [''wine'', ''wine64'', ''wine-preloader'', ''wine64-preloader'', ''proton'', ''proton-preloader'']"

definition builtInGameMatch :: "(string \<Rightarrow> string) \<Rightarrow> string \<Rightarrow> string \<Rightarrow> string \<Rightarrow> msg option" where
  "builtInGameMatch uni nm commandLine executable =
     (let lowerName = toLower uni nm;
          lowerCommand = toLower uni commandLine;
          lowerExecutable = toLower uni (pathBase executable)
      in if lowerName = ''gamescope'' \<or> contains lowerCommand ''gamescope --''
         then Some [Lit ''gamescope process detected'']
         else if lowerName = ''reaper'' \<and> contains lowerCommand ''appid=''
         then Some [Lit ''Steam reaper with AppId detected'']
         else if contains lowerCommand ''steamlaunch'' \<and>
                 (lowerName = ''reaper'' \<or> contains lowerCommand ''steam'' \<and> contains lowerCommand ''reaper'')
         then Some [Lit ''Steam SteamLaunch child detected'']
         else if lowerName \<in> set wineNames \<or> hasPrefix lowerExecutable ''wine''
         then Some [Lit ''Proton/Wine game process '', FQuoted nm, Lit '' detected'']
         else if contains lowerCommand ''/proton'' \<and>
                 (contains lowerCommand ''run'' \<or> contains lowerCommand ''waitforexitandrun'')
         then Some [Lit ''Proton game launch detected'']
         else None)"

definition pidSuffix :: "procEntry \<Rightarrow> msg" where
  "pidSuffix e = [Lit '' (pid '', FStr (peName e), Lit '')'']"

definition commOf :: "procEntry \<Rightarrow> string" where
  "commOf e = trimSpace (fst (readLimited (peComm e) 4096))"

definition commandLineOf :: "procEntry \<Rightarrow> string" where
  "commandLineOf e = replaceChar CHR 0x00 CHR '' '' (fst (readLimited (peCmdline e) 65536))"

definition inspected :: "procEntry \<Rightarrow> bool" where
  "inspected e \<longleftrightarrow> peIsDir e \<and> atoi (peName e) \<noteq> None"

definition readable :: "procEntry \<Rightarrow> bool" where
  "readable e \<longleftrightarrow> \<not> (snd (readLimited (peComm e) 4096) \<and> snd (readLimited (peCmdline e) 65536))"

definition gameMatch :: "(string \<Rightarrow> string) \<Rightarrow> ProcessProvider \<Rightarrow> procEntry \<Rightarrow> msg option" where
  "gameMatch uni p e =
     (if commOf e \<in> ppNames p
      then Some ([Lit ''process name '', FQuoted (commOf e), Lit '' matched''] @ pidSuffix e)
      else case builtInGameMatch uni (commOf e) (commandLineOf e) (peExe e) of
        Some reason \<Rightarrow> Some (reason @ pidSuffix e)
      | None \<Rightarrow>
          map_option (\<lambda>lit. [Lit ''command-line literal '', FQuoted lit, Lit '' matched''] @ pidSuffix e)
            (find (contains (commandLineOf e)) (ppCommandLineContains p)))"

fun scanProcesses ::
    "(string \<Rightarrow> string) \<Rightarrow> ProcessProvider \<Rightarrow> procEntry list \<Rightarrow> int \<Rightarrow> observed" where
  "scanProcesses uni p [] n =
     (if n = 0
      then (ActivityUnknown, [], Some [Lit ''no readable processes in '', FStr (ppProcRoot p)])
      else (ActivityIdle, [Lit ''no configured game process matched''], None))"
| "scanProcesses uni p (e # entries) n =
     (if \<not> inspected e then scanProcesses uni p entries n
      else if \<not> readable e then scanProcesses uni p entries n
      else case gameMatch uni p e of
        Some reason \<Rightarrow> (ActivityGame, reason, None)
      | None \<Rightarrow> scanProcesses uni p entries (n + 1))"

definition processObserve :: "(string \<Rightarrow> string) \<Rightarrow> ProcessProvider \<Rightarrow> msg + procEntry list \<Rightarrow> observed" where
  "processObserve uni p entries =
     (case entries of
        Inl err \<Rightarrow> (ActivityUnknown, [], Some ([Lit ''read proc root: ''] @ err))
      | Inr es \<Rightarrow> scanProcesses uni p es 0)"

section \<open>Lemmas\<close>

definition gameProcess :: "(string \<Rightarrow> string) \<Rightarrow> ProcessProvider \<Rightarrow> procEntry \<Rightarrow> bool" where
  "gameProcess uni p e \<longleftrightarrow> inspected e \<and> readable e \<and> gameMatch uni p e \<noteq> None"

lemma scanProcesses_activity:
  "0 \<le> n \<Longrightarrow> fst (scanProcesses uni p es n) =
     (if \<exists>e \<in> set es. gameProcess uni p e then ActivityGame
      else if n = 0 \<and> (\<forall>e \<in> set es. \<not> (inspected e \<and> readable e)) then ActivityUnknown
      else ActivityIdle)"
proof (induction es arbitrary: n)
  case Nil
  then show ?case by simp
next
  case (Cons e es)
  consider (skip) "\<not> (inspected e \<and> readable e)"
    | (game) "inspected e" "readable e" "gameMatch uni p e \<noteq> None"
    | (plain) "inspected e" "readable e" "gameMatch uni p e = None" by blast
  then show ?case
  proof cases
    case skip
    then have "scanProcesses uni p (e # es) n = scanProcesses uni p es n" by auto
    moreover have "(\<exists>x \<in> set (e # es). gameProcess uni p x) \<longleftrightarrow> (\<exists>x \<in> set es. gameProcess uni p x)"
      using skip by (auto simp: gameProcess_def)
    ultimately show ?thesis using Cons skip by simp
  next
    case game
    then have "gameProcess uni p e" by (simp add: gameProcess_def)
    then show ?thesis using game by auto
  next
    case plain
    then have "scanProcesses uni p (e # es) n = scanProcesses uni p es (n + 1)" by simp
    moreover have "(\<exists>x \<in> set (e # es). gameProcess uni p x) \<longleftrightarrow> (\<exists>x \<in> set es. gameProcess uni p x)"
      using plain by (auto simp: gameProcess_def)
    ultimately show ?thesis using Cons plain by simp
  qed
qed

lemma scanProcesses_err: "0 \<le> n \<Longrightarrow> snd (snd (scanProcesses uni p es n)) \<noteq> None \<longleftrightarrow>
    fst (scanProcesses uni p es n) = ActivityUnknown"
  by (induction es arbitrary: n) (auto split: option.splits)

lemma gameMatch_literal:
  "lit \<in> set (ppCommandLineContains p) \<Longrightarrow> contains (commandLineOf e) lit \<Longrightarrow> gameMatch uni p e \<noteq> None"
proof -
  assume "lit \<in> set (ppCommandLineContains p)" "contains (commandLineOf e) lit"
  then have "find (contains (commandLineOf e)) (ppCommandLineContains p) \<noteq> None"
    by (auto simp: find_None_iff simp del: not_None_eq)
  then show ?thesis by (simp add: gameMatch_def split: option.split)
qed

lemma gameMatch_name: "commOf e \<in> ppNames p \<Longrightarrow> gameMatch uni p e \<noteq> None"
  by (simp add: gameMatch_def)

end
