(* ===== verification/Selection.thy ===== *)
theory Selection
  imports Prelude
begin

text \<open>
  The selection loop the program writes in six places: walk a list, keep the best element so
  far, replace it only by a strictly better one.  The preferred open window, the next
  transition, the earlier of two instants, the winning enrollment and the reported GPU process
  are all chosen this way.  The interface is a preference that is asymmetric and negatively
  transitive; its clients are the lemmas on what the loop returns.
\<close>

definition pickStep :: "('a \<Rightarrow> 'a \<Rightarrow> bool) \<Rightarrow> 'a option \<Rightarrow> 'a \<Rightarrow> 'a option" where
  "pickStep better cur x =
     (case cur of None \<Rightarrow> Some x | Some c \<Rightarrow> if better x c then Some x else Some c)"

fun pick :: "('a \<Rightarrow> 'a \<Rightarrow> bool) \<Rightarrow> 'a option \<Rightarrow> 'a list \<Rightarrow> 'a option" where
  "pick better cur [] = cur"
| "pick better cur (x # xs) = pick better (pickStep better cur x) xs"

lemma pick_Some_ex: "\<exists>m. pick better (Some c) xs = Some m"
  by (induction xs arbitrary: c) (auto simp: pickStep_def)

lemma pick_None_iff [simp]: "pick better None xs = None \<longleftrightarrow> xs = []"
  using pick_Some_ex by (cases xs) (auto simp: pickStep_def, fastforce)

lemma pick_append: "pick better cur (xs @ ys) = pick better (pick better cur xs) ys"
  by (induction xs arbitrary: cur) auto

locale strict_pref =
  fixes better :: "'a \<Rightarrow> 'a \<Rightarrow> bool"
  assumes asym: "better a b \<Longrightarrow> \<not> better b a"
    and neg_trans: "better a c \<Longrightarrow> better a b \<or> better b c"
begin

lemma irrefl: "\<not> better a a"
  using asym by blast

lemma trans: "better a b \<Longrightarrow> better b c \<Longrightarrow> better a c"
  using neg_trans asym by blast

lemma not_better_trans: "\<not> better a b \<Longrightarrow> \<not> better b c \<Longrightarrow> \<not> better a c"
  using neg_trans by blast

lemma better_of_weak: "better a b \<Longrightarrow> \<not> better c b \<Longrightarrow> better a c"
  using neg_trans by blast

text \<open>The loop returns an element nothing beats, and nothing before it is as good.\<close>

lemma pick_from_best:
  "pick better (Some c) xs = Some m \<Longrightarrow> \<not> better c m \<and> (\<forall>x \<in> set xs. \<not> better x m)"
proof (induction xs arbitrary: c)
  case Nil
  then show ?case by (simp add: irrefl)
next
  case (Cons x xs)
  show ?case
  proof (cases "better x c")
    case True
    with Cons have "\<not> better x m \<and> (\<forall>x \<in> set xs. \<not> better x m)"
      by (simp add: pickStep_def)
    moreover from this have "\<not> better c m"
      using trans [OF True] by blast
    ultimately show ?thesis by simp
  next
    case False
    with Cons have "\<not> better c m \<and> (\<forall>x \<in> set xs. \<not> better x m)"
      by (simp add: pickStep_def)
    moreover from this have "\<not> better x m"
      using not_better_trans [OF False] by blast
    ultimately show ?thesis by simp
  qed
qed

lemma pick_from_first:
  "pick better (Some c) xs = Some m \<Longrightarrow>
     m = c \<or> (\<exists>us vs. xs = us @ m # vs \<and> better m c \<and> (\<forall>u \<in> set us. better m u))"
proof (induction xs arbitrary: c)
  case Nil
  then show ?case by simp
next
  case (Cons x xs)
  show ?case
  proof (cases "better x c")
    case True
    with Cons.prems have "pick better (Some x) xs = Some m"
      by (simp add: pickStep_def)
    from Cons.IH [OF this] consider "m = x" | us vs where "xs = us @ m # vs" "better m x" "\<forall>u \<in> set us. better m u"
      by blast
    then show ?thesis
    proof cases
      case 1
      then have "x # xs = [] @ m # xs \<and> better m c" using True by simp
      then show ?thesis by fastforce
    next
      case 2
      then have "x # xs = (x # us) @ m # vs \<and> better m c \<and> (\<forall>u \<in> set (x # us). better m u)"
        using trans [OF _ True] by simp
      then show ?thesis by blast
    qed
  next
    case False
    with Cons.prems have "pick better (Some c) xs = Some m"
      by (simp add: pickStep_def)
    from Cons.IH [OF this] consider "m = c" | us vs where "xs = us @ m # vs" "better m c" "\<forall>u \<in> set us. better m u"
      by blast
    then show ?thesis
    proof cases
      case 1
      then show ?thesis by simp
    next
      case 2
      then have "x # xs = (x # us) @ m # vs \<and> better m c \<and> (\<forall>u \<in> set (x # us). better m u)"
        using better_of_weak [OF _ False] by simp
      then show ?thesis by blast
    qed
  qed
qed

lemma pick_maximal:
  assumes "pick better None xs = Some m"
  shows "m \<in> set xs" and "x \<in> set xs \<Longrightarrow> \<not> better x m"
    and "\<exists>us vs. xs = us @ m # vs \<and> (\<forall>u \<in> set us. better m u)"
proof -
  obtain y ys where xs: "xs = y # ys" and run: "pick better (Some y) ys = Some m"
    using assms by (cases xs) (auto simp: pickStep_def)
  note best = pick_from_best [OF run] and first = pick_from_first [OF run]
  show split: "\<exists>us vs. xs = us @ m # vs \<and> (\<forall>u \<in> set us. better m u)"
  proof (cases "m = y")
    case True
    then have "xs = [] @ m # ys" using xs by simp
    then show ?thesis by fastforce
  next
    case False
    then obtain us vs where "ys = us @ m # vs" "better m y" "\<forall>u \<in> set us. better m u"
      using first by blast
    then have "xs = (y # us) @ m # vs \<and> (\<forall>u \<in> set (y # us). better m u)"
      using xs by simp
    then show ?thesis by blast
  qed
  then show "m \<in> set xs" by auto
  show "\<not> better x m" if "x \<in> set xs"
    using that best xs by auto
qed

text \<open>If no two different elements tie, the list's order does not matter.\<close>

lemma pick_order_free:
  assumes "pick better None xs = Some m" "pick better None ys = Some n"
    and "set xs = set ys"
    and "\<And>a b. a \<in> set xs \<Longrightarrow> b \<in> set xs \<Longrightarrow> a \<noteq> b \<Longrightarrow> better a b \<or> better b a"
  shows "m = n"
proof (rule ccontr)
  assume "m \<noteq> n"
  moreover have "m \<in> set xs" "n \<in> set xs"
    using pick_maximal(1) [OF assms(1)] pick_maximal(1) [OF assms(2)] assms(3) by auto
  ultimately have "better m n \<or> better n m"
    using assms(4) by blast
  moreover have "\<not> better n m" "\<not> better m n"
    using pick_maximal(2) [OF assms(1)] pick_maximal(2) [OF assms(2)] \<open>m \<in> set xs\<close> \<open>n \<in> set xs\<close> assms(3)
    by auto
  ultimately show False by blast
qed

end

end
