(* ===== verification/Nvidia.thy ===== *)
theory Nvidia
  imports Signals Selection
begin

text \<open>
  \<open>internal/signals/nvidia.go\<close>: the GPU provider, its parsers of \<open>nvidia-smi\<close>'s output, and the
  compute application it names.  A parser's error is the formatted message on the left.
\<close>

section \<open>Readings\<close>

definition isUnavailable :: "(string \<Rightarrow> string) \<Rightarrow> string \<Rightarrow> bool" where
  "isUnavailable uni reading =
     (toLower uni (trimSpace reading) \<in> {''n/a'', ''[n/a]'', ''[not supported]''})"

function trimInvalid :: "string \<Rightarrow> string" where
  "trimInvalid s = (if \<not> validUtf8 s \<and> 0 < length s then trimInvalid (butlast s) else s)"
  by pat_completeness auto
termination
  by (relation "measure length") auto

declare trimInvalid.simps [simp del]

definition shorten :: "string \<Rightarrow> nat \<Rightarrow> string" where
  "shorten value limit = (if length value \<le> limit then value else trimInvalid (take limit value))"

definition cleanReading :: "string \<Rightarrow> string" where
  "cleanReading line = trimSpace (trimSuffix (trimSpace line) ''%'')"

text \<open>The loop over the lines: the values so far, and whether a reading was seen.\<close>

fun readUtilization ::
    "(string \<Rightarrow> string) \<Rightarrow> string list \<Rightarrow> int list \<Rightarrow> bool \<Rightarrow> msg + int list" where
  "readUtilization uni [] vals hasReading =
     (if \<not> hasReading then Inl [Lit ''NVIDIA utilization query returned no values''] else Inr vals)"
| "readUtilization uni (line0 # lines) vals hasReading =
     (let line = cleanReading line0
      in if line = [] then readUtilization uni lines vals hasReading
         else if isUnavailable uni line then readUtilization uni lines vals True
         else case atoi line of
           None \<Rightarrow> Inl [Lit ''invalid NVIDIA utilization '', FQuoted line]
         | Some value \<Rightarrow>
             if value < 0 \<or> value > 100 then Inl [Lit ''invalid NVIDIA utilization '', FQuoted line]
             else readUtilization uni lines (vals @ [value]) True)"

definition parseUtilization :: "(string \<Rightarrow> string) \<Rightarrow> string \<Rightarrow> msg + int list" where
  "parseUtilization uni output =
     (let trimmed = trimSpace output
      in if trimmed = [] then Inl [Lit ''NVIDIA utilization query returned no values'']
         else readUtilization uni (splitOn newline trimmed) [] False)"

definition maximumUtilization :: "int list \<Rightarrow> int \<times> bool" where
  "maximumUtilization vals =
     (if vals = [] then (0, False)
      else (fold (\<lambda>value maximum. if value > maximum then value else maximum) vals 0, True))"

definition utilizationDetail :: "bool \<Rightarrow> int \<Rightarrow> int \<Rightarrow> msg" where
  "utilizationDetail numeric maximum floor =
     (if \<not> numeric then [Lit ''utilization unavailable'']
      else if maximum \<ge> floor then [Lit ''utilization '', FInt maximum, Lit ''% meeting '', FInt floor, Lit ''% floor'']
      else [Lit ''utilization '', FInt maximum, Lit ''% below '', FInt floor, Lit ''% floor''])"

section \<open>Compute applications\<close>

record computeApp =
  caPID :: int
  caName :: string
  caMemory :: int

definition parseComputePID :: "string \<Rightarrow> msg + int" where
  "parseComputePID field =
     (if field = [] \<or> length field > 10 \<or> \<not> list_all isDigit field
      then Inl [Lit ''invalid NVIDIA compute app pid '', FQuoted (shorten field 32)]
      else case atoi field of
        None \<Rightarrow> Inl [Lit ''invalid NVIDIA compute app pid '', FQuoted field]
      | Some pid \<Rightarrow>
          if pid \<le> 0 then Inl [Lit ''invalid NVIDIA compute app pid '', FQuoted field] else Inr pid)"

definition controlByte :: "char \<Rightarrow> bool" where
  "controlByte c \<longleftrightarrow> (of_char c :: nat) < 0x20 \<or> c = CHR 0x7F"

definition displayComputeAppName :: "string \<Rightarrow> msg + string" where
  "displayComputeAppName raw =
     (let nm = trimSpace raw
      in if nm = [] then Inl [Lit ''invalid NVIDIA compute app name'']
         else if list_ex controlByte nm
         then Inl [Lit ''invalid NVIDIA compute app name '', FQuoted (shorten nm 128)]
         else if length nm > 256 then Inr (shorten nm 256) else Inr nm)"

definition memoryDigits :: "(string \<Rightarrow> string) \<Rightarrow> string \<Rightarrow> string" where
  "memoryDigits uni field =
     (let lower = toLower uni field
      in if hasSuffix lower ''mib'' then trimSpace (take (length field - 3) field)
         else if hasSuffix lower ''mb'' then trimSpace (take (length field - 2) field)
         else field)"

definition parseComputeMemory :: "(string \<Rightarrow> string) \<Rightarrow> string \<Rightarrow> msg + int" where
  "parseComputeMemory uni field0 =
     (if isUnavailable uni field0 then Inr (- 1)
      else
        let field = memoryDigits uni field0
        in if field = [] \<or> length field > 10 \<or> \<not> list_all isDigit field
           then Inl [Lit ''invalid NVIDIA compute app memory '', FQuoted (shorten field 32)]
           else case atoi field of
             None \<Rightarrow> Inl [Lit ''invalid NVIDIA compute app memory '', FQuoted (shorten field 32)]
           | Some value \<Rightarrow> Inr value)"

fun joinWith :: "string \<Rightarrow> string list \<Rightarrow> string" where
  "joinWith sep [] = []"
| "joinWith sep [s] = s"
| "joinWith sep (s # t # ss) = s @ sep @ joinWith sep (t # ss)"

definition parseComputeApp :: "(string \<Rightarrow> string) \<Rightarrow> string \<Rightarrow> msg + computeApp" where
  "parseComputeApp uni line =
     (let parts = splitOn CHR '','' line
      in if length parts < 3 then Inl [Lit ''invalid NVIDIA compute app '', FQuoted (shorten line 128)]
         else case parseComputePID (trimSpace (hd parts)) of
           Inl err \<Rightarrow> Inl err
         | Inr pid \<Rightarrow>
             (case displayComputeAppName (joinWith '','' (butlast (tl parts))) of
                Inl err \<Rightarrow> Inl err
              | Inr nm \<Rightarrow>
                  (case parseComputeMemory uni (trimSpace (last parts)) of
                     Inl err \<Rightarrow> Inl err
                   | Inr memory \<Rightarrow> Inr \<lparr>caPID = pid, caName = nm, caMemory = memory\<rparr>)))"

fun readComputeApps :: "(string \<Rightarrow> string) \<Rightarrow> string list \<Rightarrow> computeApp list \<Rightarrow> msg + computeApp list" where
  "readComputeApps uni [] apps = Inr apps"
| "readComputeApps uni (line0 # lines) apps =
     (let line = trimSpace line0
      in if line = [] then readComputeApps uni lines apps
         else case parseComputeApp uni line of
           Inl err \<Rightarrow> Inl err
         | Inr app \<Rightarrow> readComputeApps uni lines (apps @ [app]))"

definition parseComputeApps :: "(string \<Rightarrow> string) \<Rightarrow> string \<Rightarrow> msg + computeApp list" where
  "parseComputeApps uni output =
     (let trimmed = trimSpace output
      in if trimmed = [] then Inr [] else readComputeApps uni (splitOn newline trimmed) [])"

definition betterComputeApp :: "computeApp \<Rightarrow> computeApp \<Rightarrow> bool" where
  "betterComputeApp candidate current =
     (if caMemory candidate \<noteq> caMemory current then caMemory candidate > caMemory current
      else if caPID candidate \<noteq> caPID current then caPID candidate < caPID current
      else caName candidate < caName current)"

text \<open>The loop keeps the index of the best; the model keeps the element itself.\<close>

definition selectComputeApp :: "computeApp list \<Rightarrow> computeApp \<times> int" where
  "selectComputeApp apps =
     (fold (\<lambda>app best. if betterComputeApp app best then app else best) (tl apps) (hd apps),
      int (length apps) - 1)"

definition computeAppReason :: "computeApp list \<Rightarrow> msg \<Rightarrow> msg" where
  "computeAppReason apps utilization =
     (let (app, extra) = selectComputeApp apps
      in if extra > 0
         then [Lit ''GPU compute app '', FQuoted (caName app), Lit '' (pid '', FInt (caPID app), Lit '') and '',
               FInt extra, Lit '' more with ''] @ utilization
         else [Lit ''GPU compute app '', FQuoted (caName app), Lit '' (pid '', FInt (caPID app), Lit '') with '']
              @ utilization)"

section \<open>The provider\<close>

record NVIDIAProvider =
  nvCommand :: string
  nvUtilizationFloor :: int

definition nvidiaVerdict :: "NVIDIAProvider \<Rightarrow> int list \<Rightarrow> computeApp list \<Rightarrow> observed" where
  "nvidiaVerdict p vals apps =
     (let (maximum, numeric) = maximumUtilization vals
      in if apps \<noteq> []
         then (ActivityGame, computeAppReason apps (utilizationDetail numeric maximum (nvUtilizationFloor p)), None)
         else if \<not> numeric then (ActivityIdle, [Lit ''gpu utilization unavailable''], None)
         else if maximum \<ge> nvUtilizationFloor p
         then (ActivityIdle, [Lit ''GPU utilization '', FInt maximum, Lit ''% meets '', FInt (nvUtilizationFloor p),
                 Lit ''% floor without compute apps''], None)
         else (ActivityIdle, [Lit ''GPU utilization '', FInt maximum, Lit ''% below '', FInt (nvUtilizationFloor p),
                 Lit ''% floor''], None))"

definition nvidiaObserve ::
    "(string \<Rightarrow> string) \<Rightarrow> (nat \<Rightarrow> string \<Rightarrow> string list \<Rightarrow> msg + string) \<Rightarrow> NVIDIAProvider \<Rightarrow> observed" where
  "nvidiaObserve uni run p =
     (case run 0 (nvCommand p) [''--query-gpu=utilization.gpu'', ''--format=csv,noheader,nounits''] of
        Inl err \<Rightarrow> (ActivityUnknown, [], Some ([Lit ''query NVIDIA utilization: ''] @ err))
      | Inr output \<Rightarrow>
        (case parseUtilization uni output of
           Inl err \<Rightarrow> (ActivityUnknown, [], Some err)
         | Inr vals \<Rightarrow>
           (case run 1 (nvCommand p)
                   [''--query-compute-apps=pid,process_name,used_gpu_memory'', ''--format=csv,noheader,nounits''] of
              Inl err \<Rightarrow> (ActivityUnknown, [], Some ([Lit ''query NVIDIA compute apps: ''] @ err))
            | Inr appsOutput \<Rightarrow>
              (case parseComputeApps uni appsOutput of
                 Inl err \<Rightarrow> (ActivityUnknown, [], Some err)
               | Inr apps \<Rightarrow> nvidiaVerdict p vals apps))))"

section \<open>Lemmas\<close>

lemma trimInvalid_prefix: "\<exists>n. trimInvalid s = take n s"
proof (induction s rule: trimInvalid.induct)
  case (1 s)
  show ?case
  proof (cases "\<not> validUtf8 s \<and> 0 < length s")
    case True
    then obtain n where "trimInvalid (butlast s) = take n (butlast s)" using 1 by blast
    then have "trimInvalid s = take (min n (length s - 1)) s"
      using True by (subst trimInvalid.simps) (simp add: butlast_conv_take)
    then show ?thesis by blast
  next
    case False
    then have "trimInvalid s = s" by (subst trimInvalid.simps) auto
    then show ?thesis by (intro exI [of _ "length s"]) simp
  qed
qed

lemma trimInvalid_valid: "validUtf8 (trimInvalid s)"
proof (induction s rule: trimInvalid.induct)
  case (1 s)
  then show ?case by (subst trimInvalid.simps) auto
qed

lemma shorten_length: "length (shorten s n) \<le> n"
  using trimInvalid_prefix [of "take n s"] by (auto simp: shorten_def)

lemma shorten_prefix: "\<exists>m. shorten s n = take m s"
  using trimInvalid_prefix [of "take n s"] by (auto simp: shorten_def take_take intro: exI [of _ "length s"])

lemma shorten_valid: "validUtf8 s \<Longrightarrow> validUtf8 (shorten s n)"
  by (simp add: shorten_def trimInvalid_valid)

lemma readUtilization_range:
  "readUtilization uni lines vals seen = Inr out \<Longrightarrow> \<forall>v \<in> set vals. 0 \<le> v \<and> v \<le> 100 \<Longrightarrow>
     \<forall>v \<in> set out. 0 \<le> v \<and> v \<le> 100"
  by (induction uni lines vals seen rule: readUtilization.induct)
     (auto simp: Let_def split: if_splits option.splits)

lemma parseUtilization_range:
  "parseUtilization uni output = Inr vals \<Longrightarrow> \<forall>v \<in> set vals. 0 \<le> v \<and> v \<le> 100"
  by (auto simp: parseUtilization_def Let_def dest!: readUtilization_range split: if_splits)

lemma fold_max: "fold (\<lambda>value maximum. if value > maximum then value else maximum) vals (m :: int) = Max (set (m # vals))"
proof -
  have "(\<lambda>value maximum :: int. if value > maximum then value else maximum) = max"
    by (auto simp: fun_eq_iff max_def)
  then show ?thesis unfolding Max.set_eq_fold by simp
qed

lemma maximumUtilization_Max:
  "vals \<noteq> [] \<Longrightarrow> \<forall>v \<in> set vals. 0 \<le> v \<Longrightarrow> maximumUtilization vals = (Max (set vals), True)"
proof -
  assume a: "vals \<noteq> []" "\<forall>v \<in> set vals. 0 \<le> v"
  then have "Max (set vals) \<in> set vals" by (intro Max_in) auto
  with a have "max 0 (Max (set vals)) = Max (set vals)" by (auto simp: max_def)
  then have "Max (set (0 # vals)) = Max (set vals)" using a by simp
  with a show ?thesis by (simp add: maximumUtilization_def fold_max del: list.set)
qed

interpretation apps: strict_pref betterComputeApp
  by unfold_locales (auto simp: betterComputeApp_def split: if_splits)

lemma pick_fold:
  "pick better (Some c) xs = Some (fold (\<lambda>x best. if better x best then x else best) xs c)"
  by (induction xs arbitrary: c) (auto simp: pickStep_def)

lemma selectComputeApp_pick: "apps \<noteq> [] \<Longrightarrow> pick betterComputeApp None apps = Some (fst (selectComputeApp apps))"
  by (cases apps) (auto simp: selectComputeApp_def pick_fold pickStep_def)

lemma betterComputeApp_total: "a \<noteq> b \<Longrightarrow> betterComputeApp a b \<or> betterComputeApp b a"
  by (cases a; cases b) (auto simp: betterComputeApp_def)

lemma parseComputePID_decimal:
  assumes "0 < n" "n < 10 ^ 10"
  shows "parseComputePID (decimal n) = Inr (int n)"
proof -
  have "length (decimal n) \<le> 10" by (rule length_decimal [OF assms(2)]) simp
  moreover have "int n < twoTo63" using assms by (simp add: twoTo63_def)
  ultimately show ?thesis
    using assms by (simp add: parseComputePID_def decimal_digits atoi_decimal not_less)
qed

lemma parseComputePID_range: "parseComputePID s = Inr pid \<Longrightarrow> 0 < pid"
  by (auto simp: parseComputePID_def split: if_splits option.splits)

section \<open>Reading back what nvidia-smi prints\<close>

text \<open>
  One line of \<open>--format=csv,noheader,nounits\<close>: process id, name and memory, joined by a comma
  and a space.
\<close>

definition renderApp :: "computeApp \<Rightarrow> string" where
  "renderApp app =
     decimal (nat (caPID app)) @ '', '' @ caName app @ '', '' @ decimal (nat (caMemory app))"

fun renderApps :: "computeApp list \<Rightarrow> string" where
  "renderApps [] = []"
| "renderApps [a] = renderApp a"
| "renderApps (a # b # apps) = renderApp a @ newline # renderApps (b # apps)"

definition printable :: "computeApp \<Rightarrow> bool" where
  "printable app \<longleftrightarrow>
     0 < caPID app \<and> caPID app < 10 ^ 10 \<and> 0 \<le> caMemory app \<and> caMemory app < 10 ^ 10 \<and>
     caName app \<noteq> [] \<and> length (caName app) \<le> 256 \<and> trimSpace (caName app) = caName app \<and>
     \<not> list_ex controlByte (caName app)"

lemma hasPrefix_Cons: "hasPrefix (c # s) q \<Longrightarrow> q \<noteq> [] \<Longrightarrow> hd q = c"
  by (cases q) (auto simp: hasPrefix_def)

lemma leadSeq_None: "c \<notin> hd ` set seqs \<Longrightarrow> leadSeq seqs (c # s) = None"
  unfolding leadSeq_def find_None_iff using hasPrefix_Cons by fastforce

lemma dropSeqs_id: "s \<noteq> [] \<Longrightarrow> hd s \<notin> hd ` set seqs \<Longrightarrow> dropSeqs seqs s = s"
  by (cases s) (subst dropSeqs.simps, simp add: leadSeq_None)+

lemma trimSpace_id:
  assumes "s \<noteq> []" "hd s \<notin> hd ` set spaceSeqs" "last s \<notin> last ` set spaceSeqs"
  shows "trimSpace s = s"
proof -
  have ne: "\<forall>q \<in> set spaceSeqs. q \<noteq> []" by (simp add: spaceSeqs_def)
  have "hd ` set (map rev spaceSeqs) = last ` set spaceSeqs"
    by (simp add: spaceSeqs_def)
  then have "dropSeqs (map rev spaceSeqs) (rev s) = rev s"
    using assms by (intro dropSeqs_id) (auto simp: hd_rev)
  then show ?thesis using assms by (simp add: trimSpace_def dropSeqs_id)
qed

lemma digit_not_space: "isDigit c \<Longrightarrow> c \<notin> hd ` set spaceSeqs \<and> c \<notin> last ` set spaceSeqs"
  by (auto simp: spaceSeqs_def isDigit_def)

lemma decimal_last: "isDigit (last (decimal n))"
  using decimal_digits [of n] decimal_nonempty [of n] by (auto simp: list_all_iff)

lemma trimSpace_decimal [simp]: "trimSpace (decimal n) = decimal n"
  using digit_not_space [OF decimal_hd] digit_not_space [OF decimal_last] by (intro trimSpace_id) auto

lemma trimSpace_blank: "trimSpace (CHR '' '' # s) = trimSpace s"
proof -
  have "leadSeq spaceSeqs (CHR '' '' # s) = Some '' ''"
    by (simp add: leadSeq_def spaceSeqs_def hasPrefix_def)
  then have "dropSeqs spaceSeqs (CHR '' '' # s) = dropSeqs spaceSeqs s"
    by (subst dropSeqs.simps) simp
  then show ?thesis by (simp add: trimSpace_def)
qed

lemma splitOn_nonempty [simp]: "splitOn sep s \<noteq> []"
  by (cases s) (auto split: list.split)

lemma splitOn_none: "sep \<notin> set s \<Longrightarrow> splitOn sep s = [s]"
  by (induction s) auto

lemma splitOn_first: "sep \<notin> set a \<Longrightarrow> splitOn sep (a @ sep # b) = a # splitOn sep b"
  by (induction a) auto

lemma splitOn_last: "sep \<notin> set b \<Longrightarrow> splitOn sep (a @ sep # b) = splitOn sep a @ [b]"
proof (induction a)
  case Nil
  then show ?case by (simp add: splitOn_none)
next
  case (Cons c a)
  then show ?case by (cases "splitOn sep a") auto
qed

lemma joinWith_Cons: "ws \<noteq> [] \<Longrightarrow> joinWith sep (w # ws) = w @ sep @ joinWith sep ws"
  by (cases ws) auto

lemma joinWith_splitOn: "joinWith [sep] (splitOn sep s) = s"
proof (induction s)
  case Nil
  then show ?case by simp
next
  case (Cons c s)
  obtain w ws where w: "splitOn sep s = w # ws" by (cases "splitOn sep s") auto
  have "joinWith [sep] (w # ws) = s" using Cons w by simp
  then have "joinWith [sep] ((c # w) # ws) = c # s"
    by (cases ws) auto
  then show ?case using w Cons by (simp add: joinWith_Cons)
qed

lemma decimal_no: "\<not> isDigit c \<Longrightarrow> c \<notin> set (decimal n)"
  using decimal_digits [of n] by (auto simp: list_all_iff)

lemma not_digits [simp]: "\<not> isDigit CHR '',''" "\<not> isDigit newline" "\<not> isDigit CHR '' ''"
  by (simp_all add: isDigit_def newline_def)

lemma parseComputeMemory_decimal:
  assumes "n < 10 ^ 10"
  shows "parseComputeMemory uni (decimal n) = Inr (int n)"
proof -
  have d: "list_all isDigit (decimal n)" by (rule decimal_digits)
  have low: "lowerChar c = c" if "isDigit c" for c
    using that by (auto simp: isDigit_def lowerChar_def Let_def)
  have "toLower uni (decimal n) = decimal n"
    unfolding toLower_def isAscii_def using d
    by (auto simp: list_all_iff low isDigit_def Let_def intro!: map_idI)
  note lower = this
  have ne: "decimal n \<noteq> s" if "s \<noteq> []" "\<not> isDigit (hd s)" for s
    using that decimal_hd [of n] by auto
  have un: "\<not> isUnavailable uni (decimal n)"
    unfolding isUnavailable_def trimSpace_decimal lower
    using ne [of "''n/a''"] ne [of "''[n/a]''"] ne [of "''[not supported]''"]
    by (simp add: isDigit_def)
  have suf: "\<not> hasSuffix (decimal n) q" if "q \<noteq> []" "\<not> isDigit (last q)" for q
    using that decimal_last [of n] by (auto simp: hasSuffix_def) (metis last_drop not_le drop_eq_Nil)
  have "memoryDigits uni (decimal n) = decimal n"
    using suf [of "''mib''"] suf [of "''mb''"] by (simp add: memoryDigits_def lower isDigit_def)
  moreover have "length (decimal n) \<le> 10" by (rule length_decimal [OF assms]) simp
  moreover have "int n < twoTo63" using assms by (simp add: twoTo63_def)
  ultimately show ?thesis
    using un d by (simp add: parseComputeMemory_def atoi_decimal not_less)
qed

lemma parseComputeApp_parts:
  assumes "splitOn CHR '','' line = p # ws @ [m]" "ws \<noteq> []"
    and "parseComputePID (trimSpace p) = Inr pid" "displayComputeAppName (joinWith '','' ws) = Inr nm"
    and "parseComputeMemory uni (trimSpace m) = Inr memory"
  shows "parseComputeApp uni line = Inr \<lparr>caPID = pid, caName = nm, caMemory = memory\<rparr>"
proof -
  have "\<not> length (p # ws @ [m]) < 3" using assms(2) by (cases ws) auto
  then show ?thesis using assms by (simp add: parseComputeApp_def)
qed

lemma parseComputeApp_render:
  assumes "printable app"
  shows "parseComputeApp uni (renderApp app) = Inr app"
proof -
  define nm where "nm = CHR '' '' # caName app"
  have line: "renderApp app = decimal (nat (caPID app)) @ CHR '','' # (nm @ CHR '','' # (CHR '' '' # decimal (nat (caMemory app))))"
    by (simp add: renderApp_def nm_def)
  have "splitOn CHR '','' (renderApp app) =
      decimal (nat (caPID app)) # splitOn CHR '','' nm @ [CHR '' '' # decimal (nat (caMemory app))]"
    unfolding line splitOn_first [OF decimal_no [OF not_digits(1)]]
    by (subst splitOn_last) (simp_all add: decimal_no)
  moreover have "displayComputeAppName (joinWith '','' (splitOn CHR '','' nm)) = Inr (caName app)"
    using assms unfolding joinWith_splitOn nm_def
    by (simp add: displayComputeAppName_def trimSpace_blank printable_def)
  moreover have "0 < nat (caPID app)" "nat (caPID app) < 10 ^ 10" "nat (caMemory app) < 10 ^ 10"
    using assms by (auto simp: printable_def)
  ultimately have "parseComputeApp uni (renderApp app) =
      Inr \<lparr>caPID = int (nat (caPID app)), caName = caName app, caMemory = int (nat (caMemory app))\<rparr>"
    by (intro parseComputeApp_parts)
       (auto simp: trimSpace_blank parseComputePID_decimal parseComputeMemory_decimal)
  then show ?thesis using assms by (simp add: printable_def)
qed

lemma renderApp_ends:
  "renderApp app \<noteq> []" "isDigit (hd (renderApp app))" "isDigit (last (renderApp app))"
  by (auto simp: renderApp_def decimal_hd decimal_last)

lemma renderApps_ends:
  "apps \<noteq> [] \<Longrightarrow> renderApps apps \<noteq> [] \<and> isDigit (hd (renderApps apps)) \<and> isDigit (last (renderApps apps))"
  by (induction apps rule: renderApps.induct) (auto simp: renderApp_ends)

lemma trimSpace_digits: "s \<noteq> [] \<Longrightarrow> isDigit (hd s) \<Longrightarrow> isDigit (last s) \<Longrightarrow> trimSpace s = s"
  using digit_not_space by (intro trimSpace_id) auto

lemma controlByte_newline: "controlByte newline"
  by (simp add: controlByte_def newline_def)

lemma renderApp_newline: "printable app \<Longrightarrow> newline \<notin> set (renderApp app)"
proof -
  assume "printable app"
  then have "newline \<notin> set (caName app)"
    unfolding printable_def list_ex_iff by (metis controlByte_newline)
  moreover have "newline \<noteq> CHR '',''" "newline \<noteq> CHR '' ''" by (simp_all add: newline_def)
  ultimately show ?thesis by (simp add: renderApp_def decimal_no)
qed

lemma splitOn_renderApps:
  "apps \<noteq> [] \<Longrightarrow> \<forall>a \<in> set apps. printable a \<Longrightarrow> splitOn newline (renderApps apps) = map renderApp apps"
  by (induction apps rule: renderApps.induct) (auto simp: renderApp_newline splitOn_none splitOn_first)

lemma readComputeApps_render:
  "\<forall>a \<in> set apps. printable a \<Longrightarrow> readComputeApps uni (map renderApp apps) before = Inr (before @ apps)"
proof (induction apps arbitrary: before)
  case Nil
  then show ?case by simp
next
  case (Cons a apps)
  have "trimSpace (renderApp a) = renderApp a" by (rule trimSpace_digits) (rule renderApp_ends)+
  then show ?case using Cons by (simp add: parseComputeApp_render renderApp_ends)
qed

lemma parseComputeApps_render:
  assumes "\<forall>a \<in> set apps. printable a"
  shows "parseComputeApps uni (renderApps apps) = Inr apps"
proof (cases "apps = []")
  case True
  then show ?thesis by (simp add: parseComputeApps_def)
next
  case False
  then have "trimSpace (renderApps apps) = renderApps apps" "renderApps apps \<noteq> []"
    using renderApps_ends [OF False] by (auto intro: trimSpace_digits)
  then show ?thesis
    using splitOn_renderApps [OF False assms] readComputeApps_render [OF assms, of uni "[]"]
    by (simp add: parseComputeApps_def)
qed

end
