(* ===== verification/Config.thy ===== *)
theory Config
  imports Logind GameProcess Nvidia
begin

text \<open>
  \<open>internal/config/config.go\<close>: the reporter's configuration, its defaults and its validation, and
  the choice of providers from it (\<open>buildProviders\<close> of \<open>cmd/node-activity-reporter/main.go\<close>).  The YAML
  decoder is a parameter of \<open>Load\<close>.  Of \<open>url.Parse\<close> the model has everything but the syntax of a
  host, whose rules differ between Go releases: the parameter \<open>parseHost\<close>.
\<close>

section \<open>Configuration\<close>

record DebounceConfig =
  dcGameSamples :: int
  dcInteractiveSamples :: int
  dcIdleSamples :: int

record AgentConfig =
  acSampleInterval :: duration
  acHeartbeatInterval :: duration
  acStaleAfter :: duration
  acFailClosed :: bool
  acDebounce :: DebounceConfig

record LogindConfig =
  lcEnabled :: bool
  lcCommand :: string
  lcGraphicalTypes :: "string list"
  lcTimeout :: duration

record GameProcessConfig =
  gcEnabled :: bool
  gcProcRoot :: string
  gcNames :: "string list"
  gcCommandLineContains :: "string list"

record NVIDIAConfig =
  ncEnabled :: bool
  ncCommand :: string
  ncUtilizationFloor :: int
  ncTimeout :: duration

record SignalsConfig =
  scActivityMode :: string
  scLogind :: LogindConfig
  scGameProcess :: GameProcessConfig
  scNVIDIA :: NVIDIAConfig

record KubernetesConfig =
  kcAPIServer :: string
  kcNamespace :: string
  kcName :: string
  kcTokenFile :: string
  kcCAFile :: string
  kcTimeout :: duration

record ReporterConfig =
  rcMode :: string
  rcKubernetes :: KubernetesConfig

record Config =
  cfAgent :: AgentConfig
  cfSignals :: SignalsConfig
  cfReporter :: ReporterConfig

definition unmarshalDuration :: "string \<Rightarrow> msg + duration" where
  "unmarshalDuration text =
     (case parseDuration text of
        None \<Rightarrow> Inl [Lit ''invalid duration '', FQuoted text]
      | Some d \<Rightarrow> Inr d)"

definition Defaults :: Config where
  "Defaults =
     \<lparr>cfAgent =
        \<lparr>acSampleInterval = 5 * second, acHeartbeatInterval = 15 * second, acStaleAfter = 60 * second,
         acFailClosed = True,
         acDebounce = \<lparr>dcGameSamples = 1, dcInteractiveSamples = 2, dcIdleSamples = 3\<rparr>\<rparr>,
      cfSignals =
        \<lparr>scActivityMode = ''game'',
         scLogind = \<lparr>lcEnabled = True, lcCommand = ''/usr/bin/loginctl'',
                     lcGraphicalTypes = [''wayland'', ''x11''], lcTimeout = 3 * second\<rparr>,
         scGameProcess = \<lparr>gcEnabled = False, gcProcRoot = ''/proc'', gcNames = [], gcCommandLineContains = []\<rparr>,
         scNVIDIA = \<lparr>ncEnabled = False, ncCommand = ''/usr/bin/nvidia-smi'', ncUtilizationFloor = 20,
                     ncTimeout = 3 * second\<rparr>\<rparr>,
      cfReporter =
        \<lparr>rcMode = ''stdout'',
         rcKubernetes = \<lparr>kcAPIServer = [], kcNamespace = [], kcName = [], kcTokenFile = [], kcCAFile = [],
                         kcTimeout = 10 * second\<rparr>\<rparr>\<rparr>"

section \<open>Validation\<close>

definition dnsByte :: "char \<Rightarrow> bool" where
  "dnsByte c \<longleftrightarrow> (let n = of_char c :: nat in 97 \<le> n \<and> n \<le> 122 \<or> 48 \<le> n \<and> n \<le> 57 \<or> c = CHR ''-'')"

definition dnsLabel :: "string \<Rightarrow> bool" where
  "dnsLabel value \<longleftrightarrow>
     \<not> (length value < 1 \<or> length value > 63 \<or> hd value = CHR ''-'' \<or> last value = CHR ''-'') \<and>
     list_all dnsByte value"

definition validateCommand :: "string \<Rightarrow> string \<Rightarrow> msg option" where
  "validateCommand command field =
     (if \<not> isAbs command then Some [FStr field, Lit '' must be an absolute path''] else None)"

text \<open>
  What \<open>url.Parse\<close> makes of a string, when \<open>parseHost\<close> gives the host of an authority without user
  information: the scheme, the host, the path, the query, the fragment, and whether there is
  user information.  A rootless path is opaque and has no host.  Where \<open>url.Parse\<close> fails on the
  path, on the user information or on a colon in the first segment, the model gives a URL that
  the caller refuses for its path, its user information or its scheme.
\<close>

record parsedURL =
  urlScheme :: string
  urlHost :: string
  urlPath :: string
  urlRawQuery :: string
  urlFragment :: string
  urlUser :: bool

definition isAlpha :: "char \<Rightarrow> bool" where
  "isAlpha c \<longleftrightarrow> (let n = of_char c :: nat in 97 \<le> n \<and> n \<le> 122 \<or> 65 \<le> n \<and> n \<le> 90)"

text \<open>\<open>getScheme\<close>, from the bytes of the scheme so far: None is its error.\<close>

fun getScheme :: "string \<Rightarrow> string \<Rightarrow> string \<Rightarrow> (string \<times> string) option" where
  "getScheme raw seen [] = Some ([], raw)"
| "getScheme raw seen (c # rest) =
     (if isAlpha c then getScheme raw (seen @ [c]) rest
      else if isDigit c \<or> c = CHR ''+'' \<or> c = CHR ''-'' \<or> c = CHR ''.''
      then if seen = [] then Some ([], raw) else getScheme raw (seen @ [c]) rest
      else if c = CHR '':'' then if seen = [] then None else Some (seen, rest)
      else Some ([], raw))"

definition cutOr :: "char \<Rightarrow> string \<Rightarrow> string \<times> string" where
  "cutOr sep s = (case cutAt sep s of None \<Rightarrow> (s, []) | Some r \<Rightarrow> r)"

text \<open>The path, the query and the fragment are compared with the empty string only, and
  unescaping keeps a nonempty string nonempty or fails: they are kept escaped here.\<close>

definition controlInURL :: "string \<Rightarrow> bool" where
  "controlInURL s \<longleftrightarrow> list_ex (\<lambda>c. (of_char c :: nat) < 0x20 \<or> c = CHR 0x7F) s"

definition originOf :: "(string \<Rightarrow> string option) \<Rightarrow> string \<Rightarrow> parsedURL option" where
  "originOf parseHost raw =
     (let (u, fragment) = cutOr CHR ''#'' raw
      in if controlInURL u then None
         else case getScheme u [] u of
           None \<Rightarrow> None
         | Some (scheme, rest0) \<Rightarrow>
             let (rest, query) =
                   (if hasSuffix rest0 ''?'' \<and> length (filter (\<lambda>c. c = CHR ''?'') rest0) = 1
                    then (butlast rest0, []) else cutOr CHR ''?'' rest0);
                 base = \<lparr>urlScheme = map lowerChar scheme, urlHost = [], urlPath = rest, urlRawQuery = query,
                         urlFragment = fragment, urlUser = False\<rparr>
             in if \<not> hasPrefix rest ''//'' then Some base
                else
                  let authority = takeWhile (\<lambda>c. c \<noteq> CHR ''/'') (drop 2 rest);
                      path = dropWhile (\<lambda>c. c \<noteq> CHR ''/'') (drop 2 rest)
                  in if CHR ''@'' \<in> set authority then Some (base\<lparr>urlUser := True, urlPath := path\<rparr>)
                     else case parseHost authority of
                       None \<Rightarrow> None
                     | Some host \<Rightarrow> Some (base\<lparr>urlHost := host, urlPath := path\<rparr>))"

definition badOrigin :: "(string \<Rightarrow> string option) \<Rightarrow> string \<Rightarrow> bool" where
  "badOrigin parseHost server =
     (case originOf parseHost server of
        None \<Rightarrow> True
      | Some u \<Rightarrow>
          urlScheme u \<noteq> ''https'' \<or> urlHost u = [] \<or> urlPath u \<noteq> [] \<or> urlRawQuery u \<noteq> [] \<or>
          urlFragment u \<noteq> [] \<or> urlUser u)"

definition validateKubernetes :: "(string \<Rightarrow> string option) \<Rightarrow> KubernetesConfig \<Rightarrow> msg option" where
  "validateKubernetes parseHost c =
     (if badOrigin parseHost (kcAPIServer c)
      then Some [Lit ''reporter.kubernetes.api_server must be an HTTPS origin without a path'']
      else if \<not> dnsLabel (kcNamespace c) \<or> \<not> dnsLabel (kcName c)
      then Some [Lit ''reporter.kubernetes namespace and name must be DNS labels'']
      else if \<not> isAbs (kcTokenFile c) \<or> \<not> isAbs (kcCAFile c)
      then Some [Lit ''reporter.kubernetes token_file and ca_file must be absolute'']
      else if kcTimeout c \<le> 0 then Some [Lit ''reporter.kubernetes.timeout must be positive'']
      else None)"

definition validateAgent :: "AgentConfig \<Rightarrow> msg option" where
  "validateAgent a =
     (if acSampleInterval a \<le> 0 then Some [Lit ''agent.sample_interval must be positive'']
      else if acHeartbeatInterval a < acSampleInterval a
      then Some [Lit ''agent.heartbeat_interval must be at least sample_interval'']
      else if acStaleAfter a < acSampleInterval a
      then Some [Lit ''agent.stale_after must be at least sample_interval'']
      else if dcGameSamples (acDebounce a) < 1 \<or> dcInteractiveSamples (acDebounce a) < 1 \<or>
              dcIdleSamples (acDebounce a) < 1
      then Some [Lit ''all agent.debounce sample counts must be at least one'']
      else if \<not> acFailClosed a then Some [Lit ''agent.fail_closed=false is not supported in phase 1'']
      else None)"

definition validateLogind :: "LogindConfig \<Rightarrow> msg option" where
  "validateLogind l =
     (case validateCommand (lcCommand l) ''signals.logind.command'' of
        Some err \<Rightarrow> Some err
      | None \<Rightarrow>
          if lcGraphicalTypes l = [] then Some [Lit ''signals.logind.graphical_types cannot be empty'']
          else if lcTimeout l \<le> 0 then Some [Lit ''signals.logind.timeout must be positive'']
          else None)"

definition badMatch :: "string \<Rightarrow> bool" where
  "badMatch value \<longleftrightarrow> value = [] \<or> length value > 256 \<or> CHR 0x00 \<in> set value"

definition validateGameProcess :: "GameProcessConfig \<Rightarrow> msg option" where
  "validateGameProcess g =
     (if \<not> isAbs (gcProcRoot g) then Some [Lit ''signals.game_process.proc_root must be absolute'']
      else if list_ex badMatch (gcNames g @ gcCommandLineContains g)
      then Some [Lit ''game process matches must be non-empty literals no longer than 256 bytes'']
      else None)"

definition validateNVIDIA :: "NVIDIAConfig \<Rightarrow> msg option" where
  "validateNVIDIA n =
     (case validateCommand (ncCommand n) ''signals.nvidia.command'' of
        Some err \<Rightarrow> Some err
      | None \<Rightarrow>
          if ncUtilizationFloor n < 1 \<or> ncUtilizationFloor n > 100
          then Some [Lit ''signals.nvidia.utilization_floor_percent must be between 1 and 100'']
          else if ncTimeout n \<le> 0 then Some [Lit ''signals.nvidia.timeout must be positive'']
          else None)"

text \<open>The first of the checks that complains.\<close>

fun firstError :: "msg option list \<Rightarrow> msg option" where
  "firstError [] = None"
| "firstError (None # rest) = firstError rest"
| "firstError (Some err # rest) = Some err"

definition validateConfig :: "(string \<Rightarrow> string option) \<Rightarrow> Config \<Rightarrow> msg option" where
  "validateConfig parseHost c =
     (let s = cfSignals c; r = cfReporter c
      in firstError
           [if scActivityMode s \<noteq> ''game'' \<and> scActivityMode s \<noteq> ''session''
            then Some [Lit ''signals.activity_mode must be game or session''] else None,
            validateAgent (cfAgent c),
            if scActivityMode s = ''session'' \<and> \<not> lcEnabled (scLogind s) \<and> \<not> gcEnabled (scGameProcess s) \<and>
               \<not> ncEnabled (scNVIDIA s)
            then Some [Lit ''at least one signal provider must be enabled''] else None,
            if lcEnabled (scLogind s) then validateLogind (scLogind s) else None,
            if gcEnabled (scGameProcess s) \<or> scActivityMode s = ''game''
            then validateGameProcess (scGameProcess s) else None,
            if ncEnabled (scNVIDIA s) then validateNVIDIA (scNVIDIA s) else None,
            if rcMode r = ''stdout'' then None
            else if rcMode r = ''kubernetes'' then validateKubernetes parseHost (rcKubernetes r)
            else Some [Lit ''reporter.mode must be stdout or kubernetes'']])"

definition loadConfig ::
    "(string \<Rightarrow> string option) \<Rightarrow> (Config \<Rightarrow> string \<Rightarrow> msg + Config) \<Rightarrow> msg + string \<Rightarrow> msg + Config" where
  "loadConfig parseHost decode file =
     (case file of
        Inl err \<Rightarrow> Inl ([Lit ''read configuration: ''] @ err)
      | Inr text \<Rightarrow>
          (case decode Defaults text of
             Inl err \<Rightarrow> Inl ([Lit ''decode configuration: ''] @ err)
           | Inr cfg \<Rightarrow> (case validateConfig parseHost cfg of Some err \<Rightarrow> Inl err | None \<Rightarrow> Inr cfg)))"

section \<open>Providers\<close>

text \<open>A configured provider; what it observes comes from the host at each sample.\<close>

datatype providerSpec =
    Logind LogindProvider
  | GameProcess ProcessProvider
  | NVIDIA NVIDIAProvider

fun providerName :: "providerSpec \<Rightarrow> string" where
  "providerName (Logind _) = ''logind''"
| "providerName (GameProcess _) = ''game-process''"
| "providerName (NVIDIA _) = ''nvidia''"

definition buildGameProcessProvider :: "Config \<Rightarrow> providerSpec" where
  "buildGameProcessProvider cfg =
     (let g = scGameProcess (cfSignals cfg)
      in GameProcess \<lparr>ppProcRoot = gcProcRoot g, ppNames = set (gcNames g),
                      ppCommandLineContains = gcCommandLineContains g\<rparr>)"

definition buildProviders :: "(string \<Rightarrow> string) \<Rightarrow> Config \<Rightarrow> providerSpec list" where
  "buildProviders uni cfg =
     (let s = cfSignals cfg
      in if scActivityMode s = ''game'' then [buildGameProcessProvider cfg]
         else
           (if lcEnabled (scLogind s)
            then [Logind \<lparr>lpCommand = lcCommand (scLogind s),
                          lpGraphicalTypes = toLower uni ` set (lcGraphicalTypes (scLogind s))\<rparr>] else []) @
           (if gcEnabled (scGameProcess s) then [buildGameProcessProvider cfg] else []) @
           (if ncEnabled (scNVIDIA s)
            then [NVIDIA \<lparr>nvCommand = ncCommand (scNVIDIA s),
                          nvUtilizationFloor = ncUtilizationFloor (scNVIDIA s)\<rparr>] else []))"

text \<open>The state of the host at a sample: what commands would print, and its processes.\<close>

record host =
  hoRun :: runner
  hoProc :: "msg + procEntry list"

fun observeWith :: "(string \<Rightarrow> string) \<Rightarrow> host \<Rightarrow> providerSpec \<Rightarrow> Provider" where
  "observeWith uni h (Logind p) =
     \<lparr>prvName = providerName (Logind p), prvObserve = logindObserve uni (hoRun h) p\<rparr>"
| "observeWith uni h (GameProcess p) =
     \<lparr>prvName = providerName (GameProcess p), prvObserve = processObserve uni p (hoProc h)\<rparr>"
| "observeWith uni h (NVIDIA p) =
     \<lparr>prvName = providerName (NVIDIA p), prvObserve = nvidiaObserve uni (hoRun h) p\<rparr>"

definition collectHost :: "(string \<Rightarrow> string) \<Rightarrow> host \<Rightarrow> providerSpec list \<Rightarrow> Observation list" where
  "collectHost uni h specs = Collect (map (observeWith uni h) specs)"

section \<open>Lemmas\<close>

lemma firstError_None: "firstError es = None \<longleftrightarrow> (\<forall>e \<in> set es. e = None)"
  by (induction es rule: firstError.induct) auto

lemma validateAgent_None:
  "validateAgent a = None \<longleftrightarrow>
     0 < acSampleInterval a \<and> acSampleInterval a \<le> acHeartbeatInterval a \<and>
     acSampleInterval a \<le> acStaleAfter a \<and> 1 \<le> dcGameSamples (acDebounce a) \<and>
     1 \<le> dcInteractiveSamples (acDebounce a) \<and> 1 \<le> dcIdleSamples (acDebounce a) \<and> acFailClosed a"
  by (auto simp: validateAgent_def)

lemma validateLogind_None:
  "validateLogind l = None \<longleftrightarrow> isAbs (lcCommand l) \<and> lcGraphicalTypes l \<noteq> [] \<and> 0 < lcTimeout l"
  by (auto simp: validateLogind_def validateCommand_def)

lemma validateGameProcess_None:
  "validateGameProcess g = None \<longleftrightarrow>
     isAbs (gcProcRoot g) \<and> (\<forall>v \<in> set (gcNames g @ gcCommandLineContains g). \<not> badMatch v)"
  by (auto simp: validateGameProcess_def list_ex_iff)

lemma validateNVIDIA_None:
  "validateNVIDIA n = None \<longleftrightarrow>
     isAbs (ncCommand n) \<and> 1 \<le> ncUtilizationFloor n \<and> ncUtilizationFloor n \<le> 100 \<and> 0 < ncTimeout n"
  by (auto simp: validateNVIDIA_def validateCommand_def)

lemma validateKubernetes_None:
  "validateKubernetes parseHost c = None \<longleftrightarrow>
     \<not> badOrigin parseHost (kcAPIServer c) \<and> dnsLabel (kcNamespace c) \<and> dnsLabel (kcName c) \<and>
     isAbs (kcTokenFile c) \<and> isAbs (kcCAFile c) \<and> 0 < kcTimeout c"
  by (auto simp: validateKubernetes_def)

lemma if_None_iff: "(if b then Some x else None) = None \<longleftrightarrow> \<not> b" "(if b then e else None) = None \<longleftrightarrow> (b \<longrightarrow> e = None)"
  by auto

lemma validateConfig_None:
  "validateConfig parseHost c = None \<longleftrightarrow>
     scActivityMode (cfSignals c) \<in> {''game'', ''session''} \<and>
     validateAgent (cfAgent c) = None \<and>
     (scActivityMode (cfSignals c) = ''session'' \<longrightarrow>
        lcEnabled (scLogind (cfSignals c)) \<or> gcEnabled (scGameProcess (cfSignals c)) \<or> ncEnabled (scNVIDIA (cfSignals c))) \<and>
     (lcEnabled (scLogind (cfSignals c)) \<longrightarrow> validateLogind (scLogind (cfSignals c)) = None) \<and>
     (gcEnabled (scGameProcess (cfSignals c)) \<or> scActivityMode (cfSignals c) = ''game'' \<longrightarrow>
        validateGameProcess (scGameProcess (cfSignals c)) = None) \<and>
     (ncEnabled (scNVIDIA (cfSignals c)) \<longrightarrow> validateNVIDIA (scNVIDIA (cfSignals c)) = None) \<and>
     (rcMode (cfReporter c) = ''stdout'' \<or>
      rcMode (cfReporter c) = ''kubernetes'' \<and> validateKubernetes parseHost (rcKubernetes (cfReporter c)) = None)"
proof -
  have r: "(if m = a then None else if m = b then e else Some x) = None \<longleftrightarrow> m = a \<or> m = b \<and> e = None"
    for m a b :: string and e :: "msg option" and x by auto
  show ?thesis
    unfolding validateConfig_def Let_def firstError_None list.set ball_simps if_None_iff r by blast
qed

lemma collectHost_providers: "map obProvider (collectHost uni h specs) = map providerName specs"
proof -
  have "obProvider (collectOne (observeWith uni h s)) = providerName s" for s
  proof (cases s)
    case (Logind p)
    then show ?thesis by (cases "logindObserve uni (hoRun h) p") (auto split: option.split)
  next
    case (GameProcess p)
    then show ?thesis by (cases "processObserve uni p (hoProc h)") (auto split: option.split)
  next
    case (NVIDIA p)
    then show ?thesis by (cases "nvidiaObserve uni (hoRun h) p") (auto split: option.split)
  qed
  then show ?thesis by (simp add: collectHost_def Collect_def comp_def)
qed

lemma buildProviders_names:
  "distinct (map providerName (buildProviders uni cfg))"
  by (simp add: buildProviders_def buildGameProcessProvider_def Let_def)

lemma buildProviders_nonempty:
  "validateConfig parseHost cfg = None \<Longrightarrow> buildProviders uni cfg \<noteq> []"
  unfolding validateConfig_None buildProviders_def Let_def by auto

end
