(* ===== verification/Reporter.thy ===== *)
theory Reporter
  imports Engine Config
begin

text \<open>
  \<open>internal/reporter\<close> and the loop of \<open>cmd/node-activity-reporter/main.go\<close>: the status patch, and
  when a sample is reported.  The token file, the JSON encoder and the HTTP client are
  parameters: each call's outcome is a value.
\<close>

section \<open>The Kubernetes reporter\<close>

definition endpointPath :: "KubernetesConfig \<Rightarrow> string" where
  "endpointPath cfg =
     ''/apis/'' @ apiGroup @ ''/'' @ apiVersion @ ''/namespaces/'' @ kcNamespace cfg @ ''/'' @ apiResource @
     ''/'' @ kcName cfg @ ''/status''"

record KubernetesReporter =
  krPath :: string
  krTokenFile :: string

definition NewKubernetesWithClient ::
    "(string \<Rightarrow> string option) \<Rightarrow> KubernetesConfig \<Rightarrow> bool \<Rightarrow> msg + KubernetesReporter" where
  "NewKubernetesWithClient parseHost cfg clientGiven =
     (case validateKubernetes parseHost cfg of
        Some err \<Rightarrow> Inl err
      | None \<Rightarrow>
          if \<not> clientGiven then Inl [Lit ''HTTP client is required'']
          else Inr \<lparr>krPath = endpointPath cfg, krTokenFile = kcTokenFile cfg\<rparr>)"

definition NewKubernetes ::
    "(string \<Rightarrow> string option) \<Rightarrow> msg + string \<Rightarrow> (string \<Rightarrow> bool) \<Rightarrow> KubernetesConfig \<Rightarrow> msg + KubernetesReporter"
where
  "NewKubernetes parseHost caFile appendCerts cfg =
     (case validateKubernetes parseHost cfg of
        Some err \<Rightarrow> Inl err
      | None \<Rightarrow>
          (case caFile of
             Inl err \<Rightarrow> Inl ([Lit ''read Kubernetes CA: ''] @ err)
           | Inr caData \<Rightarrow>
               if \<not> appendCerts caData then Inl [Lit ''Kubernetes CA file contains no certificates'']
               else NewKubernetesWithClient parseHost cfg True))"

record httpRequest =
  hrMethod :: string
  hrPath :: string
  hrHeaders :: "(string \<times> string) list"
  hrBody :: string

datatype httpResult =
    TransportError msg
  | Response int string string

definition statusRequest :: "KubernetesReporter \<Rightarrow> string \<Rightarrow> string \<Rightarrow> httpRequest" where
  "statusRequest r token payload =
     \<lparr>hrMethod = ''PATCH'', hrPath = krPath r,
      hrHeaders = [(''Authorization'', ''Bearer '' @ token), (''Accept'', ''application/json''),
                   (''Content-Type'', ''application/merge-patch+json''),
                   (''User-Agent'', ''interactive-node-controller-host-reporter/phase1'')],
      hrBody = payload\<rparr>"

text \<open>\<open>Report\<close>: the request it sent, if it got that far, and its error.\<close>

definition kubernetesReport ::
    "KubernetesReporter \<Rightarrow> msg + string \<Rightarrow> (NodeActivityStatus \<Rightarrow> msg + string) \<Rightarrow> msg option \<Rightarrow>
     (httpRequest \<Rightarrow> httpResult) \<Rightarrow> NodeActivityStatus \<Rightarrow> httpRequest option \<times> msg option" where
  "kubernetesReport r tokenFile marshal newRequestErr send status =
     (case tokenFile of
        Inl err \<Rightarrow> (None, Some ([Lit ''read reporter token: ''] @ err))
      | Inr token \<Rightarrow>
          if trimSpace token = [] then (None, Some [Lit ''reporter token is empty''])
          else case marshal status of
            Inl err \<Rightarrow> (None, Some ([Lit ''encode NodeActivity status patch: ''] @ err))
          | Inr payload \<Rightarrow>
              (case newRequestErr of
                 Some err \<Rightarrow> (None, Some ([Lit ''create NodeActivity request: ''] @ err))
               | None \<Rightarrow>
                   let request = statusRequest r (trimSpace token) payload
                   in (Some request,
                       case send request of
                         TransportError err \<Rightarrow> Some ([Lit ''patch NodeActivity status: ''] @ err)
                       | Response code statusText body \<Rightarrow>
                           if code < 200 \<or> code \<ge> 300
                           then Some [Lit ''patch NodeActivity status returned '', FStr statusText, Lit '': '',
                                      FStr (trimSpace (take 4096 body))]
                           else None)))"

section \<open>The report loop\<close>

record loopState =
  lsEvaluator :: Evaluator
  lsLastReport :: time
  lsLastGeneration :: int
  lsReported :: "NodeActivityStatus list"

definition loopStart :: "Evaluator \<Rightarrow> loopState" where
  "loopStart e = \<lparr>lsEvaluator = e, lsLastReport = 0, lsLastGeneration = 0, lsReported = []\<rparr>"

definition reportDue :: "duration \<Rightarrow> time \<Rightarrow> NodeActivityStatus \<Rightarrow> loopState \<Rightarrow> bool" where
  "reportDue heartbeat now status s \<longleftrightarrow>
     isZero (lsLastReport s) \<or> stGeneration status \<noteq> lsLastGeneration s \<or>
     timeSub now (lsLastReport s) \<ge> heartbeat"

text \<open>One turn of the loop; \<open>report\<close> is the error of the destination, if any.  The statuses the
  destination accepted are kept for the statements.\<close>

definition loopStep ::
    "duration \<Rightarrow> (NodeActivityStatus \<Rightarrow> msg option) \<Rightarrow> Observation list \<Rightarrow> time \<Rightarrow> loopState \<Rightarrow> loopState" where
  "loopStep heartbeat report obs now s0 =
     (let (status, e) = Next obs now (lsEvaluator s0);
          s = s0\<lparr>lsEvaluator := e\<rparr>
      in if reportDue heartbeat now status s
         then case report status of
             Some err \<Rightarrow> s
           | None \<Rightarrow> s\<lparr>lsLastReport := now, lsLastGeneration := stGeneration status,
                       lsReported := lsReported s @ [status]\<rparr>
         else s)"

record tick =
  tkObservations :: "Observation list"
  tkNow :: time
  tkReport :: "NodeActivityStatus \<Rightarrow> msg option"

definition runLoop :: "duration \<Rightarrow> tick list \<Rightarrow> loopState \<Rightarrow> loopState" where
  "runLoop heartbeat ticks s =
     fold (\<lambda>k. loopStep heartbeat (tkReport k) (tkObservations k) (tkNow k)) ticks s"

section \<open>Lemmas\<close>

text \<open>A DNS label holds no separator, so the path names one object of one namespace.\<close>

lemma dnsLabel_no_slash: "dnsLabel s \<Longrightarrow> CHR ''/'' \<notin> set s"
  by (auto simp: dnsLabel_def list_all_iff dnsByte_def Let_def)

lemma splitOn_joinWith:
  "ws \<noteq> [] \<Longrightarrow> \<forall>w \<in> set ws. sep \<notin> set w \<Longrightarrow> splitOn sep (joinWith [sep] ws) = ws"
proof (induction ws)
  case Nil
  then show ?case by simp
next
  case (Cons w ws)
  then show ?case by (cases "ws = []") (simp_all add: splitOn_none joinWith_Cons splitOn_first)
qed

lemma endpointPath_segments:
  assumes "dnsLabel (kcNamespace cfg)" "dnsLabel (kcName cfg)"
  shows "splitOn CHR ''/'' (endpointPath cfg) =
    [[], ''apis'', apiGroup, apiVersion, ''namespaces'', kcNamespace cfg, apiResource, kcName cfg, ''status'']"
    (is "_ = ?ws")
proof -
  have "endpointPath cfg = joinWith ''/'' ?ws" by (simp add: endpointPath_def)
  moreover have "\<forall>w \<in> set ?ws. CHR ''/'' \<notin> set w"
    using assms dnsLabel_no_slash by (simp add: apiGroup_def apiVersion_def apiResource_def)
  ultimately show ?thesis using splitOn_joinWith [of ?ws "CHR ''/''"] by simp
qed

text \<open>
  What the destination holds, after n samples: the last accepted status carries the last
  report's time and generation, and while the generation is the evaluator's it carries the
  evaluator's state and activity.
\<close>

definition reportInv :: "nat \<Rightarrow> time \<Rightarrow> loopState \<Rightarrow> bool" where
  "reportInv n t s \<longleftrightarrow>
     0 \<le> lsLastGeneration s \<and> lsLastGeneration s \<le> evGeneration (lsEvaluator s) \<and>
     evGeneration (lsEvaluator s) \<le> int n \<and> (0 < n \<longrightarrow> 0 < evGeneration (lsEvaluator s)) \<and>
     lsLastReport s \<le> t \<and>
     (lsReported s = [] \<longleftrightarrow> lsLastReport s = 0) \<and>
     (lsReported s \<noteq> [] \<longrightarrow>
        stHeartbeatAt (last (lsReported s)) = lsLastReport s \<and>
        stGeneration (last (lsReported s)) = lsLastGeneration s \<and> 0 < lsLastGeneration s \<and>
        (lsLastGeneration s = evGeneration (lsEvaluator s) \<longrightarrow>
           stState (last (lsReported s)) = evLastState (lsEvaluator s) \<and>
           stActivity (last (lsReported s)) = evLastActivity (lsEvaluator s)))"

lemma loopStart_inv: "reportInv 0 0 (loopStart (New staleAfter ds))"
  by (simp add: reportInv_def loopStart_def New_def)

lemma Next_generation_step:
  assumes "0 \<le> evGeneration e" "evGeneration e \<le> int n" "int n < maxInt64"
    and "0 < n \<longrightarrow> 0 < evGeneration e"
  shows "evGeneration (snd (Next obs now e)) =
     (if evGeneration e = 0 \<or> stState (fst (Next obs now e)) \<noteq> evLastState e \<or>
         stActivity (fst (Next obs now e)) \<noteq> evLastActivity e
      then evGeneration e + 1 else evGeneration e)"
proof -
  have "int64 (evGeneration e + 1)" using assms by (simp add: int64_bounds)
  then show ?thesis
    using Next_generation [of obs now e] by (simp add: Next_sel wrap64_id)
qed

lemma loopStep_inv:
  assumes inv: "reportInv n t s" and n: "int n < maxInt64" and now: "t \<le> now" "0 < now"
  shows "reportInv (Suc n) now (loopStep heartbeat report obs now s)"
proof -
  define status where "status = fst (Next obs now (lsEvaluator s))"
  define e where "e = snd (Next obs now (lsEvaluator s))"
  have gen: "evGeneration e =
     (if evGeneration (lsEvaluator s) = 0 \<or> stState status \<noteq> evLastState (lsEvaluator s) \<or>
         stActivity status \<noteq> evLastActivity (lsEvaluator s)
      then evGeneration (lsEvaluator s) + 1 else evGeneration (lsEvaluator s))"
    unfolding e_def status_def
    by (rule Next_generation_step [of _ n]) (use inv n in \<open>auto simp: reportInv_def\<close>)
  have st: "stGeneration status = evGeneration e" "stHeartbeatAt status = now"
    "evLastState e = stState status" "evLastActivity e = stActivity status"
    by (simp_all add: status_def e_def Next_sel(4,6))
  have step: "loopStep heartbeat report obs now s =
     (if reportDue heartbeat now status (s\<lparr>lsEvaluator := e\<rparr>)
      then case report status of
          Some err \<Rightarrow> s\<lparr>lsEvaluator := e\<rparr>
        | None \<Rightarrow> s\<lparr>lsEvaluator := e, lsLastReport := now, lsLastGeneration := stGeneration status,
                    lsReported := lsReported s @ [status]\<rparr>
      else s\<lparr>lsEvaluator := e\<rparr>)"
    by (simp add: loopStep_def status_def e_def split_beta Let_def split: option.split)
  have g0: "0 \<le> evGeneration (lsEvaluator s)" using inv by (simp add: reportInv_def)
  have keep: "reportInv (Suc n) now (s\<lparr>lsEvaluator := e\<rparr>)"
    using inv now gen st unfolding reportInv_def by (auto split: if_splits)
  have "reportInv (Suc n) now (s\<lparr>lsEvaluator := e, lsLastReport := now, lsLastGeneration := stGeneration status,
                    lsReported := lsReported s @ [status]\<rparr>)"
    using keep now gen st g0 unfolding reportInv_def by (auto split: if_splits)
  with keep show ?thesis unfolding step by (auto split: option.split)
qed

text \<open>A step whose report would be accepted leaves nothing unreported.\<close>

lemma loopStep_current:
  assumes inv: "reportInv n t s" and n: "int n < maxInt64" and now: "t \<le> now" "0 < now"
    and ok: "\<forall>st. report st = None" and hb: "0 < heartbeat" "int64 heartbeat"
  shows "let s' = loopStep heartbeat report obs now s; r = last (lsReported s')
         in lsReported s' \<noteq> [] \<and> stState r = evLastState (lsEvaluator s') \<and>
            stActivity r = evLastActivity (lsEvaluator s') \<and>
            stGeneration r = evGeneration (lsEvaluator s') \<and> now - stHeartbeatAt r < heartbeat"
proof -
  define s' where "s' = loopStep heartbeat report obs now s"
  have inv': "reportInv (Suc n) now s'" unfolding s'_def by (rule loopStep_inv [OF inv n now])
  define status where "status = fst (Next obs now (lsEvaluator s))"
  have st: "stGeneration status = evGeneration (snd (Next obs now (lsEvaluator s)))" "stHeartbeatAt status = now"
    by (simp_all add: status_def Next_sel)
  let ?s = "s\<lparr>lsEvaluator := snd (Next obs now (lsEvaluator s))\<rparr>"
  have "lsLastReport s' \<noteq> 0 \<and> lsLastGeneration s' = evGeneration (lsEvaluator s') \<and>
      now - lsLastReport s' < heartbeat"
  proof (cases "reportDue heartbeat now status ?s")
    case True
    then have "s' = ?s\<lparr>lsLastReport := now, lsLastGeneration := stGeneration status,
        lsReported := lsReported s @ [status]\<rparr>"
      using ok by (simp add: s'_def loopStep_def status_def split_beta Let_def)
    then show ?thesis using now hb st by simp
  next
    case False
    then have "s' = ?s"
      by (simp add: s'_def loopStep_def status_def split_beta Let_def)
    moreover have "timeSub now (lsLastReport s) < heartbeat \<longleftrightarrow> now - lsLastReport s < heartbeat"
      using hb by (intro timeSub_lt_iff) (auto simp: int64_bounds)
    ultimately show ?thesis
      using False st by (auto simp: reportDue_def isZero_def not_le)
  qed
  then show ?thesis
    using inv' unfolding reportInv_def Let_def s'_def [symmetric] by auto
qed

lemma runLoop_append: "runLoop hb (xs @ ys) s = runLoop hb ys (runLoop hb xs s)"
  by (simp add: runLoop_def)

fun ascendingTicks :: "time \<Rightarrow> tick list \<Rightarrow> bool" where
  "ascendingTicks t [] = True"
| "ascendingTicks t (k # ks) = (t \<le> tkNow k \<and> ascendingTicks (tkNow k) ks)"

lemma runLoop_inv:
  "reportInv n t s \<Longrightarrow> ascendingTicks t ks \<Longrightarrow> \<forall>k \<in> set ks. 0 < tkNow k \<Longrightarrow>
     int (n + length ks) \<le> maxInt64 \<Longrightarrow>
     reportInv (n + length ks) (if ks = [] then t else tkNow (last ks)) (runLoop hb ks s)"
proof (induction ks arbitrary: n t s)
  case Nil
  then show ?case by (simp add: runLoop_def)
next
  case (Cons k ks)
  have "reportInv (Suc n) (tkNow k) (loopStep hb (tkReport k) (tkObservations k) (tkNow k) s)"
    by (rule loopStep_inv [OF Cons.prems(1)]) (use Cons.prems in auto)
  from Cons.IH [OF this] show ?case
    using Cons.prems by (cases "ks = []") (simp_all add: runLoop_def)
qed

lemma ascendingTicks_last:
  "ascendingTicks t (ks @ [k]) \<Longrightarrow> ascendingTicks t ks \<and> (if ks = [] then t else tkNow (last ks)) \<le> tkNow k"
  by (induction ks arbitrary: t) auto

text \<open>The same after any run of the loop: what the destination holds is current and at most a heartbeat old.\<close>

lemma runLoop_current:
  assumes "ascendingTicks 0 (ticks @ [k])" "\<forall>x \<in> set (ticks @ [k]). 0 < tkNow x"
    and "int (length ticks) < maxInt64" "0 < heartbeat" "int64 heartbeat"
    and "\<forall>st. tkReport k st = None"
  shows "let s = runLoop heartbeat (ticks @ [k]) (loopStart (New staleAfter ds)); r = last (lsReported s)
         in lsReported s \<noteq> [] \<and> stState r = evLastState (lsEvaluator s) \<and>
            stActivity r = evLastActivity (lsEvaluator s) \<and>
            stGeneration r = evGeneration (lsEvaluator s) \<and> tkNow k - stHeartbeatAt r < heartbeat"
    and "let r = last (lsReported (runLoop heartbeat (ticks @ [k]) (loopStart (New staleAfter ds))))
         in stHeartbeatAt r \<noteq> 0 \<and> stHeartbeatAt r \<le> tkNow k"
proof -
  note asc = ascendingTicks_last [OF assms(1)]
  let ?s = "runLoop heartbeat ticks (loopStart (New staleAfter ds))"
  let ?s' = "runLoop heartbeat (ticks @ [k]) (loopStart (New staleAfter ds))"
  have inv: "reportInv (length ticks) (if ticks = [] then 0 else tkNow (last ticks)) ?s"
    using runLoop_inv [OF loopStart_inv [of staleAfter ds], of ticks heartbeat] asc assms(2,3) by auto
  have step: "?s' = loopStep heartbeat (tkReport k) (tkObservations k) (tkNow k) ?s"
    by (simp add: runLoop_def)
  show *: "let s = ?s'; r = last (lsReported s)
         in lsReported s \<noteq> [] \<and> stState r = evLastState (lsEvaluator s) \<and>
            stActivity r = evLastActivity (lsEvaluator s) \<and>
            stGeneration r = evGeneration (lsEvaluator s) \<and> tkNow k - stHeartbeatAt r < heartbeat"
    using loopStep_current [OF inv assms(3), of "tkNow k" "tkReport k" heartbeat "tkObservations k"] asc assms(2,4,5,6)
    unfolding step by simp
  have "reportInv (Suc (length ticks)) (tkNow k) ?s'"
    unfolding step by (rule loopStep_inv [OF inv assms(3)]) (use asc assms(2) in auto)
  then show "let r = last (lsReported ?s') in stHeartbeatAt r \<noteq> 0 \<and> stHeartbeatAt r \<le> tkNow k"
    using * by (auto simp: reportInv_def Let_def)
qed

lemma runLoop_evaluator:
  "lsEvaluator (runLoop heartbeat ticks s) = runNext (map (\<lambda>k. (tkObservations k, tkNow k)) ticks) (lsEvaluator s)"
proof (induction ticks arbitrary: s)
  case Nil
  then show ?case by (simp add: runLoop_def runNext_def)
next
  case (Cons k ticks)
  have "lsEvaluator (loopStep heartbeat report obs now s) = stepNext (obs, now) (lsEvaluator s)" for report obs now
    by (simp add: loopStep_def stepNext_def split_beta Let_def split: option.split)
  then show ?case using Cons by (simp add: runLoop_def runNext_def)
qed

section \<open>Starting the reporter\<close>

datatype destination =
    Stdout
  | Kubernetes KubernetesReporter

text \<open>\<open>JSONReporter.Report\<close>: the line it writes, or the encoder's error.\<close>

definition jsonReport :: "(NodeActivityStatus \<Rightarrow> msg + string) \<Rightarrow> NodeActivityStatus \<Rightarrow> string option \<times> msg option" where
  "jsonReport encode status =
     (case encode status of Inl err \<Rightarrow> (None, Some err) | Inr line \<Rightarrow> (Some (line @ [newline]), None))"

definition buildReporter ::
    "(string \<Rightarrow> string option) \<Rightarrow> msg + string \<Rightarrow> (string \<Rightarrow> bool) \<Rightarrow> Config \<Rightarrow> msg + destination" where
  "buildReporter parseHost caFile appendCerts cfg =
     (if rcMode (cfReporter cfg) = ''stdout'' then Inr Stdout
      else case NewKubernetes parseHost caFile appendCerts (rcKubernetes (cfReporter cfg)) of
        Inl err \<Rightarrow> Inl err
      | Inr r \<Rightarrow> Inr (Kubernetes r))"

definition providerNames :: "providerSpec list \<Rightarrow> string list" where
  "providerNames providers = map providerName providers"

definition debounceOf :: "Config \<Rightarrow> DebounceSamples" where
  "debounceOf cfg =
     \<lparr>dsGame = dcGameSamples (acDebounce (cfAgent cfg)),
      dsInteractive = dcInteractiveSamples (acDebounce (cfAgent cfg)),
      dsIdle = dcIdleSamples (acDebounce (cfAgent cfg))\<rparr>"

record running =
  ruConfig :: Config
  ruProviders :: "providerSpec list"
  ruDestination :: destination
  ruLoop :: loopState

text \<open>\<open>run\<close> after the flags: what the report loop starts with; None when only the configuration was checked.\<close>

definition startReporter ::
    "(string \<Rightarrow> string) \<Rightarrow> (string \<Rightarrow> string option) \<Rightarrow> (Config \<Rightarrow> string \<Rightarrow> msg + Config) \<Rightarrow>
     (string \<Rightarrow> bool) \<Rightarrow> msg + string \<Rightarrow> msg + string \<Rightarrow> bool \<Rightarrow> msg + running option" where
  "startReporter uni parseHost decode appendCerts configFile caFile check =
     (case loadConfig parseHost decode configFile of
        Inl err \<Rightarrow> Inl err
      | Inr cfg \<Rightarrow>
          if check then Inr None
          else case buildReporter parseHost caFile appendCerts cfg of
            Inl err \<Rightarrow> Inl err
          | Inr dest \<Rightarrow>
              Inr (Some \<lparr>ruConfig = cfg, ruProviders = buildProviders uni cfg, ruDestination = dest,
                         ruLoop = loopStart (New (acStaleAfter (cfAgent cfg)) (debounceOf cfg))\<rparr>))"

lemma loadConfig_valid: "loadConfig parseHost decode file = Inr cfg \<Longrightarrow> validateConfig parseHost cfg = None"
  by (auto simp: loadConfig_def split: sum.splits option.splits)

lemma NewKubernetes_path:
  "NewKubernetes parseHost caFile appendCerts cfg = Inr r \<Longrightarrow>
     validateKubernetes parseHost cfg = None \<and> r = \<lparr>krPath = endpointPath cfg, krTokenFile = kcTokenFile cfg\<rparr>"
  by (auto simp: NewKubernetes_def NewKubernetesWithClient_def split: option.splits sum.splits if_splits)

lemma startReporter_facts:
  assumes "startReporter uni parseHost decode appendCerts configFile caFile check = Inr (Some ru)"
  shows "validateConfig parseHost (ruConfig ru) = None"
    "ruProviders ru = buildProviders uni (ruConfig ru)"
    "ruLoop ru = loopStart (New (acStaleAfter (cfAgent (ruConfig ru))) (debounceOf (ruConfig ru)))"
    "ruDestination ru = Kubernetes r \<Longrightarrow>
       validateKubernetes parseHost (rcKubernetes (cfReporter (ruConfig ru))) = None \<and>
       krPath r = endpointPath (rcKubernetes (cfReporter (ruConfig ru)))"
  using assms loadConfig_valid [of parseHost decode configFile] NewKubernetes_path
  unfolding startReporter_def buildReporter_def
  by (force split: sum.splits if_splits)+

end
