(* ===== verification/HostProperties.thy ===== *)
theory HostProperties
  imports Reporter
begin

text \<open>
  The properties of the host reporter: what the providers, the aggregation, the evaluator, the
  configuration and the report loop promise, each with a concrete instance.
\<close>

section \<open>Observations\<close>

text \<open>
  One sample's candidate is a game when any provider sees a game, else interactive when any
  sees an interactive session, else idle when there are observations and all of them are idle;
  anything else, no provider, a failed one or an activity it does not know, is unknown.  The order of the
  providers does not matter.
\<close>
theorem aggregate_precedence:
  "fst (Aggregate obs) =
     (if ActivityGame \<in> obActivity ` set obs then ActivityGame
      else if ActivityInteractive \<in> obActivity ` set obs then ActivityInteractive
      else if obActivity ` set obs = {ActivityIdle} then ActivityIdle
      else ActivityUnknown)"
  unfolding Aggregate_activity verdictActivity_def ..

text \<open>
  C36: Logind is idle only on evidence: the provider reports idle exactly when listing the sessions
  worked and, for each listed session in turn, inspecting it worked and did not show an
  active, unlocked, non-idle session of a graphical type.
\<close>
theorem logind_idle_iff:
  "fst (logindObserve uni run p) = ActivityIdle \<longleftrightarrow>
     (\<exists>listing. run 0 (lpCommand p) [''list-sessions'', ''--no-legend'', ''--no-pager''] = Inr listing \<and>
        (\<forall>i < length (parseSessionIDs listing).
           \<exists>out. run (1 + i) (lpCommand p) (showSessionArgs (parseSessionIDs listing ! i)) = Inr out \<and>
                 \<not> interactiveSession uni p out))"
proof (cases "run 0 (lpCommand p) [''list-sessions'', ''--no-legend'', ''--no-pager'']")
  case (Inl err)
  then show ?thesis by (simp add: logindObserve_def)
next
  case (Inr listing)
  have "\<not> decides uni p r \<longleftrightarrow> (\<exists>out. r = Inr out \<and> \<not> interactiveSession uni p out)" for r
    by (cases r) (auto simp: decides_def)
  then show ?thesis
    using inspectSessions_idle [of uni run p 1 "parseSessionIDs listing"] Inr
    by (simp add: logindObserve_def)
qed

definition sampleSession :: "nat \<Rightarrow> string \<Rightarrow> string list \<Rightarrow> msg + string" where
  "sampleSession n command args =
     (if n = 0 then Inr (''2 1000 player seat0 tty2'' @ [newline])
      else Inr (''Active=yes'' @ [newline] @ ''Type=wayland'' @ [newline] @ ''IdleHint=yes'' @ [newline]
                @ ''LockedHint=no'' @ [newline]))"

lemma logind_idle_iff_witness:
  "fst (logindObserve id sampleSession \<lparr>lpCommand = ''/usr/bin/loginctl'', lpGraphicalTypes = {''wayland''}\<rparr>)
     = ActivityIdle"
proof -
  have s: "parseSessionIDs (''2 1000 player seat0 tty2'' @ [newline]) = [''2'']" by code_simp
  have i: "\<not> interactiveSession id \<lparr>lpCommand = ''/usr/bin/loginctl'', lpGraphicalTypes = {''wayland''}\<rparr>
      (''Active=yes'' @ [newline] @ ''Type=wayland'' @ [newline] @ ''IdleHint=yes'' @ [newline]
                @ ''LockedHint=no'' @ [newline])" by code_simp
  show ?thesis unfolding logind_idle_iff using s i by (simp add: sampleSession_def)
qed

text \<open>
  The game-process provider reports a game exactly when some process directory that could be read
  matches a configured name, a built-in pattern or a configured literal; with no match it is idle
  if some process could be read, and otherwise unknown, with an error.
\<close>
lemma game_process_verdict:
  "fst (processObserve uni p (Inr entries)) =
     (if list_ex (\<lambda>e. inspected e \<and> readable e \<and> gameMatch uni p e \<noteq> None) entries then ActivityGame
      else if list_ex (\<lambda>e. inspected e \<and> readable e) entries then ActivityIdle
      else ActivityUnknown) \<and>
   (snd (snd (processObserve uni p (Inr entries))) \<noteq> None \<longleftrightarrow>
      fst (processObserve uni p (Inr entries)) = ActivityUnknown)"
proof -
  have "fst (processObserve uni p (Inr entries)) =
     (if \<exists>e \<in> set entries. gameProcess uni p e then ActivityGame
      else if \<forall>e \<in> set entries. \<not> (inspected e \<and> readable e) then ActivityUnknown else ActivityIdle)"
    by (simp add: processObserve_def scanProcesses_activity)
  moreover have "snd (snd (processObserve uni p (Inr entries))) \<noteq> None \<longleftrightarrow>
      fst (processObserve uni p (Inr entries)) = ActivityUnknown"
    using scanProcesses_err [of 0 uni p entries] by (simp add: processObserve_def)
  ultimately show ?thesis
    unfolding list_ex_iff gameProcess_def [symmetric] by auto
qed

text \<open>
  C37: Parsing what nvidia-smi prints for a list of compute applications gives the list back, whatever
  commas and blanks their names hold.
\<close>
theorem compute_apps_roundtrip:
  assumes "\<forall>app \<in> set apps. printable app"
  shows "parseComputeApps uni (renderApps apps) = Inr apps"
  using assms by (rule parseComputeApps_render)

definition sampleApps :: "computeApp list" where
  "sampleApps = [\<lparr>caPID = 4242, caName = ''/opt/game, the sequel'', caMemory = 512\<rparr>,
                 \<lparr>caPID = 7, caName = ''train.py'', caMemory = 2048\<rparr>]"

lemma compute_apps_roundtrip_witness:
  "parseComputeApps id (renderApps sampleApps) = Inr sampleApps"
proof (rule compute_apps_roundtrip)
  have "list_all printable sampleApps" by code_simp
  then show "\<forall>app \<in> set sampleApps. printable app" by (simp add: list_all_iff)
qed

text \<open>
  The application named in the reason is the one with the most memory, then the lowest process
  id, then the first name, whatever order nvidia-smi listed them in.
\<close>
theorem compute_app_order_free:
  assumes "apps \<noteq> []" "set apps = set apps'"
  shows "fst (selectComputeApp apps) = fst (selectComputeApp apps') \<and>
         fst (selectComputeApp apps) \<in> set apps \<and>
         (\<forall>app \<in> set apps. \<not> betterComputeApp app (fst (selectComputeApp apps)))"
proof -
  have "apps' \<noteq> []" using assms by auto
  note picks = selectComputeApp_pick [OF assms(1)] selectComputeApp_pick [OF this]
  have "fst (selectComputeApp apps) = fst (selectComputeApp apps')"
    by (rule apps.pick_order_free [OF picks assms(2)]) (rule betterComputeApp_total)
  then show ?thesis using apps.pick_maximal(1,2) [OF picks(1)] by blast
qed

lemma compute_app_order_free_witness:
  "fst (selectComputeApp sampleApps) = fst (selectComputeApp (rev sampleApps))"
proof -
  have "sampleApps \<noteq> []" by (simp add: sampleApps_def)
  from compute_app_order_free [OF this, of "rev sampleApps"] show ?thesis by simp
qed

section \<open>Evaluator, configuration and reports\<close>

text \<open>
  C12: The debounced evaluator implements its specification on the history of samples: the state and
  the activity of every status are the ones of the latest candidate that had its required number
  of consecutive samples, and with the latest sample unknown they are unknown, stale once nothing has been
  known for the stale interval.
\<close>
theorem evaluator_refines_history:
  assumes "samplesOk ds" "\<forall>x \<in> set (xs @ [(obs, now)]). snd x \<noteq> 0"
  shows "stState (fst (Next obs now (runNext xs (New staleAfter ds)))) =
           specState staleAfter ds (historyOfSamples (xs @ [(obs, now)])) \<and>
         stActivity (fst (Next obs now (runNext xs (New staleAfter ds)))) =
           specActivity ds (historyOfSamples (xs @ [(obs, now)]))"
  using assms by (rule Next_refines)

definition seen :: "Activity \<Rightarrow> Observation list" where
  "seen act = [\<lparr>obProvider = ''test'', obActivity = act, obReason = [], obErr = None\<rparr>]"

lemma evaluator_refines_history_witness:
  "let ds = \<lparr>dsGame = 1, dsInteractive = 2, dsIdle = 3\<rparr>;
       xs = [(seen ActivityGame, 10), (seen ActivityIdle, 20), (seen ActivityIdle, 30)]
   in stActivity (fst (Next (seen ActivityIdle) 40 (runNext xs (New 60 ds)))) = ActivityIdle \<and>
      specActivity ds (historyOfSamples xs) = ActivityGame"
proof -
  let ?ds = "\<lparr>dsGame = 1, dsInteractive = 2, dsIdle = 3\<rparr>"
  let ?xs = "[(seen ActivityGame, 10), (seen ActivityIdle, 20), (seen ActivityIdle, 30)]"
  have "samplesOk ?ds" by (simp add: samplesOk_def int64_bounds)
  then have "stActivity (fst (Next (seen ActivityIdle) 40 (runNext ?xs (New 60 ?ds)))) =
      specActivity ?ds (historyOfSamples (?xs @ [(seen ActivityIdle, 40)]))"
    using evaluator_refines_history [of ?ds ?xs "seen ActivityIdle" 40 60] by simp
  moreover have "specActivity ?ds (historyOfSamples (?xs @ [(seen ActivityIdle, 40)])) = ActivityIdle"
    by code_simp
  moreover have "specActivity ?ds (historyOfSamples ?xs) = ActivityGame"
    by code_simp
  ultimately show ?thesis by simp
qed

text \<open>
  C40: A reporter that starts runs a valid configuration: it builds at least one provider, no two of one name, polls and
  reports at positive intervals, and requires at least one sample of every activity; the timeouts
  of the commands of an enabled logind or nvidia provider and of the connection to Kubernetes are positive.
\<close>
theorem valid_config_runs:
  assumes "startReporter uni parseHost decode appendCerts configFile caFile check = Inr (Some ru)"
  shows "ruProviders ru \<noteq> [] \<and> distinct (providerNames (ruProviders ru)) \<and>
         0 < acSampleInterval (cfAgent (ruConfig ru)) \<and> 0 < acHeartbeatInterval (cfAgent (ruConfig ru)) \<and>
         0 < acStaleAfter (cfAgent (ruConfig ru)) \<and>
         1 \<le> requiredSamples (evSamples (lsEvaluator (ruLoop ru))) act \<and>
         (lcEnabled (scLogind (cfSignals (ruConfig ru))) \<longrightarrow> 0 < lcTimeout (scLogind (cfSignals (ruConfig ru)))) \<and>
         (ncEnabled (scNVIDIA (cfSignals (ruConfig ru))) \<longrightarrow> 0 < ncTimeout (scNVIDIA (cfSignals (ruConfig ru)))) \<and>
         (\<forall>k. ruDestination ru = Kubernetes k \<longrightarrow> 0 < kcTimeout (rcKubernetes (cfReporter (ruConfig ru))))"
proof -
  note f = startReporter_facts [OF assms]
  have "validateAgent (cfAgent (ruConfig ru)) = None"
    "lcEnabled (scLogind (cfSignals (ruConfig ru))) \<Longrightarrow> validateLogind (scLogind (cfSignals (ruConfig ru))) = None"
    "ncEnabled (scNVIDIA (cfSignals (ruConfig ru))) \<Longrightarrow> validateNVIDIA (scNVIDIA (cfSignals (ruConfig ru))) = None"
    using f(1) unfolding validateConfig_None by blast+
  note checks = this [unfolded validateAgent_None validateLogind_None validateNVIDIA_None]
  have "0 < kcTimeout (rcKubernetes (cfReporter (ruConfig ru)))" if "ruDestination ru = Kubernetes k" for k
    using f(4) [OF that] unfolding validateKubernetes_None by blast
  then show ?thesis
    using checks buildProviders_nonempty [OF f(1), of uni] buildProviders_names [of uni "ruConfig ru"] f(2,3)
    by (simp add: providerNames_def requiredSamples_def debounceOf_def loopStart_def New_def)
qed

lemma valid_config_runs_witness:
  "providerNames (buildProviders id Defaults) = [''game-process''] \<and>
   1 \<le> requiredSamples (evSamples (lsEvaluator (loopStart (New (60 * second) (debounceOf Defaults))))) ActivityIdle"
proof -
  let ?ru = "\<lparr>ruConfig = Defaults, ruProviders = buildProviders id Defaults, ruDestination = Stdout,
      ruLoop = loopStart (New (acStaleAfter (cfAgent Defaults)) (debounceOf Defaults))\<rparr>"
  have v: "validateConfig (\<lambda>_. None) Defaults = None" by code_simp
  have "startReporter id (\<lambda>_. None) (\<lambda>cfg _. Inr cfg) (\<lambda>_. False) (Inr '''') (Inl []) False = Inr (Some ?ru)"
    unfolding startReporter_def loadConfig_def using v by (simp add: buildReporter_def Defaults_def)
  from valid_config_runs [OF this, of ActivityIdle] have "1 \<le> requiredSamples (evSamples (lsEvaluator (ruLoop ?ru))) ActivityIdle"
    by blast
  moreover have "providerNames (buildProviders id Defaults) = [''game-process'']" by code_simp
  ultimately show ?thesis by (simp add: Defaults_def)
qed

text \<open>
  C35: The Kubernetes reporter writes to one object: the path of the endpoint it was started with has exactly
  the segments of the status of the configured NodeActivity, so no configured name reaches another
  resource, and every request it sends is a PATCH of that path.
\<close>
theorem endpoint_confined:
  assumes "startReporter uni parseHost decode appendCerts configFile caFile check = Inr (Some ru)"
    and "ruDestination ru = Kubernetes r"
    and "fst (kubernetesReport r token marshal newRequestErr send status) = Some request"
  shows "splitOn CHR ''/'' (hrPath request) =
      [[], ''apis'', apiGroup, apiVersion, ''namespaces'', kcNamespace (rcKubernetes (cfReporter (ruConfig ru))),
       apiResource, kcName (rcKubernetes (cfReporter (ruConfig ru))), ''status''] \<and>
    hrMethod request = ''PATCH''"
proof -
  have k: "validateKubernetes parseHost (rcKubernetes (cfReporter (ruConfig ru))) = None"
    "krPath r = endpointPath (rcKubernetes (cfReporter (ruConfig ru)))"
    using startReporter_facts(4) [OF assms(1,2)] by blast+
  have "hrPath request = krPath r \<and> hrMethod request = ''PATCH''"
    using assms(3) unfolding kubernetesReport_def
    by (auto simp: statusRequest_def Let_def split: sum.splits if_splits option.splits)
  then show ?thesis
    using k endpointPath_segments unfolding validateKubernetes_None by simp
qed

definition sampleKubernetes :: KubernetesConfig where
  "sampleKubernetes =
     \<lparr>kcAPIServer = ''https://cluster.example:6443'', kcNamespace = ''nodes'', kcName = ''workstation-1'',
      kcTokenFile = ''/run/token'', kcCAFile = ''/run/ca.crt'', kcTimeout = 10 * second\<rparr>"

definition sampleConfig :: Config where
  "sampleConfig = Defaults\<lparr>cfReporter := \<lparr>rcMode = ''kubernetes'', rcKubernetes = sampleKubernetes\<rparr>\<rparr>"

lemma endpoint_confined_witness:
  "splitOn CHR ''/'' (endpointPath sampleKubernetes) =
     [[], ''apis'', apiGroup, apiVersion, ''namespaces'', ''nodes'', apiResource, ''workstation-1'', ''status'']"
proof -
  let ?r = "\<lparr>krPath = endpointPath sampleKubernetes, krTokenFile = ''/run/token''\<rparr>"
  let ?ru = "\<lparr>ruConfig = sampleConfig, ruProviders = buildProviders id sampleConfig, ruDestination = Kubernetes ?r,
      ruLoop = loopStart (New (acStaleAfter (cfAgent sampleConfig)) (debounceOf sampleConfig))\<rparr>"
  have v: "validateConfig Some sampleConfig = None" by code_simp
  have k: "NewKubernetes Some (Inr ''pem'') (\<lambda>_. True) sampleKubernetes = Inr ?r" by code_simp
  have ru: "startReporter id Some (\<lambda>_ _. Inr sampleConfig) (\<lambda>_. True) (Inr '''') (Inr ''pem'') False = Inr (Some ?ru)"
    unfolding startReporter_def loadConfig_def buildReporter_def using v k
    by (simp add: sampleConfig_def)
  have "fst (kubernetesReport ?r (Inr ''t'') (\<lambda>_. Inr ''{}'') None (\<lambda>_. TransportError []) s) =
      Some (statusRequest ?r ''t'' ''{}'')" for s
  proof -
    have "trimSpace ''t'' = ''t''" by code_simp
    then show ?thesis by (simp add: kubernetesReport_def Let_def)
  qed
  from endpoint_confined [OF ru _ this] show ?thesis
    by (simp add: statusRequest_def sampleConfig_def sampleKubernetes_def)
qed

text \<open>
  C34: The cluster never lags the host by more than a heartbeat: after any turn of the loop whose report
  would be accepted, whatever failed before, the last accepted status has the evaluator's present state,
  activity and generation, and its heartbeat is younger than the heartbeat interval.
\<close>
theorem reports_current:
  assumes "ascendingTicks 0 (ticks @ [k])" "\<forall>x \<in> set (ticks @ [k]). 0 < tkNow x"
    and "int (length ticks) < maxInt64" "0 < heartbeat" "int64 heartbeat"
    and "\<forall>st. tkReport k st = None"
  shows "let s = runLoop heartbeat (ticks @ [k]) (loopStart (New staleAfter ds)); r = last (lsReported s)
         in lsReported s \<noteq> [] \<and> stState r = evLastState (lsEvaluator s) \<and>
            stActivity r = evLastActivity (lsEvaluator s) \<and>
            stGeneration r = evGeneration (lsEvaluator s) \<and> tkNow k - stHeartbeatAt r < heartbeat"
  using assms by (rule runLoop_current(1))

definition sampleTick :: "Activity \<Rightarrow> time \<Rightarrow> bool \<Rightarrow> tick" where
  "sampleTick act now ok =
     \<lparr>tkObservations = seen act, tkNow = now, tkReport = (\<lambda>_. if ok then None else Some [Lit ''refused''])\<rparr>"

lemma reports_current_witness:
  "let s = runLoop 15 [sampleTick ActivityGame 10 True, sampleTick ActivityIdle 15 False, sampleTick ActivityIdle 20 True]
             (loopStart (New 60 \<lparr>dsGame = 1, dsInteractive = 2, dsIdle = 1\<rparr>))
   in stState (last (lsReported s)) = StateIdle"
proof -
  let ?ticks = "[sampleTick ActivityGame 10 True, sampleTick ActivityIdle 15 False]"
  let ?k = "sampleTick ActivityIdle 20 True"
  let ?start = "loopStart (New 60 \<lparr>dsGame = 1, dsInteractive = 2, dsIdle = 1\<rparr>)"
  have "stState (last (lsReported (runLoop 15 (?ticks @ [?k]) ?start))) =
      evLastState (lsEvaluator (runLoop 15 (?ticks @ [?k]) ?start))"
    using reports_current [of ?ticks ?k 15 60 "\<lparr>dsGame = 1, dsInteractive = 2, dsIdle = 1\<rparr>"]
    by (simp add: sampleTick_def int64_bounds maxInt64_def Let_def)
  moreover have "evLastState (lsEvaluator (runLoop 15 (?ticks @ [?k]) ?start)) = StateIdle"
    by code_simp
  ultimately show ?thesis by simp
qed

text \<open>
  The generation of a status moves by one exactly when its state or its activity differs from
  the status before it, and no status was observed after its own heartbeat.
\<close>
theorem generation_moves_with_state:
  assumes "timesBefore e t" "t \<le> t1" "t1 \<le> t2" "0 \<le> evGeneration e" "evGeneration e < maxInt64 - 1"
  shows "let (first, e1) = Next obs1 t1 e; (later, e2) = Next obs2 t2 e1
         in stGeneration later = stGeneration first +
              (if stState later = stState first \<and> stActivity later = stActivity first then 0 else 1) \<and>
            stObservedAt first \<le> stHeartbeatAt first \<and> stObservedAt later \<le> stHeartbeatAt later"
proof -
  define e1 where "e1 = snd (Next obs1 t1 e)"
  have b1: "timesBefore e1 t1" unfolding e1_def
    using timesBefore_Next [OF timesBefore_mono [OF assms(1,2)]] .
  have b2: "timesBefore (snd (Next obs2 t2 e1)) t2"
    using timesBefore_Next [OF timesBefore_mono [OF b1 assms(3)]] .
  have "int64 (evGeneration e + 1)" using assms(4,5) by (simp add: int64_bounds)
  then have g1: "0 < evGeneration e1" "evGeneration e1 \<le> evGeneration e + 1"
    using Next_generation [of obs1 t1 e] assms(4) unfolding e1_def Next_sel(4) [symmetric]
    by (auto simp: wrap64_id)
  have "int64 (evGeneration e1 + 1)" using g1 assms(5) by (simp add: int64_bounds)
  then have "stGeneration (fst (Next obs2 t2 e1)) = evGeneration e1 +
      (if stState (fst (Next obs2 t2 e1)) = evLastState e1 \<and> stActivity (fst (Next obs2 t2 e1)) = evLastActivity e1
       then 0 else 1)"
    using Next_generation [of obs2 t2 e1] g1(1) by (simp add: wrap64_id)
  then show ?thesis
    using b1 b2 unfolding e1_def by (simp add: split_beta Next_sel(4,5,6) timesBefore_def Let_def)
qed

lemma generation_moves_with_state_witness:
  "let (first, e1) = Next (seen ActivityGame) 10 (New 60 \<lparr>dsGame = 1, dsInteractive = 2, dsIdle = 3\<rparr>);
       (later, e2) = Next (seen ActivityIdle) 20 e1
   in stGeneration later = stGeneration first \<and> stActivity later = ActivityGame"
proof -
  let ?e = "New 60 \<lparr>dsGame = 1, dsInteractive = 2, dsIdle = 3\<rparr>"
  have "stActivity (fst (Next (seen ActivityIdle) 20 (snd (Next (seen ActivityGame) 10 ?e)))) = ActivityGame"
    "stState (fst (Next (seen ActivityIdle) 20 (snd (Next (seen ActivityGame) 10 ?e)))) = StateActive"
    "stActivity (fst (Next (seen ActivityGame) 10 ?e)) = ActivityGame"
    "stState (fst (Next (seen ActivityGame) 10 ?e)) = StateActive"
    by code_simp+
  then show ?thesis
    using generation_moves_with_state [of ?e 0 10 20 "seen ActivityGame" "seen ActivityIdle"]
    by (simp add: split_beta timesBefore_def New_def maxInt64_def)
qed

end
