(* ===== verification/Budget.thy ===== *)
theory Budget
  imports Prelude
begin

text \<open>
  \<open>internal/controller/eviction_budget.go\<close>: the token buckets that bound the Eviction API calls.
  A bucket's \<open>int\<close> and \<open>time.Duration\<close> fields are 64-bit; every product and sum of the source
  that can leave the range is wrapped.  The mutex makes \<open>tryTake\<close> one step: a run of the
  program is a sequence of such steps, from any goroutine.  A nil map entry or a nil global
  bucket is None.
\<close>

section \<open>Definitions\<close>

record EvictionBudget =
  ebPerNode :: int
  ebGlobal :: int
  ebInterval :: duration
  ebBurstPerNode :: int
  ebBurstGlobal :: int

definition normalizedBudget :: "EvictionBudget \<Rightarrow> int \<Rightarrow> duration \<Rightarrow> EvictionBudget" where
  "normalizedBudget b0 count interval =
     (let b1 = (if ebPerNode b0 \<le> 0 then b0\<lparr>ebPerNode := count\<rparr> else b0);
          b2 = (if ebGlobal b1 \<le> 0 then b1\<lparr>ebGlobal := ebPerNode b1\<rparr> else b1);
          b3 = (if ebInterval b2 \<le> 0 then b2\<lparr>ebInterval := interval\<rparr> else b2);
          b4 = (if ebBurstPerNode b3 \<le> 0 then b3\<lparr>ebBurstPerNode := ebPerNode b3\<rparr> else b3)
      in if ebBurstGlobal b4 \<le> 0 then b4\<lparr>ebBurstGlobal := ebGlobal b4\<rparr> else b4)"

record EvictionPolicy =
  epEnabled :: bool
  epAudit :: bool
  epProtectedNamespaces :: "string set"
  epMaxPerReconcile :: int
  epBudgetInterval :: duration
  epRetryBackoff :: duration
  epRetryJitter :: duration
  epEvictableLabel :: string
  epStandardBudget :: EvictionBudget
  epLossyBudget :: EvictionBudget

text \<open>\<open>bits.Mul64\<close> and \<open>bits.Div64\<close> on 64-bit unsigned values; the latter panics unless hi < y.\<close>

definition Mul64 :: "int \<Rightarrow> int \<Rightarrow> int \<times> int" where
  "Mul64 x y = (x * y div 18446744073709551616, x * y mod 18446744073709551616)"

definition Div64 :: "int \<Rightarrow> int \<Rightarrow> int \<Rightarrow> int \<times> int" where
  "Div64 hi lo y =
     ((hi * 18446744073709551616 + lo) div y, (hi * 18446744073709551616 + lo) mod y)"

definition mulDivFloor :: "int \<Rightarrow> int \<Rightarrow> int \<Rightarrow> int" where
  "mulDivFloor a b d =
     (if a \<le> 0 \<or> b \<le> 0 \<or> d \<le> 0 then 0
      else let (hi, lo) = Mul64 a b
           in if hi \<ge> d then maxInt64
              else let (q, _) = Div64 hi lo d in if q > maxInt64 then maxInt64 else q)"

definition tokensEarned :: "duration \<Rightarrow> int \<Rightarrow> duration \<Rightarrow> int \<Rightarrow> int" where
  "tokensEarned elapsed count interval limit =
     (if elapsed \<le> 0 \<or> count \<le> 0 \<or> interval \<le> 0 \<or> limit \<le> 0 then 0
      else let full = elapsed sdiv interval
           in if full \<ge> limit then limit
              else let earned0 = wrap64 (full * count)
                   in if earned0 \<ge> limit then limit
                      else let rem = elapsed smod interval;
                               earned = (if rem > 0 then wrap64 (earned0 + mulDivFloor rem count interval)
                                         else earned0)
                           in if earned > limit then limit else if earned < 0 then 0 else earned)"

record tokenBucket =
  tbTokens :: int
  tbResidue :: duration
  tbUpdated :: time
  tbCount :: int
  tbCapacity :: int
  tbInterval :: duration
  tbReady :: bool

definition zeroBucket :: tokenBucket where
  "zeroBucket =
     \<lparr>tbTokens = 0, tbResidue = 0, tbUpdated = 0, tbCount = 0, tbCapacity = 0, tbInterval = 0,
      tbReady = False\<rparr>"

definition configure :: "int \<Rightarrow> int \<Rightarrow> duration \<Rightarrow> tokenBucket \<Rightarrow> tokenBucket" where
  "configure count0 capacity0 interval0 tb =
     (let count = (if count0 < 1 then 1 else count0);
          capacity = (if capacity0 < 1 then 1 else capacity0);
          interval = (if interval0 \<le> 0 then minute else interval0)
      in if \<not> tbReady tb
         then tb\<lparr>tbCount := count, tbCapacity := capacity, tbInterval := interval,
                 tbTokens := capacity, tbReady := True\<rparr>
         else let tb1 = tb\<lparr>tbCount := count, tbInterval := interval, tbCapacity := capacity\<rparr>
              in if tbTokens tb1 > capacity then tb1\<lparr>tbTokens := capacity\<rparr> else tb1)"

definition refill :: "time \<Rightarrow> tokenBucket \<Rightarrow> tokenBucket" where
  "refill now tb =
     (if \<not> tbReady tb then tb
      else if isZero (tbUpdated tb) then tb\<lparr>tbUpdated := now, tbResidue := 0\<rparr>
      else if \<not> now > tbUpdated tb then tb
      else
        let elapsed = wrap64 (timeSub now (tbUpdated tb) + tbResidue tb);
            tb1 = tb\<lparr>tbUpdated := now\<rparr>;
            room = wrap64 (tbCapacity tb1 - tbTokens tb1)
        in if room \<le> 0 then tb1\<lparr>tbTokens := tbCapacity tb1, tbResidue := 0\<rparr>
           else
             let earned = tokensEarned elapsed (tbCount tb1) (tbInterval tb1) room
             in if earned \<le> 0 then tb1\<lparr>tbResidue := elapsed\<rparr>
                else
                  let tb2 = tb1\<lparr>tbTokens := wrap64 (tbTokens tb1 + earned)\<rparr>
                  in if earned \<ge> room then tb2\<lparr>tbResidue := 0\<rparr>
                     else
                       let consumed = mulDivFloor earned (tbInterval tb2) (tbCount tb2)
                       in if consumed < 0 \<or> consumed > elapsed then tb2\<lparr>tbResidue := 0\<rparr>
                          else tb2\<lparr>tbResidue := wrap64 (elapsed - consumed)\<rparr>)"

definition waitForOne :: "tokenBucket \<Rightarrow> duration" where
  "waitForOne tb =
     (if tbTokens tb \<ge> 1 \<or> tbCount tb < 1 \<or> tbInterval tb \<le> 0 then 0
      else let have' = wrap64 (tbResidue tb * tbCount tb);
               need = wrap64 (tbInterval tb - have')
           in if need \<le> 0 then nanosecond
              else let wait = wrap64 (wrap64 (need + tbCount tb) - 1) sdiv tbCount tb
                   in if wait < 1 then 1 else wait)"

record evictionBudgets =
  bgStandardNodes :: "string \<rightharpoonup> tokenBucket"
  bgLossyNodes :: "string \<rightharpoonup> tokenBucket"
  bgStandardGlobal :: "tokenBucket option"
  bgLossyGlobal :: "tokenBucket option"

definition noBudgets :: evictionBudgets where
  "noBudgets =
     \<lparr>bgStandardNodes = Map.empty, bgLossyNodes = Map.empty, bgStandardGlobal = None, bgLossyGlobal = None\<rparr>"

definition orZeroBucket :: "tokenBucket option \<Rightarrow> tokenBucket" where
  "orZeroBucket b = (case b of None \<Rightarrow> zeroBucket | Some tb \<Rightarrow> tb)"

definition nodeBucket :: "evictionBudgets \<Rightarrow> bool \<Rightarrow> string \<Rightarrow> tokenBucket" where
  "nodeBucket b lossy node = orZeroBucket ((if lossy then bgLossyNodes b else bgStandardNodes b) node)"

definition globalBucket :: "evictionBudgets \<Rightarrow> bool \<Rightarrow> tokenBucket" where
  "globalBucket b lossy = orZeroBucket (if lossy then bgLossyGlobal b else bgStandardGlobal b)"

text \<open>The two buckets are pointers in the source: \<open>tryTake\<close> writes through them.\<close>

definition storeBuckets ::
    "evictionBudgets \<Rightarrow> bool \<Rightarrow> string \<Rightarrow> tokenBucket \<Rightarrow> tokenBucket \<Rightarrow> evictionBudgets" where
  "storeBuckets b lossy node nb gb =
     (if lossy
      then b\<lparr>bgLossyNodes := (bgLossyNodes b)(node \<mapsto> nb), bgLossyGlobal := Some gb\<rparr>
      else b\<lparr>bgStandardNodes := (bgStandardNodes b)(node \<mapsto> nb), bgStandardGlobal := Some gb\<rparr>)"

definition budgetOf :: "EvictionPolicy \<Rightarrow> bool \<Rightarrow> EvictionBudget" where
  "budgetOf policy lossy = (if lossy then epLossyBudget policy else epStandardBudget policy)"

definition tryTake ::
    "bool \<Rightarrow> string \<Rightarrow> time \<Rightarrow> EvictionPolicy \<Rightarrow> evictionBudgets \<Rightarrow> bool \<times> duration \<times> evictionBudgets" where
  "tryTake lossy node now policy b =
     (let spec = budgetOf policy lossy;
          nb = refill now (configure (ebPerNode spec) (ebBurstPerNode spec) (ebInterval spec)
                             (nodeBucket b lossy node));
          gb = refill now (configure (ebGlobal spec) (ebBurstGlobal spec) (ebInterval spec)
                             (globalBucket b lossy))
      in if tbTokens nb < 1 \<or> tbTokens gb < 1
         then let wait0 = waitForOne nb;
                  wait1 = (if waitForOne gb > wait0 then waitForOne gb else wait0);
                  wait = (if wait1 \<le> 0 then nanosecond else wait1)
              in (False, wait, storeBuckets b lossy node nb gb)
         else (True, 0,
               storeBuckets b lossy node (nb\<lparr>tbTokens := tbTokens nb - 1\<rparr>) (gb\<lparr>tbTokens := tbTokens gb - 1\<rparr>)))"

section \<open>Arithmetic of the refill\<close>

lemma idiv_ge_iff: "0 < d \<Longrightarrow> c \<le> a div d \<longleftrightarrow> c * d \<le> a" for a c d :: int
proof
  assume d: "0 < d" and "c \<le> a div d"
  then have "c * d \<le> a div d * d" by simp
  also have "\<dots> \<le> a" using d by (simp add: minus_mod_eq_div_mult [symmetric])
  finally show "c * d \<le> a" .
next
  assume d: "0 < d" and "c * d \<le> a"
  then have "c * d div d \<le> a div d" by (intro zdiv_mono1)
  then show "c \<le> a div d" using d by simp
qed

lemma idiv_less_iff: "0 < d \<Longrightarrow> a div d < c \<longleftrightarrow> a < c * d" for a c d :: int
  using idiv_ge_iff [of d c a] by (simp add: not_le [symmetric])

text \<open>
  The quotient is exact, or saturates where it does not fit; \<open>bits.Div64\<close> is only called where
  it does not panic and its quotient fits.
\<close>

lemma mulDivFloor_Div64_safe:
  assumes "0 < a" "0 < b" "0 < d" "\<not> fst (Mul64 a b) \<ge> d"
  shows "fst (Mul64 a b) < d" "fst (Div64 (fst (Mul64 a b)) (snd (Mul64 a b)) d) < 18446744073709551616"
proof -
  show lt: "fst (Mul64 a b) < d" using assms(4) by simp
  have lo: "snd (Mul64 a b) < 18446744073709551616" by (simp add: Mul64_def)
  have "fst (Mul64 a b) * 18446744073709551616 + snd (Mul64 a b) < 18446744073709551616 * d"
    using lt lo by linarith
  then show "fst (Div64 (fst (Mul64 a b)) (snd (Mul64 a b)) d) < 18446744073709551616"
    unfolding Div64_def fst_conv using assms(3) by (simp add: idiv_less_iff)
qed

lemma mulDivFloor_exact:
  assumes "0 \<le> a" "0 \<le> b" "0 < d"
  shows "mulDivFloor a b d = min (a * b div d) maxInt64"
proof (cases "a = 0 \<or> b = 0")
  case True
  then show ?thesis by (auto simp: mulDivFloor_def maxInt64_def)
next
  case False
  then have pos: "0 < a" "0 < b" using assms by auto
  note recompose = div_mult_mod_eq [of "a * b" 18446744073709551616]
  show ?thesis
  proof (cases "a * b div 18446744073709551616 \<ge> d")
    case True
    then have "d * 18446744073709551616 \<le> a * b" by (simp add: idiv_ge_iff)
    then have "18446744073709551616 \<le> a * b div d"
      using assms(3) by (simp add: idiv_ge_iff mult.commute)
    then show ?thesis using True pos assms by (simp add: mulDivFloor_def Mul64_def Let_def maxInt64_def)
  next
    case False
    then show ?thesis
      using pos assms recompose by (simp add: mulDivFloor_def Mul64_def Div64_def Let_def)
  qed
qed

text \<open>
  The tokens earned are the whole tokens the elapsed time is worth, capped, as long as the
  products stay in range.
\<close>

lemma tokensEarned_exact:
  assumes "0 < count" "0 < interval" "0 < limit" "0 \<le> elapsed" "limit * count + count \<le> maxInt64"
  shows "tokensEarned elapsed count interval limit = min (elapsed * count div interval) limit"
proof (cases "elapsed = 0")
  case True
  then show ?thesis using assms by (simp add: tokensEarned_def)
next
  case False
  then have e: "0 < elapsed" using assms(4) by simp
  let ?full = "elapsed div interval" and ?rem = "elapsed mod interval"
  have el: "elapsed = ?full * interval + ?rem" by simp
  have f0: "0 \<le> ?full" and r: "0 \<le> ?rem" "?rem < interval"
    using e assms(2) by (simp_all add: pos_imp_zdiv_nonneg_iff)
  have split: "elapsed * count div interval = ?full * count + ?rem * count div interval"
  proof -
    have "elapsed * count = ?rem * count + ?full * count * interval"
      using el by (metis add.commute distrib_right mult.assoc mult.commute)
    then show ?thesis using assms(2) by simp
  qed
  have q0: "0 \<le> ?rem * count div interval" and q1: "?rem * count div interval < count"
    using r assms(1,2) by (simp_all add: pos_imp_zdiv_nonneg_iff idiv_less_iff mult_less_cancel_right mult.commute)
  have cm: "count \<le> maxInt64" using assms by (smt (verit) mult_pos_pos)
  have go: "elapsed sdiv interval = ?full" "elapsed smod interval = ?rem"
    using e assms(2) by (simp_all add: go_div)
  show ?thesis
  proof (cases "?full \<ge> limit")
    case True
    have "limit \<le> ?full * count" using True assms(1,3) by (smt (verit) mult_le_cancel_left1)
    then show ?thesis using True go e assms q0 split by (simp add: tokensEarned_def Let_def min_def)
  next
    case False
    then have "?full * count \<le> limit * count" using assms(1) by (simp add: mult_right_mono)
    then have bound: "?full * count + count \<le> maxInt64" using assms(5) by linarith
    have nn: "0 \<le> ?full * count" using f0 assms(1) by simp
    have w1: "wrap64 (?full * count) = ?full * count"
      using bound nn assms(1) by (intro wrap64_id) (simp add: int64_bounds)
    have m: "mulDivFloor ?rem count interval = ?rem * count div interval"
      using mulDivFloor_exact [of ?rem count interval] r assms(1,2) q1 cm by (simp add: min_def)
    have w2: "wrap64 (?full * count + ?rem * count div interval) = ?full * count + ?rem * count div interval"
      using bound nn q0 q1 assms(1) by (intro wrap64_id) (simp add: int64_bounds)
    show ?thesis
    proof (cases "?rem = 0")
      case True
      then show ?thesis
        unfolding split tokensEarned_def go using False e assms(1-3) w1 nn
        by (simp add: Let_def min_def)
    next
      case pos: False
      then have "0 < ?rem" using r(1) by simp
      then show ?thesis
        unfolding split tokensEarned_def go using False e assms(1-3) w1 w2 m q0 nn
        by (simp add: Let_def min_def)
    qed
  qed
qed

section \<open>One bucket\<close>

text \<open>
  The parameters of a bucket, and the range that keeps the source's products inside 64 bits.
  A token costs at least \<^verbatim>\<open>tokenPrice\<close> nanoseconds of refill.
\<close>

datatype meter = Meter (mCount: int) (mCapacity: int) (mInterval: duration)

definition meterOk :: "meter \<Rightarrow> bool" where
  "meterOk m \<longleftrightarrow>
     1 \<le> mCount m \<and> 1 \<le> mCapacity m \<and> 1 \<le> mInterval m \<and>
     mCapacity m * mCount m + mCount m \<le> maxInt64 \<and> mInterval m + mCount m \<le> maxInt64"

definition tokenPrice :: "meter \<Rightarrow> int" where
  "tokenPrice m = mInterval m div mCount m"

definition settled :: "meter \<Rightarrow> tokenBucket \<Rightarrow> bool" where
  "settled m tb \<longleftrightarrow>
     tbReady tb \<and> tbCount tb = mCount m \<and> tbCapacity tb = mCapacity m \<and> tbInterval tb = mInterval m \<and>
     0 \<le> tbTokens tb \<and> tbTokens tb \<le> mCapacity m \<and> minInt64 \<le> tbResidue tb \<and>
     tbResidue tb \<le> (if tbTokens tb = mCapacity m then 0 else tokenPrice m + 1)"

definition bucketOk :: "meter \<Rightarrow> tokenBucket \<Rightarrow> bool" where
  "bucketOk m tb \<longleftrightarrow> tb = zeroBucket \<or> settled m tb"

definition bucketCredit :: "meter \<Rightarrow> tokenBucket \<Rightarrow> int" where
  "bucketCredit m tb =
     (if tbReady tb then tbTokens tb * tokenPrice m + max (tbResidue tb) 0 else mCapacity m * tokenPrice m)"

lemma zeroBucket_sel [simp]:
  "tbTokens zeroBucket = 0" "tbResidue zeroBucket = 0" "tbUpdated zeroBucket = 0" "\<not> tbReady zeroBucket"
  by (simp_all add: zeroBucket_def)

lemma meterOk_facts:
  assumes "meterOk m"
  shows "0 < mCount m" "0 < mCapacity m" "0 < mInterval m" "0 \<le> tokenPrice m"
    "tokenPrice m * mCount m \<le> mInterval m" "mInterval m < (tokenPrice m + 1) * mCount m"
    "mCapacity m \<le> maxInt64"
proof -
  show c: "0 < mCount m" "0 < mCapacity m" "0 < mInterval m" using assms by (auto simp: meterOk_def)
  show "0 \<le> tokenPrice m" using c by (simp add: tokenPrice_def pos_imp_zdiv_nonneg_iff)
  show "tokenPrice m * mCount m \<le> mInterval m"
    using idiv_ge_iff [of "mCount m" "tokenPrice m" "mInterval m"] c by (simp add: tokenPrice_def)
  show "mInterval m < (tokenPrice m + 1) * mCount m"
    using idiv_less_iff [of "mCount m" "mInterval m" "tokenPrice m + 1"] c by (simp add: tokenPrice_def)
  have "mCapacity m * 1 \<le> mCapacity m * mCount m" using c by (intro mult_left_mono) auto
  then show "mCapacity m \<le> maxInt64" using assms c unfolding meterOk_def by linarith
qed

text \<open>A policy is fixed for the life of the process: configuring again changes nothing.\<close>

lemma configure_settled:
  assumes "meterOk m" "bucketOk m tb"
  shows "settled m (configure (mCount m) (mCapacity m) (mInterval m) tb)"
    and "tbUpdated (configure (mCount m) (mCapacity m) (mInterval m) tb) = tbUpdated tb"
    and "bucketCredit m (configure (mCount m) (mCapacity m) (mInterval m) tb) = bucketCredit m tb"
    and "settled m tb \<Longrightarrow> configure (mCount m) (mCapacity m) (mInterval m) tb = tb"
proof -
  note f = meterOk_facts [OF assms(1)]
  have id: "configure (mCount m) (mCapacity m) (mInterval m) tb = tb" if "settled m tb"
    using that f(1-3) by (cases tb) (simp add: configure_def settled_def Let_def)
  show "settled m tb \<Longrightarrow> configure (mCount m) (mCapacity m) (mInterval m) tb = tb" by (rule id)
  show "settled m (configure (mCount m) (mCapacity m) (mInterval m) tb)"
    "tbUpdated (configure (mCount m) (mCapacity m) (mInterval m) tb) = tbUpdated tb"
    "bucketCredit m (configure (mCount m) (mCapacity m) (mInterval m) tb) = bucketCredit m tb"
    using assms(2) f id
    by (auto simp: bucketOk_def configure_def settled_def bucketCredit_def minInt64_def Let_def)
qed

text \<open>What the elapsed time is worth, and what is left of it.\<close>

lemma refill_worth:
  assumes "meterOk m" "0 < e" "e \<le> maxInt64" "0 < room" "room \<le> mCapacity m"
  shows "tokensEarned e (mCount m) (mInterval m) room = min (e * mCount m div mInterval m) room"
proof (rule tokensEarned_exact)
  have "room * mCount m \<le> mCapacity m * mCount m"
    using meterOk_facts(1) [OF assms(1)] assms(5) by (simp add: mult_right_mono)
  then show "room * mCount m + mCount m \<le> maxInt64"
    using assms(1) unfolding meterOk_def by linarith
qed (use meterOk_facts [OF assms(1)] assms in auto)

lemma consumed_bounds:
  assumes "meterOk m" "0 < e" "e \<le> maxInt64" "earned = e * mCount m div mInterval m" "0 < earned"
  defines "consumed \<equiv> mulDivFloor earned (mInterval m) (mCount m)"
  shows "0 \<le> consumed" "consumed \<le> e" "earned * tokenPrice m \<le> consumed" "e - consumed \<le> tokenPrice m + 1"
proof -
  note f = meterOk_facts [OF assms(1)]
  let ?n = "mCount m" and ?i = "mInterval m"
  have lo: "earned * ?i \<le> e * ?n" using assms(4) f by (simp add: idiv_ge_iff [symmetric])
  have hi: "e * ?n < (earned + 1) * ?i" using idiv_less_iff [of ?i "e * ?n" "earned + 1"] assms(4) f by simp
  have ce: "earned * ?i div ?n \<le> e" using zdiv_mono1 [OF lo, of ?n] f by simp
  then have c: "consumed = earned * ?i div ?n"
    using mulDivFloor_exact [of earned ?i ?n] f assms(3,5) by (simp add: consumed_def)
  show "consumed \<le> e" using ce c by simp
  show "0 \<le> consumed" unfolding c using f assms(5) by (simp add: pos_imp_zdiv_nonneg_iff)
  have "earned * tokenPrice m * ?n \<le> earned * ?i" using f(5) assms(5) by (simp add: mult.assoc)
  then show "earned * tokenPrice m \<le> consumed" unfolding c using f by (simp add: idiv_ge_iff)
  have "earned * ?i < (consumed + 1) * ?n" using idiv_less_iff [of ?n "earned * ?i" "consumed + 1"] c f by simp
  then have "e * ?n < (consumed + 1) * ?n + ?i" using hi by (simp add: distrib_right)
  also have "\<dots> < (consumed + 1) * ?n + (tokenPrice m + 1) * ?n" using f(6) by simp
  also have "\<dots> = (consumed + tokenPrice m + 2) * ?n" by (simp add: distrib_right)
  finally have "e < consumed + tokenPrice m + 2" using f(1) by (simp add: mult_less_cancel_right)
  then show "e - consumed \<le> tokenPrice m + 1" by simp
qed

lemma unearned_residue:
  assumes "meterOk m" "e * mCount m div mInterval m \<le> 0"
  shows "e \<le> tokenPrice m"
proof -
  note f = meterOk_facts [OF assms(1)]
  have "e * mCount m < 1 * mInterval m" using idiv_less_iff [of "mInterval m" "e * mCount m" 1] assms f by simp
  also have "\<dots> < (tokenPrice m + 1) * mCount m" using f(6) by simp
  finally show ?thesis using f(1) by (simp add: mult_less_cancel_right)
qed

lemma refill_step:
  assumes m: "meterOk m" and s: "settled m tb" and u: "tbUpdated tb \<noteq> 0" "tbUpdated tb < now"
  defines "tb' \<equiv> refill now tb"
  shows "settled m tb'" "tbUpdated tb' = now" "tbTokens tb \<le> tbTokens tb'"
    "bucketCredit m tb' \<le> bucketCredit m tb + (now - tbUpdated tb)"
proof -
  note f = meterOk_facts [OF m]
  let ?e = "wrap64 (timeSub now (tbUpdated tb) + tbResidue tb)" and ?q = "tokenPrice m"
  let ?room = "mCapacity m - tbTokens tb"
  have st: "tbReady tb" "tbCount tb = mCount m" "tbCapacity tb = mCapacity m" "tbInterval tb = mInterval m"
    "0 \<le> tbTokens tb" "tbTokens tb \<le> mCapacity m" "minInt64 \<le> tbResidue tb"
    "tbResidue tb \<le> (if tbTokens tb = mCapacity m then 0 else ?q + 1)"
    using s by (simp_all add: settled_def)
  have rm: "wrap64 ?room = ?room" using st f by (intro wrap64_id) (simp add: int64_bounds)
  have ts: "0 \<le> timeSub now (tbUpdated tb)" "timeSub now (tbUpdated tb) \<le> now - tbUpdated tb"
    using u by (simp_all add: timeSub_nonneg_iff timeSub_le)
  have e64: "int64 ?e" by simp
  have e: "?e \<le> now - tbUpdated tb + max (tbResidue tb) 0" "minInt64 \<le> ?e" "?e \<le> maxInt64"
  proof -
    have "?e \<le> timeSub now (tbUpdated tb) + tbResidue tb"
      using ts st(7) by (simp add: wrap64_le minInt64_def)
    then show "?e \<le> now - tbUpdated tb + max (tbResidue tb) 0" using ts by simp
    show "minInt64 \<le> ?e" "?e \<le> maxInt64" using e64 by (simp_all add: int64_def)
  qed
  have unfold: "refill now tb =
    (let earned = tokensEarned ?e (mCount m) (mInterval m) ?room; tb1 = tb\<lparr>tbUpdated := now\<rparr>
     in if ?room \<le> 0 then tb1\<lparr>tbTokens := mCapacity m, tbResidue := 0\<rparr>
        else if earned \<le> 0 then tb1\<lparr>tbResidue := ?e\<rparr>
        else if earned \<ge> ?room then tb1\<lparr>tbTokens := wrap64 (tbTokens tb + earned), tbResidue := 0\<rparr>
        else let consumed = mulDivFloor earned (mInterval m) (mCount m)
             in tb1\<lparr>tbTokens := wrap64 (tbTokens tb + earned),
                  tbResidue := if consumed < 0 \<or> consumed > ?e then 0 else wrap64 (?e - consumed)\<rparr>)"
    using st u rm by (simp add: refill_def isZero_def Let_def)
  have cr: "bucketCredit m tb = tbTokens tb * ?q + max (tbResidue tb) 0"
    using st by (simp add: bucketCredit_def)
  have "settled m tb' \<and> tbUpdated tb' = now \<and> tbTokens tb \<le> tbTokens tb' \<and>
        bucketCredit m tb' \<le> bucketCredit m tb + (now - tbUpdated tb)"
  proof (cases "?room \<le> 0")
    case True
    then have "tb' = tb\<lparr>tbUpdated := now, tbTokens := mCapacity m, tbResidue := 0\<rparr>"
      unfolding tb'_def unfold by (simp add: Let_def)
    then show ?thesis
      using True st f u by (simp add: settled_def bucketCredit_def minInt64_def)
  next
    case room: False
    let ?worth = "?e * mCount m div mInterval m"
    show ?thesis
    proof (cases "?e \<le> 0 \<or> ?worth \<le> 0")
      case True
      have "tokensEarned ?e (mCount m) (mInterval m) ?room \<le> 0"
      proof (cases "?e \<le> 0")
        case True
        then show ?thesis by (simp add: tokensEarned_def)
      next
        case False
        with True have "?worth \<le> 0" by simp
        with refill_worth [OF m _ e(3), of ?room] False room st(5) show ?thesis by simp
      qed
      then have "tb' = tb\<lparr>tbUpdated := now, tbResidue := ?e\<rparr>"
        unfolding tb'_def unfold using room by (simp add: Let_def)
      moreover have "?e \<le> ?q + 1"
        using True unearned_residue [OF m, of ?e] f(4) by auto
      ultimately show ?thesis
        using room st e f u by (auto simp: settled_def cr bucketCredit_def)
    next
      case False
      then have e0: "0 < ?e" and w0: "0 < ?worth" by auto
      have earned: "tokensEarned ?e (mCount m) (mInterval m) ?room = min ?worth ?room"
        by (rule refill_worth [OF m e0 e(3)]) (use room st in auto)
      show ?thesis
      proof (cases "?room \<le> ?worth")
        case True
        have "wrap64 (mCapacity m) = mCapacity m" using f by (intro wrap64_id) (simp add: int64_bounds)
        then have tb': "tb' = tb\<lparr>tbUpdated := now, tbTokens := mCapacity m, tbResidue := 0\<rparr>"
          unfolding tb'_def unfold using room earned True by (simp add: Let_def min_def)
        have "?room * mInterval m \<le> ?e * mCount m" using True f by (simp add: idiv_ge_iff)
        moreover have "?room * ?q * mCount m \<le> ?room * mInterval m"
          using f(5) room by (simp add: mult.assoc)
        ultimately have "?room * ?q * mCount m \<le> ?e * mCount m" by linarith
        then have "?room * ?q \<le> ?e" using f(1) by (rule mult_right_le_imp_le)
        then have "mCapacity m * ?q \<le> tbTokens tb * ?q + ?e" by (simp add: left_diff_distrib)
        then show ?thesis
          using tb' st e f u by (simp add: settled_def cr bucketCredit_def minInt64_def)
      next
        case less: False
        note c = consumed_bounds [OF m e0 e(3) refl w0]
        let ?c = "mulDivFloor ?worth (mInterval m) (mCount m)"
        have w1: "wrap64 (tbTokens tb + ?worth) = tbTokens tb + ?worth"
          using w0 less st f by (intro wrap64_id) (simp add: int64_bounds)
        have w2: "wrap64 (?e - ?c) = ?e - ?c"
          using c e by (intro wrap64_id) (simp add: int64_bounds)
        have tb': "tb' = tb\<lparr>tbUpdated := now, tbTokens := tbTokens tb + ?worth, tbResidue := ?e - ?c\<rparr>"
          unfolding tb'_def unfold using room earned less w0 w1 w2 c(1,2)
          by (simp add: Let_def min_def)
        have "(tbTokens tb + ?worth) * ?q + (?e - ?c) \<le> tbTokens tb * ?q + ?e"
          using c(3) by (simp add: distrib_right)
        then show ?thesis
          using tb' st e f w0 less c by (simp add: settled_def cr bucketCredit_def minInt64_def)
      qed
    qed
  qed
  then show "settled m tb'" "tbUpdated tb' = now" "tbTokens tb \<le> tbTokens tb'"
    "bucketCredit m tb' \<le> bucketCredit m tb + (now - tbUpdated tb)" by auto
qed

text \<open>Configuring and refilling a bucket, whatever the clock does.\<close>

definition prepared :: "meter \<Rightarrow> time \<Rightarrow> tokenBucket \<Rightarrow> tokenBucket" where
  "prepared m now tb = refill now (configure (mCount m) (mCapacity m) (mInterval m) tb)"

definition seenAfter :: "time \<Rightarrow> time \<Rightarrow> time" where
  "seenAfter seen now = (if seen = 0 then now else max seen now)"

lemma prepared_step:
  assumes "meterOk m" "bucketOk m tb" "0 < now"
  shows "settled m (prepared m now tb)"
    and "tbUpdated (prepared m now tb) = seenAfter (tbUpdated tb) now"
    and "bucketCredit m (prepared m now tb) \<le>
           bucketCredit m tb + (if tbUpdated tb = 0 then 0 else seenAfter (tbUpdated tb) now - tbUpdated tb)"
proof -
  let ?c = "configure (mCount m) (mCapacity m) (mInterval m) tb"
  note c = configure_settled [OF assms(1,2)]
  note f = meterOk_facts [OF assms(1)]
  have rd: "tbReady ?c" using c(1) by (simp add: settled_def)
  have "settled m (prepared m now tb) \<and> tbUpdated (prepared m now tb) = seenAfter (tbUpdated tb) now \<and>
        bucketCredit m (prepared m now tb) \<le>
           bucketCredit m tb + (if tbUpdated tb = 0 then 0 else seenAfter (tbUpdated tb) now - tbUpdated tb)"
  proof (cases "tbUpdated tb = 0")
    case True
    then have "prepared m now tb = ?c\<lparr>tbUpdated := now, tbResidue := 0\<rparr>"
      using rd c(2) by (simp add: prepared_def refill_def isZero_def)
    moreover have "settled m (?c\<lparr>tbUpdated := now, tbResidue := 0\<rparr>)"
      using c(1) f by (simp add: settled_def minInt64_def)
    moreover have "bucketCredit m (?c\<lparr>tbUpdated := now, tbResidue := 0\<rparr>) \<le> bucketCredit m ?c"
      using rd by (simp add: bucketCredit_def)
    ultimately show ?thesis
      using True c(3) by (simp add: seenAfter_def)
  next
    case False
    show ?thesis
    proof (cases "tbUpdated tb < now")
      case True
      with False c(2) have "tbUpdated ?c \<noteq> 0" "tbUpdated ?c < now" by auto
      from refill_step [OF assms(1) c(1) this] show ?thesis
        using True False c(2,3) by (simp add: prepared_def seenAfter_def)
    next
      case old: False
      then have "prepared m now tb = ?c"
        using rd c(2) False by (simp add: prepared_def refill_def isZero_def)
      then show ?thesis using old False c by (simp add: seenAfter_def)
    qed
  qed
  then show "settled m (prepared m now tb)"
    and "tbUpdated (prepared m now tb) = seenAfter (tbUpdated tb) now"
    and "bucketCredit m (prepared m now tb) \<le>
           bucketCredit m tb + (if tbUpdated tb = 0 then 0 else seenAfter (tbUpdated tb) now - tbUpdated tb)"
    by auto
qed

text \<open>A settled bucket never holds more than its capacity and one token's rounding.\<close>

definition burstCredit :: "meter \<Rightarrow> int" where
  "burstCredit m = mCapacity m * tokenPrice m + 1"

lemma settled_credit:
  assumes "meterOk m" "settled m tb"
  shows "bucketCredit m tb \<le> burstCredit m" "0 \<le> bucketCredit m tb"
proof -
  note f = meterOk_facts [OF assms(1)]
  have st: "tbReady tb" "0 \<le> tbTokens tb" "tbTokens tb \<le> mCapacity m"
    "tbResidue tb \<le> (if tbTokens tb = mCapacity m then 0 else tokenPrice m + 1)"
    using assms(2) by (simp_all add: settled_def)
  show "0 \<le> bucketCredit m tb" using st f by (simp add: bucketCredit_def)
  show "bucketCredit m tb \<le> burstCredit m"
  proof (cases "tbTokens tb = mCapacity m")
    case True
    then show ?thesis using st by (simp add: bucketCredit_def burstCredit_def)
  next
    case False
    then have "(tbTokens tb + 1) * tokenPrice m \<le> mCapacity m * tokenPrice m"
      using st f by (intro mult_right_mono) auto
    then show ?thesis using False st f by (simp add: bucketCredit_def burstCredit_def distrib_right)
  qed
qed

text \<open>Spending a token costs one token price of credit.\<close>

lemma spend_settled:
  assumes "meterOk m" "settled m tb" "1 \<le> tbTokens tb"
  shows "settled m (tb\<lparr>tbTokens := tbTokens tb - 1\<rparr>)"
    and "bucketCredit m (tb\<lparr>tbTokens := tbTokens tb - 1\<rparr>) + tokenPrice m = bucketCredit m tb"
  using assms meterOk_facts(4) [OF assms(1)]
  by (auto simp: settled_def bucketCredit_def left_diff_distrib split: if_splits)

section \<open>Metered calls\<close>

text \<open>
  The interface between a rate limit and the calls it admits: every call gives the limiter an
  instant and is granted or refused; the limiter keeps a credit that grows at most with the time
  it has seen, is bounded, and pays for each granted call.  Calls it does not meter leave it
  alone.  The client's lemma bounds the granted calls of any sequence of calls, from any state
  the limiter can be in.
\<close>

fun grants :: "('c \<Rightarrow> 's \<Rightarrow> bool \<times> 's) \<Rightarrow> ('c \<Rightarrow> bool) \<Rightarrow> 'c list \<Rightarrow> 's \<Rightarrow> int \<times> 's" where
  "grants step mine [] s = (0, s)"
| "grants step mine (c # cs) s =
     (let (ok, s1) = step c s; (n, s2) = grants step mine cs s1
      in ((if ok \<and> mine c then n + 1 else n), s2))"

locale metered =
  fixes step :: "'c \<Rightarrow> 's \<Rightarrow> bool \<times> 's" and at :: "'c \<Rightarrow> time" and mine :: "'c \<Rightarrow> bool"
    and inv :: "'s \<Rightarrow> bool" and credit :: "'s \<Rightarrow> int" and seen :: "'s \<Rightarrow> time"
    and price :: int and burst :: int
  assumes credit_nonneg: "inv s \<Longrightarrow> 0 \<le> credit s"
    and burst_nonneg: "0 \<le> burst"
    and frame_inv: "inv s \<Longrightarrow> \<not> mine c \<Longrightarrow> inv (snd (step c s))"
    and frame_credit: "inv s \<Longrightarrow> \<not> mine c \<Longrightarrow> credit (snd (step c s)) = credit s"
    and frame_seen: "inv s \<Longrightarrow> \<not> mine c \<Longrightarrow> seen (snd (step c s)) = seen s"
    and take_inv: "inv s \<Longrightarrow> mine c \<Longrightarrow> 0 < at c \<Longrightarrow> inv (snd (step c s))"
    and take_seen: "inv s \<Longrightarrow> mine c \<Longrightarrow> 0 < at c \<Longrightarrow> seen (snd (step c s)) = seenAfter (seen s) (at c)"
    and take_cap: "inv s \<Longrightarrow> mine c \<Longrightarrow> 0 < at c \<Longrightarrow>
      credit (snd (step c s)) + (if fst (step c s) then price else 0) \<le> burst"
    and take_pays: "inv s \<Longrightarrow> mine c \<Longrightarrow> 0 < at c \<Longrightarrow> seen s \<noteq> 0 \<Longrightarrow>
      credit (snd (step c s)) + (if fst (step c s) then price else 0)
        \<le> credit s + (seenAfter (seen s) (at c) - seen s)"
begin

lemma grants_inv:
  "inv s \<Longrightarrow> \<forall>c \<in> set cs. mine c \<longrightarrow> 0 < at c \<Longrightarrow> inv (snd (grants step mine cs s))"
proof (induction cs arbitrary: s)
  case (Cons c cs)
  obtain ok s1 where st: "step c s = (ok, s1)" by fastforce
  have "inv s1" using Cons.prems take_inv [of s c] frame_inv [of s c] st by (cases "mine c") auto
  then have "inv (snd (grants step mine cs s1))" using Cons by simp
  then show ?case by (cases "grants step mine cs s1") (simp add: st)
qed simp

lemma grants_seen:
  "inv s \<Longrightarrow> 0 \<le> seen s \<Longrightarrow> \<forall>c \<in> set cs. mine c \<longrightarrow> 0 < at c \<Longrightarrow> 0 \<le> seen (snd (grants step mine cs s))"
proof (induction cs arbitrary: s)
  case (Cons c cs)
  obtain ok s1 where st: "step c s = (ok, s1)" by fastforce
  have "inv s1 \<and> 0 \<le> seen s1"
  proof (cases "mine c")
    case True
    with Cons.prems take_inv [of s c] take_seen [of s c] st show ?thesis by (auto simp: seenAfter_def)
  next
    case False
    with Cons.prems frame_inv [of s c] frame_seen [of s c] st show ?thesis by auto
  qed
  then have "0 \<le> seen (snd (grants step mine cs s1))" using Cons by simp
  then show ?case by (cases "grants step mine cs s1") (simp add: st)
qed simp

lemma grants_from_seen:
  "inv s \<Longrightarrow> 0 < seen s \<Longrightarrow> \<forall>c \<in> set cs. mine c \<longrightarrow> 0 < at c \<and> at c \<le> t \<Longrightarrow>
     fst (grants step mine cs s) * price \<le> credit s + (max (seen s) t - seen s)"
proof (induction cs arbitrary: s)
  case Nil
  then show ?case using credit_nonneg [of s] by simp
next
  case (Cons c cs)
  obtain ok s1 where st: "step c s = (ok, s1)" by fastforce
  show ?case
  proof (cases "mine c")
    case False
    then have "inv s1" "credit s1 = credit s" "seen s1 = seen s"
      using frame_inv [OF Cons.prems(1)] frame_credit [OF Cons.prems(1)] frame_seen [OF Cons.prems(1)] st
      by (metis snd_conv)+
    with Cons.IH [of s1] Cons.prems False show ?thesis
      by (auto simp: st split: prod.split)
  next
    case True
    have t: "0 < at c" "at c \<le> t" using Cons.prems(3) True by auto
    have s1: "inv s1" "seen s1 = max (seen s) (at c)"
      using take_inv [OF Cons.prems(1) True t(1)] take_seen [OF Cons.prems(1) True t(1)] st Cons.prems(2)
      by (auto simp: seenAfter_def)
    have pay: "credit s1 + (if ok then price else 0) \<le> credit s + (seen s1 - seen s)"
      using take_pays [OF Cons.prems(1) True t(1)] st Cons.prems(2) s1(2) by (auto simp: seenAfter_def)
    have "fst (grants step mine cs s1) * price \<le> credit s1 + (max (seen s1) t - seen s1)"
      using Cons.IH [OF s1(1)] s1(2) Cons.prems by auto
    with pay t s1(2) True show ?thesis
      by (auto simp: st distrib_right split: prod.split)
  qed
qed

lemma grants_bound:
  assumes "inv s" "0 \<le> seen s" "t0 \<le> t1" "0 < t0"
    and "\<forall>c \<in> set cs. mine c \<longrightarrow> t0 \<le> at c \<and> at c \<le> t1"
  shows "fst (grants step mine cs s) * price \<le> burst + (t1 - t0)"
  using assms
proof (induction cs arbitrary: s)
  case Nil
  then show ?case using burst_nonneg by simp
next
  case (Cons c cs)
  obtain ok s1 where st: "step c s = (ok, s1)" by fastforce
  show ?case
  proof (cases "mine c")
    case False
    then have "inv s1" "seen s1 = seen s"
      using frame_inv [OF Cons.prems(1)] frame_seen [OF Cons.prems(1)] st by (metis snd_conv)+
    with Cons.IH [of s1] Cons.prems False show ?thesis
      by (auto simp: st split: prod.split)
  next
    case True
    have t: "0 < at c" "t0 \<le> at c" "at c \<le> t1" using Cons.prems(4,5) True by auto
    have s1: "inv s1" "seen s1 = seenAfter (seen s) (at c)"
      "credit s1 + (if ok then price else 0) \<le> burst"
      using take_inv [OF Cons.prems(1) True t(1)] take_seen [OF Cons.prems(1) True t(1)]
        take_cap [OF Cons.prems(1) True t(1)] st by auto
    have sn: "at c \<le> seen s1" using s1(2) by (simp add: seenAfter_def)
    have "fst (grants step mine cs s1) * price \<le> credit s1 + (max (seen s1) t1 - seen s1)"
      by (rule grants_from_seen) (use s1 sn t Cons.prems in auto)
    moreover have "max (seen s1) t1 - seen s1 \<le> t1 - t0" using sn t by simp
    ultimately show ?thesis
      using s1(3) True by (auto simp: st distrib_right split: prod.split)
  qed
qed

end

section \<open>The budgets are metered\<close>

type_synonym takeCall = "bool \<times> string \<times> time"

definition takeStep :: "EvictionPolicy \<Rightarrow> takeCall \<Rightarrow> evictionBudgets \<Rightarrow> bool \<times> evictionBudgets" where
  "takeStep policy c b =
     (case c of (lossy, node, now) \<Rightarrow> (case tryTake lossy node now policy b of (ok, _, b') \<Rightarrow> (ok, b')))"

definition nodeMeter :: "EvictionBudget \<Rightarrow> meter" where
  "nodeMeter spec = Meter (ebPerNode spec) (ebBurstPerNode spec) (ebInterval spec)"

definition globalMeter :: "EvictionBudget \<Rightarrow> meter" where
  "globalMeter spec = Meter (ebGlobal spec) (ebBurstGlobal spec) (ebInterval spec)"

definition budgetOk :: "EvictionBudget \<Rightarrow> bool" where
  "budgetOk spec \<longleftrightarrow> meterOk (nodeMeter spec) \<and> meterOk (globalMeter spec)"

definition budgetsOk :: "EvictionPolicy \<Rightarrow> evictionBudgets \<Rightarrow> bool" where
  "budgetsOk policy b \<longleftrightarrow>
     (\<forall>lossy. bucketOk (globalMeter (budgetOf policy lossy)) (globalBucket b lossy) \<and>
        0 \<le> tbUpdated (globalBucket b lossy) \<and>
        (\<forall>node. bucketOk (nodeMeter (budgetOf policy lossy)) (nodeBucket b lossy node) \<and>
           0 \<le> tbUpdated (nodeBucket b lossy node)))"

definition policyBudgetsOk :: "EvictionPolicy \<Rightarrow> bool" where
  "policyBudgetsOk policy \<longleftrightarrow> budgetOk (epStandardBudget policy) \<and> budgetOk (epLossyBudget policy)"

lemma policyBudgetsOk_meters:
  "policyBudgetsOk policy \<Longrightarrow> meterOk (nodeMeter (budgetOf policy lossy)) \<and> meterOk (globalMeter (budgetOf policy lossy))"
  by (auto simp: policyBudgetsOk_def budgetOk_def budgetOf_def)

lemma storeBuckets_sel [simp]:
  "nodeBucket (storeBuckets b lossy node nb gb) lossy' node' =
     (if lossy' = lossy \<and> node' = node then nb else nodeBucket b lossy' node')"
  "globalBucket (storeBuckets b lossy node nb gb) lossy' = (if lossy' = lossy then gb else globalBucket b lossy')"
  by (auto simp: storeBuckets_def nodeBucket_def globalBucket_def orZeroBucket_def)

text \<open>One call, with its two buckets prepared.\<close>

lemma tryTake_prepared:
  fixes policy lossy
  defines "spec \<equiv> budgetOf policy lossy"
  shows "tryTake lossy node now policy b =
    (let nb = prepared (nodeMeter spec) now (nodeBucket b lossy node);
         gb = prepared (globalMeter spec) now (globalBucket b lossy)
     in if tbTokens nb < 1 \<or> tbTokens gb < 1
        then (False, max 1 (max (waitForOne nb) (waitForOne gb)), storeBuckets b lossy node nb gb)
        else (True, 0, storeBuckets b lossy node (nb\<lparr>tbTokens := tbTokens nb - 1\<rparr>) (gb\<lparr>tbTokens := tbTokens gb - 1\<rparr>)))"
  by (auto simp: tryTake_def prepared_def nodeMeter_def globalMeter_def Let_def nanosecond_def spec_def max_def)

text \<open>
  Whatever other calls are made in between, the calls for one node are metered by its bucket,
  and the calls for one class by the class's global bucket.
\<close>

definition takeAt :: "takeCall \<Rightarrow> time" where
  "takeAt c = snd (snd c)"

definition forNode :: "bool \<Rightarrow> string \<Rightarrow> takeCall \<Rightarrow> bool" where
  "forNode lossy node c \<longleftrightarrow> fst c = lossy \<and> fst (snd c) = node"

definition forClass :: "bool \<Rightarrow> takeCall \<Rightarrow> bool" where
  "forClass lossy c \<longleftrightarrow> fst c = lossy"

definition nodeInv :: "EvictionPolicy \<Rightarrow> bool \<Rightarrow> string \<Rightarrow> evictionBudgets \<Rightarrow> bool" where
  "nodeInv policy lossy node b \<longleftrightarrow>
     policyBudgetsOk policy \<and> bucketOk (nodeMeter (budgetOf policy lossy)) (nodeBucket b lossy node)"

definition globalInv :: "EvictionPolicy \<Rightarrow> bool \<Rightarrow> evictionBudgets \<Rightarrow> bool" where
  "globalInv policy lossy b \<longleftrightarrow>
     policyBudgetsOk policy \<and> bucketOk (globalMeter (budgetOf policy lossy)) (globalBucket b lossy)"

text \<open>What either bucket goes through in one call.\<close>

lemma bucket_call:
  assumes m: "meterOk m" and b: "bucketOk m tb" and now: "0 < now"
    and tb': "tb' = prepared m now tb \<and> \<not> ok \<or>
              tb' = (prepared m now tb)\<lparr>tbTokens := tbTokens (prepared m now tb) - 1\<rparr> \<and> 1 \<le> tbTokens (prepared m now tb)"
  shows "bucketOk m tb'" "tbUpdated tb' = seenAfter (tbUpdated tb) now"
    "bucketCredit m tb' + (if ok then tokenPrice m else 0) \<le> max 0 (burstCredit m)"
    "tbUpdated tb \<noteq> 0 \<Longrightarrow> bucketCredit m tb' + (if ok then tokenPrice m else 0) \<le>
       bucketCredit m tb + (seenAfter (tbUpdated tb) now - tbUpdated tb)"
proof -
  note p = prepared_step [OF m b now]
  note c = settled_credit [OF m p(1)]
  note f = meterOk_facts(4) [OF m]
  have *: "settled m tb' \<and> tbUpdated tb' = tbUpdated (prepared m now tb) \<and>
        bucketCredit m tb' + (if ok then tokenPrice m else 0) \<le> bucketCredit m (prepared m now tb)"
    using tb' p(1) spend_settled [OF m p(1)] f by auto
  show "bucketOk m tb'" using * by (simp add: bucketOk_def)
  show "tbUpdated tb' = seenAfter (tbUpdated tb) now" using * p(2) by simp
  show "bucketCredit m tb' + (if ok then tokenPrice m else 0) \<le> max 0 (burstCredit m)"
    using * c(1) by linarith
  show "bucketCredit m tb' + (if ok then tokenPrice m else 0) \<le>
       bucketCredit m tb + (seenAfter (tbUpdated tb) now - tbUpdated tb)" if "tbUpdated tb \<noteq> 0"
    using * p(3) that by simp
qed

lemma takeStep_node:
  fixes policy lossy node now b
  defines "m \<equiv> nodeMeter (budgetOf policy lossy)" and "r \<equiv> takeStep policy (lossy, node, now) b"
  shows "nodeBucket (snd r) lossy node = prepared m now (nodeBucket b lossy node) \<and> \<not> fst r \<or>
         nodeBucket (snd r) lossy node =
           (prepared m now (nodeBucket b lossy node))\<lparr>tbTokens := tbTokens (prepared m now (nodeBucket b lossy node)) - 1\<rparr> \<and>
         1 \<le> tbTokens (prepared m now (nodeBucket b lossy node))"
  by (auto simp: takeStep_def tryTake_prepared Let_def m_def r_def)

lemma takeStep_global:
  fixes policy lossy node now b
  defines "m \<equiv> globalMeter (budgetOf policy lossy)" and "r \<equiv> takeStep policy (lossy, node, now) b"
  shows "globalBucket (snd r) lossy = prepared m now (globalBucket b lossy) \<and> \<not> fst r \<or>
         globalBucket (snd r) lossy =
           (prepared m now (globalBucket b lossy))\<lparr>tbTokens := tbTokens (prepared m now (globalBucket b lossy)) - 1\<rparr> \<and>
         1 \<le> tbTokens (prepared m now (globalBucket b lossy))"
  by (auto simp: takeStep_def tryTake_prepared Let_def m_def r_def)

lemma takeStep_other [frame]:
  "\<not> forNode lossy node c \<Longrightarrow> nodeBucket (snd (takeStep policy c b)) lossy node = nodeBucket b lossy node"
  "\<not> forClass lossy c \<Longrightarrow> globalBucket (snd (takeStep policy c b)) lossy = globalBucket b lossy"
  by (cases c; auto simp: takeStep_def tryTake_prepared Let_def forNode_def forClass_def)+

lemma bucketOk_credit: "meterOk m \<Longrightarrow> bucketOk m tb \<Longrightarrow> 0 \<le> bucketCredit m tb"
  using settled_credit(2) [of m tb] meterOk_facts(2,4) [of m]
  by (cases "settled m tb") (simp_all add: bucketOk_def bucketCredit_def)

interpretation node_budget: metered "takeStep policy" takeAt "forNode lossy node" "nodeInv policy lossy node"
  "\<lambda>b. bucketCredit (nodeMeter (budgetOf policy lossy)) (nodeBucket b lossy node)"
  "\<lambda>b. tbUpdated (nodeBucket b lossy node)" "tokenPrice (nodeMeter (budgetOf policy lossy))"
  "max 0 (burstCredit (nodeMeter (budgetOf policy lossy)))" for policy lossy node
proof (unfold_locales, goal_cases)
  case (1 s)
  then show ?case by (auto simp: nodeInv_def policyBudgetsOk_meters intro: bucketOk_credit)
next
  case (6 s c)
  then show ?case using bucket_call(1) [OF _ _ _ takeStep_node]
    by (cases c) (auto simp: nodeInv_def policyBudgetsOk_meters forNode_def takeAt_def)
next
  case (7 s c)
  then show ?case using bucket_call(2) [OF _ _ _ takeStep_node]
    by (cases c) (auto simp: nodeInv_def policyBudgetsOk_meters forNode_def takeAt_def)
next
  case (8 s c)
  then show ?case using bucket_call(3) [OF _ _ _ takeStep_node]
    by (cases c) (auto simp: nodeInv_def policyBudgetsOk_meters forNode_def takeAt_def)
next
  case (9 s c)
  then show ?case using bucket_call(4) [OF _ _ _ takeStep_node]
    by (cases c) (auto simp: nodeInv_def policyBudgetsOk_meters forNode_def takeAt_def)
qed (auto simp: nodeInv_def frame)

interpretation global_budget: metered "takeStep policy" takeAt "forClass lossy" "globalInv policy lossy"
  "\<lambda>b. bucketCredit (globalMeter (budgetOf policy lossy)) (globalBucket b lossy)"
  "\<lambda>b. tbUpdated (globalBucket b lossy)" "tokenPrice (globalMeter (budgetOf policy lossy))"
  "max 0 (burstCredit (globalMeter (budgetOf policy lossy)))" for policy lossy
proof (unfold_locales, goal_cases)
  case (1 s)
  then show ?case by (auto simp: globalInv_def policyBudgetsOk_meters intro: bucketOk_credit)
next
  case (6 s c)
  then show ?case using bucket_call(1) [OF _ _ _ takeStep_global]
    by (cases c) (auto simp: globalInv_def policyBudgetsOk_meters forClass_def takeAt_def)
next
  case (7 s c)
  then show ?case using bucket_call(2) [OF _ _ _ takeStep_global]
    by (cases c) (auto simp: globalInv_def policyBudgetsOk_meters forClass_def takeAt_def)
next
  case (8 s c)
  then show ?case using bucket_call(3) [OF _ _ _ takeStep_global]
    by (cases c) (auto simp: globalInv_def policyBudgetsOk_meters forClass_def takeAt_def)
next
  case (9 s c)
  then show ?case using bucket_call(4) [OF _ _ _ takeStep_global]
    by (cases c) (auto simp: globalInv_def policyBudgetsOk_meters forClass_def takeAt_def)
qed (auto simp: globalInv_def frame)

section \<open>The wait is exact\<close>

lemma refill_tokens:
  assumes m: "meterOk m" and s: "settled m tb" and u: "tbUpdated tb \<noteq> 0" "tbUpdated tb < now"
    and r: "0 \<le> tbResidue tb" "now - tbUpdated tb + tbResidue tb \<le> maxInt64"
  shows "tbTokens (refill now tb) =
    min (mCapacity m) (tbTokens tb + (now - tbUpdated tb + tbResidue tb) * mCount m div mInterval m)"
proof -
  note f = meterOk_facts [OF m]
  let ?e = "now - tbUpdated tb + tbResidue tb" and ?room = "mCapacity m - tbTokens tb"
  have st: "tbReady tb" "tbCount tb = mCount m" "tbCapacity tb = mCapacity m" "tbInterval tb = mInterval m"
    "0 \<le> tbTokens tb" "tbTokens tb \<le> mCapacity m"
    using s by (simp_all add: settled_def)
  have w: "wrap64 ?room = ?room" using st f by (intro wrap64_id) (simp add: int64_bounds)
  have "timeSub now (tbUpdated tb) = now - tbUpdated tb"
    using u r by (intro timeSub_exact) (simp add: int64_bounds)
  then have el: "wrap64 (timeSub now (tbUpdated tb) + tbResidue tb) = ?e"
    using u r by (simp add: wrap64_id int64_bounds)
  have worth: "0 \<le> ?e * mCount m div mInterval m"
    using u r f by (simp add: pos_imp_zdiv_nonneg_iff)
  show ?thesis
  proof (cases "?room \<le> 0")
    case True
    then show ?thesis using st u w worth by (simp add: refill_def isZero_def Let_def)
  next
    case False
    have earned: "tokensEarned ?e (mCount m) (mInterval m) ?room = min (?e * mCount m div mInterval m) ?room"
      by (rule refill_worth [OF m]) (use u r False st in auto)
    have cap: "wrap64 (tbTokens tb + x) = tbTokens tb + x" if "0 \<le> x" "x \<le> ?room" for x
      using that st f by (intro wrap64_id) (simp add: int64_bounds)
    show ?thesis
      using st u w el False earned worth cap [of "min (?e * mCount m div mInterval m) ?room"]
      by (auto simp: refill_def isZero_def Let_def min_def)
  qed
qed

lemma waitForOne_exact:
  assumes m: "meterOk m" and s: "settled m tb" and t: "tbTokens tb < 1" and r: "0 \<le> tbResidue tb"
  shows "1 \<le> waitForOne tb" "1 \<le> d \<Longrightarrow> waitForOne tb \<le> d \<longleftrightarrow> mInterval m \<le> (tbResidue tb + d) * mCount m"
proof -
  note f = meterOk_facts [OF m]
  let ?n = "mCount m" and ?i = "mInterval m" and ?h = "tbResidue tb * mCount m"
  have st: "tbCount tb = ?n" "tbInterval tb = ?i" "tbResidue tb \<le> tokenPrice m + 1" "tbTokens tb = 0"
    using s t f(4) by (auto simp: settled_def split: if_splits)
  have mx: "?i + ?n \<le> maxInt64" using m by (simp add: meterOk_def)
  have h: "0 \<le> ?h" "?h \<le> ?i + ?n"
  proof -
    show "0 \<le> ?h" using r f(1) by simp
    have "?h \<le> (tokenPrice m + 1) * ?n" using st(3) f(1) by (intro mult_right_mono) auto
    then show "?h \<le> ?i + ?n" using f(5) by (simp add: distrib_right)
  qed
  have wr: "wrap64 ?h = ?h" "wrap64 (?i - ?h) = ?i - ?h"
    "0 < ?i - ?h \<Longrightarrow> wrap64 (wrap64 (?i - ?h + ?n) - 1) = ?i - ?h + ?n - 1"
    using h mx f by (simp_all add: wrap64_id int64_bounds)
  have need: "waitForOne tb \<le> d \<longleftrightarrow> ?i - ?h \<le> d * ?n" "1 \<le> waitForOne tb" if "1 \<le> d" for d
  proof -
    have dn: "0 \<le> d * ?n" using that f(1) by simp
    have "waitForOne tb \<le> d \<longleftrightarrow> ?i - ?h \<le> d * ?n \<and> 1 \<le> waitForOne tb"
    proof (cases "0 < ?i - ?h")
      case False
      then have "waitForOne tb = 1" using st wr f by (simp add: waitForOne_def Let_def nanosecond_def)
      then show ?thesis using False that dn by simp
    next
      case True
      have g: "(?i - ?h + ?n - 1) sdiv ?n = (?i - ?h + ?n - 1) div ?n" using True f(1) by (simp add: go_div)
      have one: "1 \<le> (?i - ?h + ?n - 1) div ?n" using True f(1) by (simp add: idiv_ge_iff)
      have "waitForOne tb = (?i - ?h + ?n - 1) div ?n"
        using True st wr f one g by (simp add: waitForOne_def Let_def)
      moreover have "(?i - ?h + ?n - 1) div ?n < d + 1 \<longleftrightarrow> ?i - ?h + ?n - 1 < (d + 1) * ?n"
        using f(1) by (rule idiv_less_iff)
      ultimately show ?thesis using one by (simp add: distrib_right) linarith
    qed
    moreover have "1 \<le> waitForOne tb"
      using st wr f by (auto simp: waitForOne_def Let_def nanosecond_def)
    ultimately show "waitForOne tb \<le> d \<longleftrightarrow> ?i - ?h \<le> d * ?n" "1 \<le> waitForOne tb" by auto
  qed
  show "1 \<le> waitForOne tb" by (rule need(2) [of 1]) simp
  show "waitForOne tb \<le> d \<longleftrightarrow> ?i \<le> (tbResidue tb + d) * ?n" if "1 \<le> d"
    using need(1) [OF that] by (auto simp: distrib_right)
qed

text \<open>A bucket that was short has a token again exactly when its wait is over.\<close>

lemma wait_then_token:
  assumes m: "meterOk m" and s: "settled m tb" and r: "0 \<le> tbResidue tb"
    and u: "tbUpdated tb = now" "now \<noteq> 0" and d: "1 \<le> d" "d + tbResidue tb \<le> maxInt64"
  shows "1 \<le> tbTokens (prepared m (now + d) tb) \<longleftrightarrow> waitForOne tb \<le> d"
proof -
  note f = meterOk_facts [OF m]
  have cfg: "configure (mCount m) (mCapacity m) (mInterval m) tb = tb"
    using configure_settled(4) [OF m _ s] s by (simp add: bucketOk_def)
  have uu: "tbUpdated tb \<noteq> 0" "tbUpdated tb < now + d" using u d by auto
  show ?thesis
  proof (cases "tbTokens tb < 1")
    case t: True
    have "tbTokens (refill (now + d) tb) = min (mCapacity m) (0 + (d + tbResidue tb) * mCount m div mInterval m)"
      using refill_tokens [OF m s, of "now + d"] u d r t s by (auto simp: settled_def)
    moreover have "1 \<le> (d + tbResidue tb) * mCount m div mInterval m \<longleftrightarrow>
        mInterval m \<le> (tbResidue tb + d) * mCount m"
      using idiv_ge_iff [OF f(3), of 1 "(d + tbResidue tb) * mCount m"] by (simp add: add.commute)
    ultimately show ?thesis using waitForOne_exact(2) [OF m s t r d(1)] f(2) by (simp add: prepared_def cfg)
  next
    case False
    with refill_step(3) [OF m s uu] d(1) show ?thesis by (simp add: prepared_def cfg waitForOne_def)
  qed
qed

text \<open>
  A bucket is on time when it was last refilled between the start of the process and now, and
  holds no debt.  It stays so while the clock does not go back and less than the longest
  \<open>time.Duration\<close> has passed.
\<close>

definition onTime :: "time \<Rightarrow> time \<Rightarrow> tokenBucket \<Rightarrow> bool" where
  "onTime t0 now tb \<longleftrightarrow> tb = zeroBucket \<or> (t0 \<le> tbUpdated tb \<and> tbUpdated tb \<le> now \<and> 0 \<le> tbResidue tb)"

lemma refill_residue:
  assumes "tbUpdated tb < now" "0 \<le> tbResidue tb" "now - tbUpdated tb + tbResidue tb \<le> maxInt64"
  shows "0 \<le> tbResidue (refill now tb)"
proof -
  have "timeSub now (tbUpdated tb) = now - tbUpdated tb"
    using assms by (intro timeSub_exact) (simp add: int64_bounds)
  then have "wrap64 (timeSub now (tbUpdated tb) + tbResidue tb) = now - tbUpdated tb + tbResidue tb"
    using assms by (simp add: wrap64_id int64_bounds)
  moreover have "0 \<le> wrap64 (now - tbUpdated tb + tbResidue tb - c)"
    if "\<not> c < 0" "\<not> c > now - tbUpdated tb + tbResidue tb" for c
    using that assms by (subst wrap64_id) (auto simp: int64_bounds)
  ultimately show ?thesis
    using assms by (simp add: refill_def Let_def)
qed

lemma prepared_onTime:
  assumes m: "meterOk m" and b: "bucketOk m tb" and o: "onTime t0 t tb" "0 < t0" "t0 \<le> now" "t \<le> now"
    and h: "now - t0 + mInterval m + 1 \<le> maxInt64"
  shows "onTime t0 now (prepared m now tb)" "tbUpdated (prepared m now tb) = now"
    "tbResidue (prepared m now tb) \<le> mInterval m + 1" "0 \<le> tbResidue (prepared m now tb)"
proof -
  let ?c = "configure (mCount m) (mCapacity m) (mInterval m) tb"
  note f = meterOk_facts [OF m] and c = configure_settled [OF m b]
  have now: "0 < now" using assms by simp
  note p = prepared_step(1,2) [OF m b now]
  have up: "tbUpdated (prepared m now tb) = now"
    using p(2) o by (auto simp: seenAfter_def onTime_def)
  show "tbUpdated (prepared m now tb) = now" by (rule up)
  have "tokenPrice m * 1 \<le> tokenPrice m * mCount m" using f by (intro mult_left_mono) auto
  then have qi: "tokenPrice m \<le> mInterval m" using f(5) by simp
  show "tbResidue (prepared m now tb) \<le> mInterval m + 1"
    using p(1) qi f by (simp add: settled_def split: if_splits)
  show r: "0 \<le> tbResidue (prepared m now tb)"
  proof (cases "tb = zeroBucket")
    case True
    then show ?thesis
      using c(1) by (auto simp: prepared_def configure_def refill_def isZero_def Let_def)
  next
    case False
    then have s: "settled m tb" using b by (simp add: bucketOk_def)
    have tb: "t0 \<le> tbUpdated tb" "tbUpdated tb \<le> now" "0 \<le> tbResidue tb"
      using o False by (auto simp: onTime_def)
    have rs: "tbResidue tb \<le> mInterval m + 1" using s qi f by (simp add: settled_def split: if_splits)
    have cfg: "?c = tb" by (rule c(4) [OF s])
    show ?thesis
    proof (cases "tbUpdated tb < now")
      case True
      then show ?thesis unfolding prepared_def cfg
        by (rule refill_residue) (use tb rs h in auto)
    next
      case False
      then show ?thesis using tb o by (simp add: prepared_def cfg refill_def isZero_def)
    qed
  qed
  show "onTime t0 now (prepared m now tb)" using up r o by (simp add: onTime_def)
qed

lemma spend_onTime: "onTime t0 now tb \<Longrightarrow> tb \<noteq> zeroBucket \<Longrightarrow> onTime t0 now (tb\<lparr>tbTokens := n\<rparr>)"
  by (simp add: onTime_def)

lemma onTime_mono: "onTime t0 t tb \<Longrightarrow> t \<le> now \<Longrightarrow> onTime t0 now tb"
  by (auto simp: onTime_def)

definition budgetsOnTime :: "EvictionPolicy \<Rightarrow> time \<Rightarrow> time \<Rightarrow> evictionBudgets \<Rightarrow> bool" where
  "budgetsOnTime policy t0 now b \<longleftrightarrow>
     (\<forall>lossy. bucketOk (globalMeter (budgetOf policy lossy)) (globalBucket b lossy) \<and>
        onTime t0 now (globalBucket b lossy) \<and>
        (\<forall>node. bucketOk (nodeMeter (budgetOf policy lossy)) (nodeBucket b lossy node) \<and>
           onTime t0 now (nodeBucket b lossy node)))"

definition horizonOk :: "EvictionPolicy \<Rightarrow> duration \<Rightarrow> bool" where
  "horizonOk policy span \<longleftrightarrow>
     (\<forall>lossy. span + ebInterval (budgetOf policy lossy) + 1 \<le> maxInt64)"

lemma meter_intervals [simp]:
  "mInterval (nodeMeter spec) = ebInterval spec" "mInterval (globalMeter spec) = ebInterval spec"
  by (simp_all add: nodeMeter_def globalMeter_def)

lemma call_onTime:
  assumes m: "meterOk m" and b: "bucketOk m tb" and o: "onTime t0 t tb" "0 < t0" "t0 \<le> now" "t \<le> now"
    and h: "now - t0 + mInterval m + 1 \<le> maxInt64"
    and tb': "tb' = prepared m now tb \<and> \<not> ok \<or>
              tb' = (prepared m now tb)\<lparr>tbTokens := tbTokens (prepared m now tb) - 1\<rparr> \<and> 1 \<le> tbTokens (prepared m now tb)"
  shows "bucketOk m tb'" "onTime t0 now tb'"
proof -
  have now: "0 < now" using o by simp
  show "bucketOk m tb'" by (rule bucket_call(1) [OF m b now tb'])
  have "prepared m now tb \<noteq> zeroBucket"
    using prepared_step(1) [OF m b now] by (auto simp: settled_def)
  then show "onTime t0 now tb'"
    using tb' prepared_onTime(1) [OF m b o h] spend_onTime by blast
qed

lemma takeStep_onTime:
  assumes "policyBudgetsOk policy" "budgetsOnTime policy t0 t b" "0 < t0" "t0 \<le> takeAt c" "t \<le> takeAt c"
    and "horizonOk policy (takeAt c - t0)"
  shows "budgetsOnTime policy t0 (takeAt c) (snd (takeStep policy c b))"
proof -
  obtain cl nd now where c: "c = (cl, nd, now)" by (cases c)
  have now: "takeAt c = now" by (simp add: c takeAt_def)
  let ?b' = "snd (takeStep policy c b)"
  have hor: "now - t0 + mInterval (nodeMeter (budgetOf policy lossy)) + 1 \<le> maxInt64"
    "now - t0 + mInterval (globalMeter (budgetOf policy lossy)) + 1 \<le> maxInt64" for lossy
    using assms(6) now by (simp_all add: horizonOk_def)
  have le: "t0 \<le> now" "t \<le> now" using assms(4,5) now by auto
  have mt: "meterOk (nodeMeter (budgetOf policy lossy))" "meterOk (globalMeter (budgetOf policy lossy))" for lossy
    using policyBudgetsOk_meters [OF assms(1)] by auto
  have ok: "bucketOk (nodeMeter (budgetOf policy lossy)) (nodeBucket b lossy node)"
    "onTime t0 t (nodeBucket b lossy node)"
    "bucketOk (globalMeter (budgetOf policy lossy)) (globalBucket b lossy)"
    "onTime t0 t (globalBucket b lossy)" for lossy node
    using assms(2) by (auto simp: budgetsOnTime_def)
  have global: "bucketOk (globalMeter (budgetOf policy lossy)) (globalBucket ?b' lossy) \<and>
        onTime t0 now (globalBucket ?b' lossy)" for lossy
  proof (cases "forClass lossy c")
    case False
    then show ?thesis using assms(2,5) now by (auto simp: budgetsOnTime_def frame intro: onTime_mono)
  next
    case True
    then have "cl = lossy" by (simp add: c forClass_def)
    then show ?thesis
      using call_onTime [OF mt(2) ok(3,4) assms(3) le hor(2) takeStep_global] by (simp add: c)
  qed
  have node: "bucketOk (nodeMeter (budgetOf policy lossy)) (nodeBucket ?b' lossy node) \<and>
        onTime t0 now (nodeBucket ?b' lossy node)" for lossy node
  proof (cases "forNode lossy node c")
    case False
    then show ?thesis using assms(2,5) now by (auto simp: budgetsOnTime_def frame intro: onTime_mono)
  next
    case True
    then have "cl = lossy" "nd = node" by (simp_all add: c forNode_def)
    then show ?thesis
      using call_onTime [OF mt(1) ok(1,2) assms(3) le hor(1) takeStep_node] by (simp add: c)
  qed
  show ?thesis using global node now by (simp add: budgetsOnTime_def)
qed

text \<open>Every state the budgets can be in, from the start of the process.\<close>

definition historyOf :: "EvictionPolicy \<Rightarrow> takeCall list \<Rightarrow> evictionBudgets" where
  "historyOf policy cs = snd (grants (takeStep policy) (\<lambda>_. True) cs noBudgets)"

lemma grants_append:
  "snd (grants step mine (xs @ ys) s) = snd (grants step mine ys (snd (grants step mine xs s)))"
  by (induction xs arbitrary: s) (simp_all add: split_def Let_def)

lemma noBudgets_sel [simp]: "nodeBucket noBudgets lossy node = zeroBucket" "globalBucket noBudgets lossy = zeroBucket"
  by (simp_all add: noBudgets_def nodeBucket_def globalBucket_def orZeroBucket_def)

lemma historyOf_onTime:
  assumes "policyBudgetsOk policy" "0 < t0" "t0 \<le> now" "horizonOk policy (now - t0)"
    and "sorted (map takeAt cs)" "\<forall>c \<in> set cs. t0 \<le> takeAt c \<and> takeAt c \<le> now"
  shows "budgetsOnTime policy t0 now (historyOf policy cs)"
  using assms(3-6)
proof (induction cs arbitrary: now rule: rev_induct)
  case Nil
  then show ?case by (simp add: historyOf_def budgetsOnTime_def bucketOk_def onTime_def)
next
  case (snoc c cs)
  have c: "t0 \<le> takeAt c" "takeAt c \<le> now" using snoc.prems by auto
  have h: "horizonOk policy (takeAt c - t0)"
    using snoc.prems(2) c unfolding horizonOk_def by (smt (verit))
  have "budgetsOnTime policy t0 (takeAt c) (historyOf policy cs)"
    by (rule snoc.IH [OF c(1) h]) (use snoc.prems in \<open>auto simp: sorted_append\<close>)
  from takeStep_onTime [OF assms(1) this assms(2) c(1) order_refl h]
  have "budgetsOnTime policy t0 (takeAt c) (historyOf policy (cs @ [c]))"
    by (simp add: historyOf_def grants_append Let_def split_def)
  then show ?case using c(2) onTime_mono unfolding budgetsOnTime_def by blast
qed

text \<open>
  A refused call is told how long to wait; if no other call for the class is made meanwhile, a
  later call is granted exactly from then on.
\<close>

lemma tryTake_wait:
  assumes p: "policyBudgetsOk policy" and b: "budgetsOnTime policy t0 now b" and t: "0 < t0" "t0 \<le> now"
    and h: "horizonOk policy (now + d - t0)" and d: "1 \<le> d"
    and refused: "tryTake lossy node now policy b = (False, w, b')"
  shows "1 \<le> w" "fst (tryTake lossy node (now + d) policy b') \<longleftrightarrow> w \<le> d"
proof -
  define nm gm where "nm = nodeMeter (budgetOf policy lossy)" and "gm = globalMeter (budgetOf policy lossy)"
  define nb gb where "nb = prepared nm now (nodeBucket b lossy node)" and "gb = prepared gm now (globalBucket b lossy)"
  note defs = nm_def gm_def nb_def gb_def
  have mt: "meterOk nm" "meterOk gm" using policyBudgetsOk_meters [OF p, of lossy] by (auto simp: defs)
  have ok: "bucketOk nm (nodeBucket b lossy node)" "onTime t0 now (nodeBucket b lossy node)"
    "bucketOk gm (globalBucket b lossy)" "onTime t0 now (globalBucket b lossy)"
    using b by (auto simp: budgetsOnTime_def defs)
  have "now + d - t0 + mInterval nm + 1 \<le> maxInt64" "now + d - t0 + mInterval gm + 1 \<le> maxInt64"
    using h by (simp_all add: horizonOk_def defs)
  then have hor: "now - t0 + mInterval nm + 1 \<le> maxInt64" "now - t0 + mInterval gm + 1 \<le> maxInt64"
    "d + (mInterval nm + 1) \<le> maxInt64" "d + (mInterval gm + 1) \<le> maxInt64"
    using d t by auto
  have now: "0 < now" using t by simp
  note n = prepared_onTime [OF mt(1) ok(1,2) t order_refl hor(1), folded nb_def]
    and g = prepared_onTime [OF mt(2) ok(3,4) t order_refl hor(2), folded gb_def]
  have st: "settled nm nb" "settled gm gb"
    using prepared_step(1) [OF mt(1) ok(1) now] prepared_step(1) [OF mt(2) ok(3) now] by (simp_all add: nb_def gb_def)
  have r: "tbTokens nb < 1 \<or> tbTokens gb < 1" "w = max 1 (max (waitForOne nb) (waitForOne gb))"
    "b' = storeBuckets b lossy node nb gb"
    using refused by (auto simp: tryTake_prepared Let_def defs [symmetric] split: if_splits)
  show "1 \<le> w" using r(2) by simp
  have tok: "1 \<le> tbTokens (prepared nm (now + d) nb) \<longleftrightarrow> waitForOne nb \<le> d"
    "1 \<le> tbTokens (prepared gm (now + d) gb) \<longleftrightarrow> waitForOne gb \<le> d"
    using wait_then_token [OF mt(1) st(1) n(4,2) _ d] wait_then_token [OF mt(2) st(2) g(4,2) _ d]
      now n(3) g(3) hor by auto
  have "fst (tryTake lossy node (now + d) policy b') \<longleftrightarrow>
      1 \<le> tbTokens (prepared nm (now + d) nb) \<and> 1 \<le> tbTokens (prepared gm (now + d) gb)"
    by (auto simp: tryTake_prepared Let_def r(3) defs(1,2) [symmetric])
  then show "fst (tryTake lossy node (now + d) policy b') \<longleftrightarrow> w \<le> d"
    using tok r(2) d by auto
qed

end
