(* ===== verification/Retry.thy ===== *)
theory Retry
  imports Types Budget "HOL-Library.Word"
begin

unbundle bit_operations_syntax

text \<open>
  \<open>internal/controller/eviction_retry.go\<close>: the retry deadlines of blocked evictions, and the stable
  per-Pod jitter, the FNV-1a hash of the key reduced modulo the span.  The functions of
  \<open>apierrors\<close> that the code asks about an error are the fields of \<^verbatim>\<open>apiError\<close>.
\<close>

section \<open>Definitions\<close>

record evictionRetryKey =
  rkNode :: string
  rkNamespace :: string
  rkName :: string
  rkUID :: string

definition retryKey :: "string \<Rightarrow> Pod \<Rightarrow> evictionRetryKey" where
  "retryKey node pod = \<lparr>rkNode = node, rkNamespace = podNamespace pod, rkName = podName pod, rkUID = podUID pod\<rparr>"

type_synonym deadlines = "evictionRetryKey \<rightharpoonup> time"

definition liveKeys :: "string \<Rightarrow> Pod list \<Rightarrow> evictionRetryKey list" where
  "liveKeys node pods = map (retryKey node) (filter (\<lambda>pod. podNodeName pod = node) pods)"

definition prune :: "time \<Rightarrow> string \<Rightarrow> Pod list \<Rightarrow> deadlines \<Rightarrow> deadlines" where
  "prune now node pods r =
     (\<lambda>key. case r key of
        None \<Rightarrow> None
      | Some deadline \<Rightarrow>
          if \<not> now < deadline \<or> (rkNode key = node \<and> \<not> key \<in> set (liveKeys node pods)) then None
          else Some deadline)"

definition remaining :: "evictionRetryKey \<Rightarrow> time \<Rightarrow> deadlines \<Rightarrow> duration" where
  "remaining key now r =
     (let deadline = (case r key of None \<Rightarrow> 0 | Some d \<Rightarrow> d)
      in if now < deadline then timeSub deadline now else 0)"

definition block :: "evictionRetryKey \<Rightarrow> time \<Rightarrow> deadlines \<Rightarrow> deadlines" where
  "block key deadline r = r(key \<mapsto> deadline)"

definition forget :: "evictionRetryKey \<Rightarrow> deadlines \<Rightarrow> deadlines" where
  "forget key r = r(key := None)"

record apiError =
  errTooManyRequests :: bool
  errConflict :: bool
  errNotFound :: bool
  errClientDelay :: "int option"

text \<open>\<open>hash/fnv\<close>, FNV-1a on 64 bits.\<close>

definition fnvOffset64 :: "64 word" where
  "fnvOffset64 = 14695981039346656037"

definition fnvPrime64 :: "64 word" where
  "fnvPrime64 = 1099511628211"

fun fnvWrite :: "64 word \<Rightarrow> string \<Rightarrow> 64 word" where
  "fnvWrite h [] = h"
| "fnvWrite h (c # cs) = fnvWrite ((h XOR word_of_nat (of_char c)) * fnvPrime64) cs"

definition keyHash :: "evictionRetryKey \<Rightarrow> 64 word" where
  "keyHash key =
     fnvWrite (fnvWrite (fnvWrite (fnvWrite (fnvWrite (fnvWrite (fnvWrite fnvOffset64
       (rkNode key)) [CHR 0x00]) (rkNamespace key)) [CHR 0x00]) (rkName key)) [CHR 0x00]) (rkUID key)"

definition retryJitter :: "evictionRetryKey \<Rightarrow> duration \<Rightarrow> duration" where
  "retryJitter key mx =
     (if mx \<le> 0 then 0
      else let span = (word_of_int mx :: 64 word) + 1 in sint (keyHash key mod span))"

definition blockedRetryDelay :: "evictionRetryKey \<Rightarrow> EvictionPolicy \<Rightarrow> apiError \<Rightarrow> duration" where
  "blockedRetryDelay key policy err =
     (let delay0 = (if epRetryBackoff policy < 0 then 0 else epRetryBackoff policy);
          delay = (case errClientDelay err of
                     Some seconds \<Rightarrow>
                       if seconds > 0
                       then let hint = wrap64 (seconds * second) in if hint > delay0 then hint else delay0
                       else delay0
                   | None \<Rightarrow> delay0);
          jitter0 = (if epRetryJitter policy < 0 then 0 else epRetryJitter policy);
          jitterMax = (if epRetryBackoff policy > 0 \<and> jitter0 > epRetryBackoff policy
                       then epRetryBackoff policy else jitter0)
      in wrap64 (delay + retryJitter key jitterMax))"

section \<open>Deadlines\<close>

lemma retryKey_sel [simp]: "rkNode (retryKey node pod) = node"
  by (simp add: retryKey_def)

lemma remaining_pos_iff: "0 < remaining key now r \<longleftrightarrow> (\<exists>d. r key = Some d \<and> now < d)" if "0 \<le> now"
  using that by (auto simp: remaining_def Let_def timeSub_pos_iff split: option.splits)

lemma remaining_nonneg: "0 \<le> remaining key now r"
  by (simp add: remaining_def Let_def timeSub_nonneg_iff)

lemma forget_other [frame]: "k \<noteq> key \<Longrightarrow> remaining k now (forget key r) = remaining k now r"
  by (simp add: remaining_def forget_def)

lemma block_other [frame]: "k \<noteq> key \<Longrightarrow> remaining k now (block key d r) = remaining k now r"
  by (simp add: remaining_def block_def)

text \<open>
  Pruning drops exactly the expired deadlines and those of the node's Pods that are gone, and
  never shortens or extends a deadline that still counts.
\<close>

lemma prune_Some_iff:
  "prune now node pods r key = Some d \<longleftrightarrow>
     r key = Some d \<and> now < d \<and> (rkNode key = node \<longrightarrow> key \<in> set (liveKeys node pods))"
  by (auto simp: prune_def split: option.splits if_splits)

lemma prune_remaining:
  assumes "0 \<le> now" "rkNode key = node \<longrightarrow> key \<in> set (liveKeys node pods)"
  shows "remaining key now (prune now node pods r) = remaining key now r"
  using assms by (auto simp: remaining_def prune_def Let_def split: option.split)

lemma prune_gone:
  assumes "rkNode key = node" "key \<notin> set (liveKeys node pods)"
  shows "prune now node pods r key = None"
  using assms by (auto simp: prune_def split: option.split)

lemma prune_idem: "prune now node pods (prune now node pods r) = prune now node pods r"
  by (rule ext) (auto simp: prune_def split: option.split)

section \<open>Delays\<close>

lemma retryJitter_bounds:
  assumes "int64 mx" "0 \<le> mx"
  shows "0 \<le> retryJitter key mx" "retryJitter key mx \<le> mx"
proof -
  have "0 \<le> retryJitter key mx \<and> retryJitter key mx \<le> mx"
  proof (cases "mx = 0")
    case False
    then have mx: "0 < mx" "mx \<le> 9223372036854775807" using assms by (auto simp: int64_bounds)
    let ?span = "(word_of_int mx :: 64 word) + 1"
    have span: "uint ?span = mx + 1"
    proof -
      have "?span = word_of_int (mx + 1)" by simp
      then have "uint ?span = (mx + 1) mod 2 ^ 64" by (simp only: uint_word_of_int) simp
      then show ?thesis using mx by simp
    qed
    have u: "uint (keyHash key mod ?span) = uint (keyHash key) mod (mx + 1)"
      by (simp add: uint_mod span)
    then have b: "0 \<le> uint (keyHash key mod ?span)" "uint (keyHash key mod ?span) \<le> mx"
      using mx pos_mod_bound [of "mx + 1" "uint (keyHash key)"] by simp_all
    have "sint (keyHash key mod ?span) = uint (keyHash key mod ?span)"
    proof -
      have "uint (keyHash key mod ?span) < 2 ^ 63" using b mx by simp
      then show ?thesis
        using signed_take_bit_int_eq_self [of 63 "uint (keyHash key mod ?span)"] b(1)
        by (simp add: sint_uint)
    qed
    then show ?thesis using b mx by (simp add: retryJitter_def)
  qed (simp add: retryJitter_def)
  then show "0 \<le> retryJitter key mx" "retryJitter key mx \<le> mx" by auto
qed

text \<open>The least delay: the configured backoff, or the server's hint when that is longer.\<close>

definition retryFloor :: "EvictionPolicy \<Rightarrow> apiError \<Rightarrow> duration" where
  "retryFloor policy err =
     max (epRetryBackoff policy)
       (case errClientDelay err of Some s \<Rightarrow> if s > 0 then s * second else 0 | None \<Rightarrow> 0)"

definition jitterCap :: "EvictionPolicy \<Rightarrow> duration" where
  "jitterCap policy = max 0 (min (epRetryJitter policy) (epRetryBackoff policy))"

lemma blockedRetryDelay_eq:
  assumes "0 < epRetryBackoff policy" "retryFloor policy err + jitterCap policy \<le> maxInt64"
  shows "blockedRetryDelay key policy err = retryFloor policy err + retryJitter key (jitterCap policy)"
    and "int64 (jitterCap policy)"
proof -
  have fl: "0 \<le> retryFloor policy err" and jc: "0 \<le> jitterCap policy"
    using assms(1) by (simp_all add: retryFloor_def jitterCap_def)
  show c64: "int64 (jitterCap policy)" using fl jc assms(2) by (simp add: int64_bounds)
  note j = retryJitter_bounds [OF c64 jc, of key]
  have hint: "wrap64 (s * second) = s * second" if "errClientDelay err = Some s" "0 < s" for s
    using that assms(2) jc by (intro wrap64_id) (simp add: int64_bounds retryFloor_def second_def)
  have sum: "wrap64 (retryFloor policy err + retryJitter key (jitterCap policy)) =
      retryFloor policy err + retryJitter key (jitterCap policy)"
    using fl j assms(2) by (intro wrap64_id) (simp add: int64_bounds)
  have cap: "(if epRetryBackoff policy > 0 \<and> (if epRetryJitter policy < 0 then 0 else epRetryJitter policy) > epRetryBackoff policy
      then epRetryBackoff policy else (if epRetryJitter policy < 0 then 0 else epRetryJitter policy)) = jitterCap policy"
    using assms(1) by (auto simp: jitterCap_def)
  have fl2: "(case errClientDelay err of
                     Some seconds \<Rightarrow>
                       if seconds > 0
                       then let hint = wrap64 (seconds * second) in
                         if hint > (if epRetryBackoff policy < 0 then 0 else epRetryBackoff policy) then hint
                         else (if epRetryBackoff policy < 0 then 0 else epRetryBackoff policy)
                       else (if epRetryBackoff policy < 0 then 0 else epRetryBackoff policy)
                   | None \<Rightarrow> (if epRetryBackoff policy < 0 then 0 else epRetryBackoff policy)) = retryFloor policy err"
    using assms(1) hint by (auto simp: retryFloor_def Let_def max_def split: option.split)
  show "blockedRetryDelay key policy err = retryFloor policy err + retryJitter key (jitterCap policy)"
    using sum unfolding blockedRetryDelay_def Let_def cap [unfolded Let_def] fl2 [unfolded Let_def] .
qed

lemma blockedRetryDelay_bounds:
  assumes "0 < epRetryBackoff policy" "retryFloor policy err + jitterCap policy \<le> maxInt64"
  shows "retryFloor policy err \<le> blockedRetryDelay key policy err"
    and "blockedRetryDelay key policy err \<le> retryFloor policy err + jitterCap policy"
    and "0 < blockedRetryDelay key policy err"
proof -
  have "0 < retryFloor policy err" "0 \<le> jitterCap policy"
    using assms(1) by (auto simp: retryFloor_def jitterCap_def)
  then show "retryFloor policy err \<le> blockedRetryDelay key policy err"
    "blockedRetryDelay key policy err \<le> retryFloor policy err + jitterCap policy"
    "0 < blockedRetryDelay key policy err"
    using blockedRetryDelay_eq(1) [OF assms, of key]
      retryJitter_bounds [OF blockedRetryDelay_eq(2) [OF assms], of key] by auto
qed

end
