(* ===== verification/NodeOps.thy ===== *)
theory NodeOps
  imports Types
begin

text \<open>
  What the controller writes on a Node: the owned taints and the schedulable label of
  \<open>internal/controller/nodeactivity_controller.go\<close>, the taint test of \<open>eviction.go\<close>, the admission
  test of \<open>metrics.go\<close>, and the drift predicate of \<open>node_watch.go\<close>.
\<close>

section \<open>Definitions\<close>

definition SchedulableNodeLabel :: string where
  "SchedulableNodeLabel = ''availability.interactive-node.io/schedulable''"

text \<open>
  The source compares the lengths and then the elements of the two lists; a taint is a
  comparable struct, \<open>TimeAdded\<close> by the identity of its pointer.
\<close>

definition reconcileOwnedTaint :: "string \<Rightarrow> Taint option \<Rightarrow> Node \<Rightarrow> bool \<times> Node" where
  "reconcileOwnedTaint key desired node =
     (let nxt = filter (\<lambda>t. tKey t \<noteq> key) (nodeTaints node) @
                (case desired of None \<Rightarrow> [] | Some t \<Rightarrow> [t])
      in if length nxt = length (nodeTaints node) \<and> list_all2 (=) nxt (nodeTaints node)
         then (False, node)
         else (True, node\<lparr>nodeTaints := nxt\<rparr>))"

definition reconcileSchedulableLabel :: "bool \<Rightarrow> Node \<Rightarrow> bool \<times> Node" where
  "reconcileSchedulableLabel schedulable node =
     (if schedulable
      then if mapGet (nodeLabels node) SchedulableNodeLabel \<noteq> ''true''
           then (True, node\<lparr>nodeLabels := (nodeLabels node)(SchedulableNodeLabel \<mapsto> ''true'')\<rparr>)
           else (False, node)
      else if nodeLabels node SchedulableNodeLabel \<noteq> None
      then (True, node\<lparr>nodeLabels := (nodeLabels node)(SchedulableNodeLabel := None)\<rparr>)
      else (False, node))"

definition hasTaint :: "Node \<Rightarrow> string \<Rightarrow> string \<Rightarrow> TaintEffect \<Rightarrow> bool" where
  "hasTaint node key val effect \<longleftrightarrow>
     list_ex (\<lambda>t. tKey t = key \<and> tValue t = val \<and> tEffect t = effect) (nodeTaints node)"

text \<open>\<open>controllerAdmitted\<close> of \<open>metrics.go\<close>\<close>

definition controllerAdmitted :: "bool \<Rightarrow> State \<Rightarrow> Activity \<Rightarrow> Taint option \<Rightarrow> bool" where
  "controllerAdmitted fresh state activity taint \<longleftrightarrow>
     fresh \<and> state = StateIdle \<and> activity = ActivityIdle \<and> taint = None"

definition schedulableLabelValue :: "Node \<Rightarrow> string" where
  "schedulableLabelValue node = mapGet (nodeLabels node) SchedulableNodeLabel"

definition managedTaintProjection :: "TaintPolicy \<Rightarrow> Node \<Rightarrow> Taint list" where
  "managedTaintProjection p node =
     map (\<lambda>t. mkTaint (tKey t) (tValue t) (tEffect t))
       (filter (\<lambda>t. (polKey p \<noteq> '''' \<and> tKey t = polKey p) \<or>
                    (polBurstTaintKey p \<noteq> '''' \<and> tKey t = polBurstTaintKey p)) (nodeTaints node))"

text \<open>The events of the Node watch; an object of another type does not arrive on it.\<close>

datatype nodeEvent = NodeCreated Node | NodeDeleted Node | NodeGeneric Node | NodeUpdated Node Node

fun nodeOwnedFieldsChanged :: "TaintPolicy \<Rightarrow> nodeEvent \<Rightarrow> bool" where
  "nodeOwnedFieldsChanged p (NodeCreated _) = True"
| "nodeOwnedFieldsChanged p (NodeDeleted _) = True"
| "nodeOwnedFieldsChanged p (NodeGeneric _) = False"
| "nodeOwnedFieldsChanged p (NodeUpdated oldNode newNode) =
     (schedulableLabelValue oldNode \<noteq> schedulableLabelValue newNode \<or>
      managedTaintProjection p oldNode \<noteq> managedTaintProjection p newNode)"

text \<open>
  The part of \<open>Reconcile\<close> between the node's read and its update: the label, the primary taint and,
  when a burst key is configured, the burst taint.  The flag is whether \<open>Update\<close> is called.
\<close>

definition burstFence :: "TaintPolicy \<Rightarrow> Taint" where
  "burstFence p = mkTaint (polBurstTaintKey p) (polFailClosedValue p) NoSchedule"

definition applyProtection :: "TaintPolicy \<Rightarrow> bool \<Rightarrow> Taint option \<Rightarrow> bool \<Rightarrow> Node \<Rightarrow> bool \<times> Node" where
  "applyProtection p admitted desired fenced node =
     (let (changedLabel, n1) = reconcileSchedulableLabel admitted node;
          (changedPrimary, n2) = reconcileOwnedTaint (polKey p) desired n1;
          (changedBurst, n3) =
            (if polBurstTaintKey p \<noteq> ''''
             then reconcileOwnedTaint (polBurstTaintKey p)
                    (if fenced then Some (burstFence p) else None) n2
             else (False, n2))
      in (changedLabel \<or> changedPrimary \<or> changedBurst, n3))"

section \<open>One key\<close>

abbreviation desiredFor :: "string \<Rightarrow> Taint option \<Rightarrow> bool" where
  "desiredFor key desired \<equiv> \<forall>t. desired = Some t \<longrightarrow> tKey t = key"

definition withOwned :: "string \<Rightarrow> Taint option \<Rightarrow> Taint list \<Rightarrow> Taint list" where
  "withOwned key desired ts =
     filter (\<lambda>t. tKey t \<noteq> key) ts @ (case desired of None \<Rightarrow> [] | Some t \<Rightarrow> [t])"

lemma reconcileOwnedTaint_eq:
  "reconcileOwnedTaint key desired node =
     (withOwned key desired (nodeTaints node) \<noteq> nodeTaints node,
      node\<lparr>nodeTaints := withOwned key desired (nodeTaints node)\<rparr>)"
proof -
  have "list_all2 (=) xs ys \<longleftrightarrow> xs = ys" for xs ys :: "Taint list"
    by (simp add: list.rel_eq)
  then show ?thesis
    by (auto simp: reconcileOwnedTaint_def withOwned_def [symmetric] Let_def)
qed

lemma withOwned_idem:
  "desiredFor key desired \<Longrightarrow> withOwned key desired (withOwned key desired ts) = withOwned key desired ts"
  by (auto simp: withOwned_def split: option.split)

lemma withOwned_owned:
  "desiredFor key desired \<Longrightarrow>
     filter (\<lambda>t. tKey t = key) (withOwned key desired ts) = (case desired of None \<Rightarrow> [] | Some t \<Rightarrow> [t])"
  by (auto simp: withOwned_def filter_empty_conv split: option.split)

lemma withOwned_other:
  "desiredFor key desired \<Longrightarrow>
     filter (\<lambda>t. tKey t \<noteq> key) (withOwned key desired ts) = filter (\<lambda>t. tKey t \<noteq> key) ts"
  by (auto simp: withOwned_def split: option.split)

lemma withOwned_filter:
  "desiredFor key desired \<Longrightarrow> (\<And>t. tKey t = key \<Longrightarrow> \<not> P t) \<Longrightarrow> filter P (withOwned key desired ts) = filter P ts"
  by (auto simp: withOwned_def conj_commute intro!: filter_cong split: option.split)

lemma withOwned_set:
  "set (withOwned key desired ts) = {t \<in> set ts. tKey t \<noteq> key} \<union> set_option desired"
  by (auto simp: withOwned_def split: option.split)

section \<open>Both keys and the label\<close>

definition labelled :: "bool \<Rightarrow> (string \<rightharpoonup> string) \<Rightarrow> (string \<rightharpoonup> string)" where
  "labelled admitted m =
     (if admitted then m(SchedulableNodeLabel \<mapsto> ''true'') else m(SchedulableNodeLabel := None))"

lemma reconcileSchedulableLabel_eq:
  "reconcileSchedulableLabel admitted node =
     (labelled admitted (nodeLabels node) \<noteq> nodeLabels node,
      node\<lparr>nodeLabels := labelled admitted (nodeLabels node)\<rparr>)"
proof -
  have "m(k := v) = m \<longleftrightarrow> m k = v" for m :: "string \<rightharpoonup> string" and k v
    by (auto simp: fun_upd_idem_iff)
  then show ?thesis
    by (cases node) (auto simp: reconcileSchedulableLabel_def labelled_def mapGet_def split: option.splits)
qed

definition fencedTaints :: "TaintPolicy \<Rightarrow> Taint option \<Rightarrow> bool \<Rightarrow> Taint list \<Rightarrow> Taint list" where
  "fencedTaints p desired fenced ts =
     (let ts' = withOwned (polKey p) desired ts
      in if polBurstTaintKey p = '''' then ts'
         else withOwned (polBurstTaintKey p) (if fenced then Some (burstFence p) else None) ts')"

lemma applyProtection_node:
  "snd (applyProtection p admitted desired fenced node) =
     node\<lparr>nodeLabels := labelled admitted (nodeLabels node),
          nodeTaints := fencedTaints p desired fenced (nodeTaints node)\<rparr>"
  by (simp add: applyProtection_def reconcileSchedulableLabel_eq reconcileOwnedTaint_eq fencedTaints_def Let_def)

lemma labelled_idem [simp]: "labelled a (labelled b m) = labelled a m"
  by (simp add: labelled_def)

lemma labelled_other: "k \<noteq> SchedulableNodeLabel \<Longrightarrow> labelled a m k = m k"
  by (simp add: labelled_def)

lemma labelled_key: "labelled a m SchedulableNodeLabel = (if a then Some ''true'' else None)"
  by (simp add: labelled_def)

text \<open>The keys are different, and the desired taint carries the primary key.\<close>

definition keysOk :: "TaintPolicy \<Rightarrow> Taint option \<Rightarrow> bool" where
  "keysOk p desired \<longleftrightarrow>
     polKey p \<noteq> '''' \<and> polBurstTaintKey p \<noteq> polKey p \<and> desiredFor (polKey p) desired"

lemma burstFence_key [simp]: "tKey (burstFence p) = polBurstTaintKey p"
  by (simp add: burstFence_def)

lemma fencedTaints_primary:
  assumes "keysOk p desired"
  shows "filter (\<lambda>t. tKey t = polKey p) (fencedTaints p desired fenced ts) =
           (case desired of None \<Rightarrow> [] | Some t \<Rightarrow> [t])"
  using assms
  by (auto simp: keysOk_def fencedTaints_def Let_def withOwned_owned withOwned_filter)

lemma fencedTaints_burst:
  assumes "keysOk p desired" "polBurstTaintKey p \<noteq> ''''"
  shows "filter (\<lambda>t. tKey t = polBurstTaintKey p) (fencedTaints p desired fenced ts) =
           (if fenced then [burstFence p] else [])"
  using assms by (auto simp: keysOk_def fencedTaints_def Let_def withOwned_owned)

definition foreign :: "TaintPolicy \<Rightarrow> Taint \<Rightarrow> bool" where
  "foreign p t \<longleftrightarrow> tKey t \<noteq> polKey p \<and> (polBurstTaintKey p = '''' \<or> tKey t \<noteq> polBurstTaintKey p)"

lemma fencedTaints_foreign:
  assumes "keysOk p desired"
  shows "filter (foreign p) (fencedTaints p desired fenced ts) = filter (foreign p) ts"
  using assms
  by (auto simp: keysOk_def fencedTaints_def foreign_def Let_def withOwned_filter)

lemma fencedTaints_both:
  assumes "keysOk p desired" "polBurstTaintKey p \<noteq> ''''"
  shows "fencedTaints p desired fenced ts =
    filter (\<lambda>t. tKey t \<noteq> polKey p \<and> tKey t \<noteq> polBurstTaintKey p) ts @
    (case desired of None \<Rightarrow> [] | Some t \<Rightarrow> [t]) @ (if fenced then [burstFence p] else [])"
  using assms
  by (auto simp: keysOk_def fencedTaints_def withOwned_def Let_def conj_commute split: option.split)

text \<open>The taints of other owners, in order, then the owned ones that are wanted; the burst taint only with a key.\<close>

lemma fencedTaints_all:
  assumes "keysOk p desired"
  shows "fencedTaints p desired fenced ts =
    filter (foreign p) ts @ (case desired of None \<Rightarrow> [] | Some t \<Rightarrow> [t]) @
    (if fenced \<and> polBurstTaintKey p \<noteq> '''' then [burstFence p] else [])"
proof (cases "polBurstTaintKey p = ''''")
  case True
  then show ?thesis
    using assms by (simp add: fencedTaints_def withOwned_def Let_def foreign_def [abs_def] split: option.split)
next
  case False
  then show ?thesis using fencedTaints_both [OF assms False] by (simp add: foreign_def [abs_def])
qed

lemma fencedTaints_idem:
  assumes "keysOk p desired"
  shows "fencedTaints p desired fenced (fencedTaints p desired fenced ts) = fencedTaints p desired fenced ts"
proof (cases "polBurstTaintKey p = ''''")
  case True
  with assms show ?thesis by (simp add: fencedTaints_def keysOk_def withOwned_idem)
next
  case False
  show ?thesis
    unfolding fencedTaints_both [OF assms False] using assms by (auto simp: keysOk_def split: option.split)
qed

text \<open>
  When the call reports a change, the node changed; or both taints are applied, and then the
  call reports a change every time: moving the primary taint behind the burst taint and back.
\<close>

lemma fencedTaints_changed:
  fixes ts :: "Taint list" and p :: TaintPolicy
  assumes "keysOk p desired" "polBurstTaintKey p \<noteq> ''''"
  defines "ts1 \<equiv> withOwned (polKey p) desired ts"
  shows "(ts1 \<noteq> ts \<or> fencedTaints p desired fenced ts \<noteq> ts1) \<longleftrightarrow>
           fencedTaints p desired fenced ts \<noteq> ts \<or> (desired \<noteq> None \<and> fenced)"
proof (cases "desired \<noteq> None \<and> fenced")
  case True
  then obtain t where t: "desired = Some t" "tKey t = polKey p" using assms(1) by (auto simp: keysOk_def)
  have "last ts1 = t" using t by (simp add: ts1_def withOwned_def)
  moreover have "last (fencedTaints p desired fenced ts) = burstFence p"
    using True fencedTaints_both [OF assms(1,2)] by simp
  moreover have "t \<noteq> burstFence p" using t assms(1) by (auto simp: keysOk_def)
  ultimately show ?thesis using True by metis
next
  case False
  have "ts1 = ts" if eq: "fencedTaints p desired fenced ts = ts"
  proof (cases desired)
    case None
    have "filter (\<lambda>t. tKey t = polKey p) ts = []"
      using fencedTaints_primary [OF assms(1), of fenced ts] None eq by simp
    then show ?thesis using None by (auto simp: ts1_def withOwned_def filter_empty_conv filter_id_conv)
  next
    case (Some t)
    then have "\<not> fenced" using False by simp
    have no: "filter (\<lambda>t. tKey t = polBurstTaintKey p) ts = []"
      using fencedTaints_burst [OF assms(1,2), of fenced ts] eq \<open>\<not> fenced\<close> by simp
    have "filter (\<lambda>t. tKey t = polBurstTaintKey p) ts1 = []"
      using no assms(1) Some by (auto simp: ts1_def withOwned_def keysOk_def filter_empty_conv)
    then have "filter (\<lambda>t. tKey t \<noteq> polBurstTaintKey p) ts1 = ts1"
      by (auto simp: filter_empty_conv filter_id_conv)
    moreover have "fencedTaints p desired fenced ts = filter (\<lambda>t. tKey t \<noteq> polBurstTaintKey p) ts1"
      using assms(2) \<open>\<not> fenced\<close> unfolding fencedTaints_def ts1_def [symmetric] Let_def
      by (subst withOwned_def) simp
    ultimately have "fencedTaints p desired fenced ts = ts1" by simp
    with eq show ?thesis by simp
  qed
  then show ?thesis using False by auto
qed

lemma applyProtection_flag:
  assumes "keysOk p desired"
  shows "fst (applyProtection p admitted desired fenced node) \<longleftrightarrow>
           snd (applyProtection p admitted desired fenced node) \<noteq> node \<or>
           (polBurstTaintKey p \<noteq> '''' \<and> desired \<noteq> None \<and> fenced)"
proof -
  have "\<And>m ts. node\<lparr>nodeLabels := m, nodeTaints := ts\<rparr> = node \<longleftrightarrow> m = nodeLabels node \<and> ts = nodeTaints node"
    by (cases node) auto
  then have node: "snd (applyProtection p admitted desired fenced node) \<noteq> node \<longleftrightarrow>
      labelled admitted (nodeLabels node) \<noteq> nodeLabels node \<or>
      fencedTaints p desired fenced (nodeTaints node) \<noteq> nodeTaints node"
    by (auto simp: applyProtection_node)
  show ?thesis
  proof (cases "polBurstTaintKey p = ''''")
    case True
    then show ?thesis
      unfolding node
      by (simp add: applyProtection_def reconcileSchedulableLabel_eq reconcileOwnedTaint_eq fencedTaints_def Let_def)
  next
    case False
    let ?ts1 = "withOwned (polKey p) desired (nodeTaints node)"
    have "fst (applyProtection p admitted desired fenced node) \<longleftrightarrow>
        labelled admitted (nodeLabels node) \<noteq> nodeLabels node \<or> ?ts1 \<noteq> nodeTaints node \<or>
        fencedTaints p desired fenced (nodeTaints node) \<noteq> ?ts1"
      using False
      by (simp add: applyProtection_def reconcileSchedulableLabel_eq reconcileOwnedTaint_eq fencedTaints_def Let_def)
    then show ?thesis
      unfolding node using False fencedTaints_changed [OF assms False, of "nodeTaints node" fenced] by blast
  qed
qed

section \<open>The watch\<close>

lemma hasTaint_iff: "hasTaint node k v e \<longleftrightarrow> (\<exists>t \<in> set (nodeTaints node). tKey t = k \<and> tValue t = v \<and> tEffect t = e)"
  by (simp add: hasTaint_def list_ex_iff)

lemma managedTaintProjection_hasTaint:
  assumes "k \<noteq> ''''" "k = polKey p \<or> k = polBurstTaintKey p"
  shows "hasTaint node k v e \<longleftrightarrow> mkTaint k v e \<in> set (managedTaintProjection p node)"
proof
  let ?w = "\<lambda>t. (polKey p \<noteq> [] \<and> tKey t = polKey p) \<or> (polBurstTaintKey p \<noteq> [] \<and> tKey t = polBurstTaintKey p)"
  let ?f = "\<lambda>t. mkTaint (tKey t) (tValue t) (tEffect t)"
  have proj: "set (managedTaintProjection p node) = ?f ` {t \<in> set (nodeTaints node). ?w t}"
    by (simp add: managedTaintProjection_def)
  show "mkTaint k v e \<in> set (managedTaintProjection p node)" if has: "hasTaint node k v e"
  proof -
    obtain t where t: "t \<in> set (nodeTaints node)" "tKey t = k" "tValue t = v" "tEffect t = e"
      using has by (auto simp: hasTaint_iff)
    have "?w t" using assms(2) assms(1) unfolding t(2) by (elim disjE) simp_all
    then have "t \<in> {t \<in> set (nodeTaints node). ?w t}" using t(1) by simp
    then have "?f t \<in> set (managedTaintProjection p node)" unfolding proj by (rule imageI)
    then show ?thesis using t by simp
  qed
  show "hasTaint node k v e" if "mkTaint k v e \<in> set (managedTaintProjection p node)"
    using that unfolding proj hasTaint_iff by (elim imageE) (simp, blast)
qed

lemma unwatched_update:
  assumes "\<not> nodeOwnedFieldsChanged p (NodeUpdated old new)" "k \<noteq> ''''" "k = polKey p \<or> k = polBurstTaintKey p"
  shows "hasTaint new k v e \<longleftrightarrow> hasTaint old k v e" "schedulableLabelValue new = schedulableLabelValue old"
  using assms managedTaintProjection_hasTaint [OF assms(2,3)] by auto

end
