(* ===== verification/Heartbeat.thy ===== *)
theory Heartbeat
  imports Types
begin

text \<open>
  \<open>internal/controller/heartbeat.go\<close>: the classification of a heartbeat timestamp that
  protection, admission, metrics, enrollment and eviction share, and the age it reports.
\<close>

section \<open>Definitions\<close>

definition DefaultHeartbeatSkew :: duration where
  "DefaultHeartbeatSkew = 15 * second"

record heartbeatVerdict =
  hvFresh :: bool
  hvMissing :: bool
  hvExpired :: bool
  hvFuture :: bool
  hvLead :: duration
  hvAgeSeconds :: "int option"

definition zeroVerdict :: heartbeatVerdict where
  "zeroVerdict =
     \<lparr>hvFresh = False, hvMissing = False, hvExpired = False, hvFuture = False,
      hvLead = 0, hvAgeSeconds = None\<rparr>"

definition effectiveHeartbeatSkew :: "TaintPolicy \<Rightarrow> duration" where
  "effectiveHeartbeatSkew p =
     (if polHeartbeatSkew p > 0 then polHeartbeatSkew p else DefaultHeartbeatSkew)"

definition heartbeatFreshness :: "time \<Rightarrow> time \<Rightarrow> duration \<Rightarrow> duration \<Rightarrow> heartbeatVerdict" where
  "heartbeatFreshness at now staleAfter skew0 =
     (if isZero at then zeroVerdict\<lparr>hvMissing := True\<rparr>
      else
        let skew = (if skew0 < 0 then 0 else skew0);
            delta = timeSub now at
        in if delta < wrap64 (- skew)
           then zeroVerdict\<lparr>hvFuture := True, hvLead := wrap64 (- delta)\<rparr>
           else
             let seconds0 = delta sdiv second;
                 seconds = (if seconds0 < 0 then 0 else seconds0)
             in if delta \<ge> staleAfter
                then zeroVerdict\<lparr>hvExpired := True, hvAgeSeconds := Some seconds\<rparr>
                else zeroVerdict\<lparr>hvFresh := True, hvAgeSeconds := Some seconds\<rparr>)"

definition futureHeartbeatMessage :: "time \<Rightarrow> duration \<Rightarrow> msg" where
  "futureHeartbeatMessage at skew =
     [Lit ''heartbeatAt '', FTime at, Lit '' is further ahead than heartbeat-skew '', FDur skew,
      Lit ''; check NTP on the reporting host and the controller'']"

definition futureAgeSeconds :: "duration \<Rightarrow> int" where
  "futureAgeSeconds lead =
     (let seconds0 = lead sdiv second;
          seconds = (if lead smod second \<noteq> 0 then seconds0 + 1 else seconds0)
      in if seconds < 1 then - 1 else - seconds)"

text \<open>The verdict of a policy's own \<open>StaleAfter\<close> and skew, as every caller asks for it.\<close>

definition verdictOf :: "TaintPolicy \<Rightarrow> time \<Rightarrow> time \<Rightarrow> heartbeatVerdict" where
  "verdictOf p at now = heartbeatFreshness at now (polStaleAfter p) (effectiveHeartbeatSkew p)"

section \<open>Lemmas\<close>

lemma zeroVerdict_sel [simp]:
  "\<not> hvFresh zeroVerdict" "\<not> hvMissing zeroVerdict" "\<not> hvExpired zeroVerdict"
  "\<not> hvFuture zeroVerdict" "hvLead zeroVerdict = 0" "hvAgeSeconds zeroVerdict = None"
  by (simp_all add: zeroVerdict_def)

lemma DefaultHeartbeatSkew_val [simp]: "DefaultHeartbeatSkew = 15000000000"
  by (simp add: DefaultHeartbeatSkew_def second_def)

lemma effectiveHeartbeatSkew_pos [simp, intro]: "0 < effectiveHeartbeatSkew p"
  by (simp add: effectiveHeartbeatSkew_def)

lemma int64_effectiveHeartbeatSkew:
  "int64 (polHeartbeatSkew p) \<Longrightarrow> int64 (effectiveHeartbeatSkew p)"
  by (simp add: effectiveHeartbeatSkew_def int64_bounds)

lemma wrap64_neg: "0 \<le> x \<Longrightarrow> int64 x \<Longrightarrow> wrap64 (- x) = - x"
  by (rule wrap64_id) (simp add: int64_bounds)

text \<open>What each verdict means on unbounded instants, for any 64-bit skew and deadline.\<close>

lemma freshness_missing [simp]: "hvMissing (heartbeatFreshness at now stale skew) \<longleftrightarrow> isZero at"
  by (simp add: heartbeatFreshness_def Let_def)

lemma timeSub_lt_neg:
  "0 \<le> s \<Longrightarrow> s \<le> maxInt64 \<Longrightarrow> timeSub now at < - s \<longleftrightarrow> s < at - now"
  by (auto simp: timeSub_def maxInt64_def minInt64_def)

lemma freshness_future:
  assumes "int64 skew" "0 \<le> skew"
  shows "hvFuture (heartbeatFreshness at now stale skew) \<longleftrightarrow> \<not> isZero at \<and> skew < at - now"
  using assms
  by (auto simp: heartbeatFreshness_def Let_def wrap64_neg timeSub_lt_neg int64_def)

lemma timeSub_le_iff: "int64 d \<Longrightarrow> minInt64 < d \<Longrightarrow> d \<le> timeSub t u \<longleftrightarrow> d \<le> t - u"
  by (auto simp: timeSub_def int64_bounds)

lemma freshness_expired:
  assumes "int64 skew" "0 \<le> skew" "int64 stale" "0 < stale"
  shows "hvExpired (heartbeatFreshness at now stale skew) \<longleftrightarrow> \<not> isZero at \<and> stale \<le> now - at"
proof -
  have "stale \<le> timeSub now at \<longleftrightarrow> stale \<le> now - at"
    using assms by (intro timeSub_le_iff) (auto simp: int64_bounds)
  moreover have "stale \<le> now - at \<Longrightarrow> \<not> skew < at - now"
    using assms by linarith
  ultimately show ?thesis
    using assms by (auto simp: heartbeatFreshness_def Let_def wrap64_neg timeSub_lt_neg int64_def)
qed

lemma freshness_fresh:
  assumes "int64 skew" "0 \<le> skew" "int64 stale" "0 < stale"
  shows "hvFresh (heartbeatFreshness at now stale skew) \<longleftrightarrow>
           \<not> isZero at \<and> now - at < stale \<and> at - now \<le> skew"
proof -
  have "stale \<le> timeSub now at \<longleftrightarrow> stale \<le> now - at"
    using assms by (intro timeSub_le_iff) (auto simp: int64_bounds)
  then show ?thesis
    using assms by (auto simp: heartbeatFreshness_def Let_def wrap64_neg timeSub_lt_neg int64_def)
qed

lemmas freshness_iffs = freshness_missing freshness_future freshness_expired freshness_fresh

lemma verdict_not_fresh:
  "\<not> hvFresh v \<Longrightarrow> v = heartbeatFreshness at now stale skew \<Longrightarrow>
     hvMissing v \<or> hvFuture v \<or> hvExpired v"
  by (auto simp: heartbeatFreshness_def Let_def split: if_splits)

lemma verdict_fresh_excl:
  "hvFresh (heartbeatFreshness at now stale skew) \<Longrightarrow>
     \<not> hvMissing (heartbeatFreshness at now stale skew) \<and>
     \<not> hvFuture (heartbeatFreshness at now stale skew) \<and>
     \<not> hvExpired (heartbeatFreshness at now stale skew)"
  by (auto simp: heartbeatFreshness_def Let_def split: if_splits)

end
