(* ===== verification/Windows.thy ===== *)
theory Windows
  imports Types Selection
begin

text \<open>
  \<open>internal/controller/windows.go\<close>: the availability windows of an enrollment.  The cron
  library and the time-zone database are not part of the repository: \<^verbatim>\<open>lib\<close> holds what the
  code gets from them, the parse of a cron expression, as a function from a location and an
  instant to the next activation (0 when there is none), and the error of
  \<open>time.LoadLocation\<close> for an unknown zone.
\<close>

section \<open>Definitions\<close>

record lib =
  libCron :: "string \<Rightarrow> string + (string \<Rightarrow> time \<Rightarrow> time)"
  libLocError :: "string \<Rightarrow> string option"

definition maxWindowOccurrences :: nat where
  "maxWindowOccurrences = 4096"

record scheduledWindow =
  swState :: string
  swStart :: time
  swEnd :: time

record parsedWindow =
  pwExpr :: string
  pwLabel :: string
  pwState :: string
  pwSchedule :: "string \<Rightarrow> time \<Rightarrow> time"
  pwDuration :: duration
  pwLoc :: string

fun joinMsgs :: "msg list \<Rightarrow> msg" where
  "joinMsgs [] = []"
| "joinMsgs [m] = m"
| "joinMsgs (m # ms) = m @ Lit ''; '' # joinMsgs ms"

definition parseLead :: "NodeActivitySpec \<Rightarrow> msg list \<times> duration" where
  "parseLead spec =
     (if specLeadTime spec = '''' then ([], 0)
      else
        let problem = [Lit ''spec.leadTime '', FQuoted (specLeadTime spec),
                       Lit '' must be a non-negative duration'']
        in case parseDuration (specLeadTime spec) of
             None \<Rightarrow> ([problem], 0)
           | Some d \<Rightarrow> if d < 0 then ([problem], 0) else ([], d))"

text \<open>One iteration of the loop over \<open>spec.windows\<close>: its problems, and the window if valid.\<close>

definition parseWindow :: "lib \<Rightarrow> nat \<Rightarrow> AvailabilityWindow \<Rightarrow> msg list \<times> parsedWindow option" where
  "parseWindow l i w =
     (let field = (\<lambda>name. [Lit ''spec.windows['', FInt (int i), Lit ''].'', Lit name, Lit '' '']);
          schedule = libCron l (awSchedule w);
          p1 = (case schedule of
                  Inl err \<Rightarrow> [field ''schedule'' @ [FQuoted (awSchedule w),
                               Lit '' is not a valid five-field cron expression: '', FStr err]]
                | Inr _ \<Rightarrow> []);
          duration = parseDuration (awDuration w);
          p2 = (if duration = None \<or> the duration \<le> 0
                then [field ''duration'' @ [FQuoted (awDuration w), Lit '' must be a positive duration'']]
                else []);
          p3 = (if awState w = ''game'' \<or> awState w = ''interactive'' \<or> awState w = ''idle-allowed''
                then []
                else [field ''state'' @ [FQuoted (awState w),
                        Lit '' must be game, interactive, or idle-allowed'']]);
          p4 = (if awTimeZone w = '''' then []
                else case libLocError l (awTimeZone w) of
                       None \<Rightarrow> []
                     | Some err \<Rightarrow> [field ''timeZone'' @ [FQuoted (awTimeZone w),
                                    Lit '' is not a valid IANA time zone: '', FStr err]]);
          problems = p1 @ p2 @ p3 @ p4
      in (problems,
          case schedule of
            Inl _ \<Rightarrow> None
          | Inr s \<Rightarrow>
              if problems = []
              then Some \<lparr>pwExpr = awSchedule w, pwLabel = awDuration w, pwState = awState w,
                         pwSchedule = s, pwDuration = the duration,
                         pwLoc = (if awTimeZone w = '''' then ''UTC'' else awTimeZone w)\<rparr>
              else None))"

fun parseWindows :: "lib \<Rightarrow> nat \<Rightarrow> AvailabilityWindow list \<Rightarrow> msg list \<times> parsedWindow list" where
  "parseWindows l i [] = ([], [])"
| "parseWindows l i (w # ws) =
     (let (ps, pw) = parseWindow l i w;
          (qs, rest) = parseWindows l (Suc i) ws
      in (ps @ qs, (case pw of None \<Rightarrow> rest | Some v \<Rightarrow> v # rest)))"

definition parseSchedule :: "lib \<Rightarrow> NodeActivitySpec \<Rightarrow> msg + (duration \<times> parsedWindow list)" where
  "parseSchedule l spec =
     (let (ps, lead) = parseLead spec;
          (qs, windows) = parseWindows l 0 (specWindows spec);
          problems = ps @ qs
      in if problems \<noteq> [] then Inl (joinMsgs problems) else Inr (lead, windows))"

definition validateSchedule :: "lib \<Rightarrow> NodeActivitySpec \<Rightarrow> msg option" where
  "validateSchedule l spec = (case parseSchedule l spec of Inl e \<Rightarrow> Some e | Inr _ \<Rightarrow> None)"

definition windowRank :: "string \<Rightarrow> int" where
  "windowRank s =
     (if trimSpace s = ''game'' then 3 else if trimSpace s = ''interactive'' then 2 else 1)"

definition preferOpenWindow ::
    "scheduledWindow option \<Rightarrow> scheduledWindow option \<Rightarrow> scheduledWindow option" where
  "preferOpenWindow current candidate =
     (case candidate of
        None \<Rightarrow> current
      | Some cand \<Rightarrow>
          (case current of
             None \<Rightarrow> candidate
           | Some cur \<Rightarrow>
               if windowRank (swState cand) > windowRank (swState cur) \<or>
                  (windowRank (swState cand) = windowRank (swState cur) \<and> swEnd cand < swEnd cur)
               then candidate else current))"

definition earlierTime :: "time \<Rightarrow> time \<Rightarrow> time" where
  "earlierTime current candidate =
     (if isZero candidate then current
      else if isZero current \<or> candidate < current then candidate
      else current)"

definition nextActivation :: "string \<Rightarrow> (time \<Rightarrow> time) \<Rightarrow> time \<Rightarrow> msg + time" where
  "nextActivation expr schedule after =
     (let next = schedule after
      in if isZero next
         then Inl [Lit ''window schedule '', FQuoted expr,
                   Lit '' has no occurrence within the supported horizon'']
         else if \<not> next > after
         then Inl [Lit ''window schedule '', FQuoted expr, Lit '' did not advance past '', FTime after]
         else Inr next)"

definition occurrencesError :: "string \<Rightarrow> string \<Rightarrow> msg" where
  "occurrencesError expr label =
     [Lit ''window schedule '', FQuoted expr, Lit '' with duration '', FStr label,
      Lit '' exceeds '', FInt (int maxWindowOccurrences),
      Lit '' occurrences; shorten the duration or use a less frequent schedule'']"

text \<open>
  The \<open>for\<close> loop of \<open>scanWindow\<close>: the occurrences after the cursor that have started, at most
  \<open>maxWindowOccurrences\<close> of them, then the upcoming start.
\<close>

function scanLoop ::
    "string \<Rightarrow> string \<Rightarrow> string \<Rightarrow> (time \<Rightarrow> time) \<Rightarrow> time \<Rightarrow> duration \<Rightarrow>
     time \<Rightarrow> scheduledWindow option \<Rightarrow> time \<Rightarrow> nat \<Rightarrow> msg + (scheduledWindow option \<times> time \<times> time)"
  where
  "scanLoop expr label state schedule localNow duration cursor active wake steps =
     (case nextActivation expr schedule cursor of
        Inl e \<Rightarrow> Inl e
      | Inr start \<Rightarrow>
          if start > localNow then Inr (active, wake, start)
          else if steps + 1 > maxWindowOccurrences
          then Inl (occurrencesError expr label)
          else
            let end = start + duration
            in if localNow < end
               then scanLoop expr label state schedule localNow duration start
                      (preferOpenWindow active (Some \<lparr>swState = state, swStart = start, swEnd = end\<rparr>))
                      (earlierTime wake end) (steps + 1)
               else scanLoop expr label state schedule localNow duration start active wake (steps + 1))"
  by pat_completeness auto
termination
  by (relation "measure (\<lambda>(_, _, _, _, _, _, _, _, _, steps). maxWindowOccurrences - steps)") auto

declare scanLoop.simps [simp del]

definition scanWindow ::
    "string \<Rightarrow> string \<Rightarrow> string \<Rightarrow> (time \<Rightarrow> time) \<Rightarrow> time \<Rightarrow> duration \<Rightarrow> duration \<Rightarrow>
     msg + (scheduledWindow option \<times> time \<times> time)" where
  "scanWindow expr label state schedule localNow duration lead =
     (case scanLoop expr label state schedule localNow duration
             (localNow + wrap64 (- duration)) None 0 0 of
        Inl e \<Rightarrow> Inl e
      | Inr (active, wake0, upcoming) \<Rightarrow>
          let wake = earlierTime wake0 upcoming
          in if lead > 0
             then (case nextActivation expr schedule (localNow + lead) of
                     Inl e \<Rightarrow> Inl e
                   | Inr anchor \<Rightarrow>
                       let leadBoundary = anchor - lead
                       in if \<not> leadBoundary > localNow
                          then Inl [Lit ''window schedule '', FQuoted expr,
                                    Lit '' lead time did not advance past '', FTime localNow]
                          else Inr
                            (if \<not> localNow < upcoming - lead \<and> localNow < upcoming
                             then preferOpenWindow active
                                    (Some \<lparr>swState = state, swStart = upcoming,
                                           swEnd = upcoming + duration\<rparr>)
                             else active,
                             upcoming, earlierTime wake leadBoundary))
             else Inr (active, upcoming, wake))"

text \<open>The loop of \<open>evaluateWindows\<close> over the parsed windows.\<close>

fun scanWindows ::
    "duration \<Rightarrow> time \<Rightarrow> parsedWindow list \<Rightarrow> scheduledWindow option \<Rightarrow> time \<Rightarrow> time \<Rightarrow>
     msg + (scheduledWindow option \<times> time \<times> time)" where
  "scanWindows lead now [] active next wake = Inr (active, next, wake)"
| "scanWindows lead now (w # ws) active next wake =
     (case scanWindow (pwExpr w) (pwLabel w) (pwState w) (pwSchedule w (pwLoc w)) now
             (pwDuration w) lead of
        Inl e \<Rightarrow> Inl e
      | Inr (opened, upcoming, boundary) \<Rightarrow>
          scanWindows lead now ws (preferOpenWindow active opened)
            (if isZero next \<or> upcoming < next then upcoming else next)
            (earlierTime wake boundary))"

definition evaluateWindows ::
    "lib \<Rightarrow> NodeActivitySpec \<Rightarrow> time \<Rightarrow> msg + (scheduledWindow option \<times> time \<times> duration)" where
  "evaluateWindows l spec now =
     (case parseSchedule l spec of
        Inl e \<Rightarrow> Inl e
      | Inr (lead, windows) \<Rightarrow>
          (case scanWindows lead now windows None 0 0 of
             Inl e \<Rightarrow> Inl e
           | Inr (active, next, wake) \<Rightarrow>
               if isZero wake then Inr (active, next, 0)
               else let wait = timeSub wake now
                    in if wait \<le> 0
                       then Inl [Lit ''window schedule did not advance the requeue time'']
                       else Inr (active, next, wait)))"

section \<open>The scan of one window\<close>

definition windowBetter :: "scheduledWindow \<Rightarrow> scheduledWindow \<Rightarrow> bool" where
  "windowBetter cand cur \<longleftrightarrow>
     windowRank (swState cand) > windowRank (swState cur) \<or>
     (windowRank (swState cand) = windowRank (swState cur) \<and> swEnd cand < swEnd cur)"

interpretation open_window: strict_pref windowBetter
  by unfold_locales (auto simp: windowBetter_def)

lemma preferOpenWindow_None [simp]: "preferOpenWindow cur None = cur"
  by (simp add: preferOpenWindow_def)

lemma preferOpenWindow_Some: "preferOpenWindow cur (Some w) = pickStep windowBetter cur w"
  by (simp add: preferOpenWindow_def pickStep_def windowBetter_def split: option.split)

lemma preferOpenWindow_first [simp]: "preferOpenWindow None cand = cand"
  by (simp add: preferOpenWindow_def split: option.split)

lemma preferOpenWindow_pick:
  "preferOpenWindow cur cand = pick windowBetter cur (case cand of None \<Rightarrow> [] | Some w \<Rightarrow> [w])"
  by (simp add: preferOpenWindow_Some split: option.split)

lemma preferOpenWindow_keep:
  "swState w = swState v \<Longrightarrow> swEnd v \<le> swEnd w \<Longrightarrow> preferOpenWindow (Some v) (Some w) = Some v"
  by (simp add: preferOpenWindow_def)

lemma earlierTime_zero [simp]: "earlierTime 0 t = t" "earlierTime t 0 = t"
  by (auto simp: earlierTime_def isZero_def)

lemma earlierTime_min: "0 < a \<Longrightarrow> 0 < b \<Longrightarrow> earlierTime a b = min a b"
  by (auto simp: earlierTime_def isZero_def)

lemma nextActivation_Inr:
  "nextActivation expr f t = Inr s \<longleftrightarrow> f t = s \<and> s \<noteq> 0 \<and> t < s"
  by (auto simp: nextActivation_def Let_def isZero_def)

text \<open>
  Once a window is open, the later occurrences of the same schedule end later, so the rest of
  the loop only looks for the upcoming start.
\<close>

definition opened :: "string \<Rightarrow> scheduledWindow option \<Rightarrow> time \<Rightarrow> bool" where
  "opened state active wake \<longleftrightarrow>
     (\<exists>v. active = Some v \<and> swState v = state \<and> swEnd v = wake \<and> 0 < wake)"

lemma scanLoop_opened_step:
  assumes "opened state active wake" "wake \<le> cursor + dur"
  shows "scanLoop expr label state f now dur cursor active wake steps =
    (case nextActivation expr f cursor of
       Inl e \<Rightarrow> Inl e
     | Inr start \<Rightarrow>
         if start > now then Inr (active, wake, start)
         else if steps + 1 > maxWindowOccurrences
         then Inl (occurrencesError expr label)
         else scanLoop expr label state f now dur start active wake (steps + 1))"
proof -
  have keep: "preferOpenWindow active (Some \<lparr>swState = state, swStart = s, swEnd = s + dur\<rparr>) = active
      \<and> earlierTime wake (s + dur) = wake" if "cursor < s" for s
    using assms that
    by (auto simp: opened_def earlierTime_def isZero_def intro!: preferOpenWindow_keep)
  show ?thesis
  proof (cases "nextActivation expr f cursor")
    case (Inl e)
    then show ?thesis by (subst scanLoop.simps) simp
  next
    case (Inr start)
    then have "cursor < start" by (simp add: nextActivation_Inr)
    with Inr show ?thesis
      using keep [of start] by (subst scanLoop.simps) (simp add: Let_def)
  qed
qed

lemma scanLoop_opened:
  assumes "scanLoop expr label state f now dur cursor active wake steps = Inr (a, w, u)"
    and "opened state active wake" "wake \<le> cursor + dur" "cursor \<le> now"
  shows "a = active \<and> w = wake \<and> now < u \<and> (\<exists>c. cursor \<le> c \<and> c \<le> now \<and> u = f c)"
  using assms
proof (induction "maxWindowOccurrences - steps" arbitrary: cursor steps rule: less_induct)
  case less
  note run = less.prems(1) [unfolded scanLoop_opened_step [OF less.prems(2,3)]]
  obtain start where st: "f cursor = start" "cursor < start" "start \<noteq> 0"
    using run by (auto simp: nextActivation_Inr split: sum.splits)
  then have na: "nextActivation expr f cursor = Inr start" by (simp add: nextActivation_Inr)
  show ?case
  proof (cases "start > now")
    case True
    with run na less.prems(4) st(1) show ?thesis by auto
  next
    case False
    with run na have bound: "steps + 1 \<le> maxWindowOccurrences"
      by (auto split: if_splits)
    then have "scanLoop expr label state f now dur start active wake (steps + 1) = Inr (a, w, u)"
      using run na False by simp
    with bound less.prems st False
    have "a = active \<and> w = wake \<and> now < u \<and> (\<exists>c. start \<le> c \<and> c \<le> now \<and> u = f c)"
      by (intro less.hyps) auto
    then obtain c where "start \<le> c" "c \<le> now" "u = f c" and rest: "a = active" "w = wake" "now < u"
      by blast
    with st(2) have "cursor \<le> c \<and> c \<le> now \<and> u = f c" by simp
    with rest show ?thesis by blast
  qed
qed

lemma scanLoop_later:
  assumes "scanLoop expr label state f now dur cursor active wake steps = Inr (a, w, u)"
    and "opened state active wake" "wake \<le> cursor + dur"
    and "now \<le> now'" "now' < u"
  shows "scanLoop expr label state f now' dur cursor active wake steps = Inr (a, w, u)"
  using assms
proof (induction "maxWindowOccurrences - steps" arbitrary: cursor steps rule: less_induct)
  case less
  note run = less.prems(1) [unfolded scanLoop_opened_step [OF less.prems(2,3)]]
  obtain start where st: "f cursor = start" "cursor < start" "start \<noteq> 0"
    using run by (auto simp: nextActivation_Inr split: sum.splits)
  then have na: "nextActivation expr f cursor = Inr start" by (simp add: nextActivation_Inr)
  show ?case
  proof (cases "start > now")
    case True
    with run na have "u = start" "a = active" "w = wake" by auto
    then show ?thesis
      using na less.prems(5) scanLoop_opened_step [OF less.prems(2,3)] by simp
  next
    case False
    with run na have bound: "steps + 1 \<le> maxWindowOccurrences"
      by (auto split: if_splits)
    then have rec: "scanLoop expr label state f now dur start active wake (steps + 1) = Inr (a, w, u)"
      using run na False by simp
    with bound less.prems st False
    have "scanLoop expr label state f now' dur start active wake (steps + 1) = Inr (a, w, u)"
      by (intro less.hyps) auto
    then show ?thesis
      using na False bound less.prems(4) scanLoop_opened_step [OF less.prems(2,3)] by simp
  qed
qed


text \<open>
  The whole scan in closed form.  The first activation after \<open>now - dur\<close> decides: if it has
  started, it is the open window, and its end is a boundary.
\<close>

definition firstOpen :: "string \<Rightarrow> (time \<Rightarrow> time) \<Rightarrow> time \<Rightarrow> duration \<Rightarrow> scheduledWindow option" where
  "firstOpen state f now dur =
     (if f (now - dur) \<le> now
      then Some \<lparr>swState = state, swStart = f (now - dur), swEnd = f (now - dur) + dur\<rparr>
      else None)"

lemma scanLoop_first:
  assumes "nextActivation expr f cursor = Inr s"
  shows "scanLoop expr label state f now dur cursor None 0 0 =
    (if s > now then Inr (None, 0, s)
     else if now < s + dur
     then scanLoop expr label state f now dur s
            (Some \<lparr>swState = state, swStart = s, swEnd = s + dur\<rparr>) (s + dur) 1
     else scanLoop expr label state f now dur s None 0 1)"
  using assms by (subst scanLoop.simps) (simp add: Let_def maxWindowOccurrences_def)

lemma scanLoop_activates:
  assumes "scanLoop expr label state f now dur cursor None 0 0 = Inr (a, w, u)"
  shows "nextActivation expr f cursor = Inr (f cursor)"
  using assms by (subst (asm) scanLoop.simps) (auto simp: nextActivation_Inr split: sum.splits)

lemma scanLoop_start:
  assumes "scanLoop expr label state f now dur (now - dur) None 0 0 = Inr (a, w, u)"
    and "0 < now" "0 < dur"
  shows "now - dur < f (now - dur)"
    and "a = firstOpen state f now dur"
    and "w = (if f (now - dur) \<le> now then f (now - dur) + dur else 0)"
    and "now < u" and "\<exists>c. now - dur \<le> c \<and> c \<le> now \<and> u = f c"
proof -
  let ?s = "f (now - dur)"
  have na: "nextActivation expr f (now - dur) = Inr ?s"
    by (rule scanLoop_activates [OF assms(1)])
  note run = assms(1) [unfolded scanLoop_first [OF na]]
  show lt: "now - dur < ?s" using na by (simp add: nextActivation_Inr)
  have "a = firstOpen state f now dur \<and> w = (if ?s \<le> now then ?s + dur else 0) \<and> now < u \<and>
        (\<exists>c. now - dur \<le> c \<and> c \<le> now \<and> u = f c)"
  proof (cases "?s \<le> now")
    case False
    with run have "a = None" "w = 0" "u = ?s" by auto
    with False assms show ?thesis
      by (auto simp: firstOpen_def intro!: exI [of _ "now - dur"])
  next
    case True
    let ?v = "\<lparr>swState = state, swStart = ?s, swEnd = ?s + dur\<rparr>"
    from run lt True have "scanLoop expr label state f now dur ?s (Some ?v) (?s + dur) 1 = Inr (a, w, u)"
      by (auto simp: Let_def split: if_splits)
    then have "a = Some ?v \<and> w = ?s + dur \<and> now < u \<and> (\<exists>c. ?s \<le> c \<and> c \<le> now \<and> u = f c)"
      using True lt assms(2,3) by (intro scanLoop_opened) (auto simp: opened_def)
    then obtain c where "a = Some ?v" "w = ?s + dur" "now < u" "?s \<le> c" "c \<le> now" "u = f c"
      by blast
    moreover from this lt have "now - dur \<le> c" by simp
    ultimately show ?thesis using True by (auto simp: firstOpen_def)
  qed
  then show "a = firstOpen state f now dur" "w = (if ?s \<le> now then ?s + dur else 0)" "now < u"
    "\<exists>c. now - dur \<le> c \<and> c \<le> now \<and> u = f c" by auto
qed

definition scanBoundary :: "(time \<Rightarrow> time) \<Rightarrow> time \<Rightarrow> duration \<Rightarrow> duration \<Rightarrow> time \<Rightarrow> time" where
  "scanBoundary f now dur lead up =
     (let b = (if f (now - dur) \<le> now then min (f (now - dur) + dur) up else up)
      in if lead > 0 then min b (f (now + lead) - lead) else b)"

definition scanOpened ::
    "string \<Rightarrow> (time \<Rightarrow> time) \<Rightarrow> time \<Rightarrow> duration \<Rightarrow> duration \<Rightarrow> time \<Rightarrow> scheduledWindow option" where
  "scanOpened state f now dur lead up =
     (if f (now - dur) \<le> now then firstOpen state f now dur
      else if lead > 0 \<and> up - lead \<le> now
      then Some \<lparr>swState = state, swStart = up, swEnd = up + dur\<rparr>
      else None)"

lemma scanWindow_closed:
  assumes "scanWindow expr label state f now dur lead = Inr (opn, up, b)"
    and "0 < now" "0 < dur" "int64 dur"
  shows "now - dur < f (now - dur)" and "now < up"
    and "\<exists>c. now - dur \<le> c \<and> c \<le> now \<and> up = f c"
    and "opn = scanOpened state f now dur lead up"
    and "b = scanBoundary f now dur lead up"
    and "now < b" and "b \<le> up"
    and "lead > 0 \<Longrightarrow> now + lead < f (now + lead)"
proof -
  let ?s = "f (now - dur)"
  have neg: "now + wrap64 (- dur) = now - dur"
    using assms(3,4) by (simp add: wrap64_id int64_bounds)
  obtain a w where loop: "scanLoop expr label state f now dur (now - dur) None 0 0 = Inr (a, w, up)"
    using assms(1) by (auto simp: scanWindow_def neg Let_def split: sum.splits if_splits)
  note st = scanLoop_start [OF loop assms(2,3)]
  show lt: "now - dur < ?s" and up: "now < up" and "\<exists>c. now - dur \<le> c \<and> c \<le> now \<and> up = f c"
    by (fact st)+
  let ?b = "if ?s \<le> now then min (?s + dur) up else up"
  have wake: "earlierTime w up = ?b"
    using st(3) up lt assms(2) by (auto simp: earlierTime_min)
  have bpos: "now < ?b" using up lt by auto
  have "b = scanBoundary f now dur lead up \<and> opn = scanOpened state f now dur lead up \<and> now < b \<and>
        (lead > 0 \<longrightarrow> now + lead < f (now + lead))"
  proof (cases "lead > 0")
    case False
    with assms(1) loop wake st(2) bpos show ?thesis
      by (auto simp: scanWindow_def neg Let_def scanBoundary_def scanOpened_def firstOpen_def)
  next
    case True
    from assms(1) loop True have na: "nextActivation expr f (now + lead) = Inr (f (now + lead))"
      by (auto simp: scanWindow_def neg Let_def nextActivation_Inr split: sum.splits if_splits)
    then have anchor: "now + lead < f (now + lead)" by (simp add: nextActivation_Inr)
    have b: "b = earlierTime ?b (f (now + lead) - lead)"
      and opn: "opn = (if up - lead \<le> now
               then preferOpenWindow a (Some \<lparr>swState = state, swStart = up, swEnd = up + dur\<rparr>) else a)"
      using assms(1) loop True na wake up by (auto simp: scanWindow_def neg Let_def split: if_splits)
    have "b = min ?b (f (now + lead) - lead)"
      using b bpos anchor assms(2) by (subst b, subst earlierTime_min) auto
    moreover have "opn = scanOpened state f now dur lead up"
      using opn st(2) True lt up
      by (auto simp: scanOpened_def firstOpen_def intro!: preferOpenWindow_keep)
    ultimately show ?thesis using True bpos anchor by (auto simp: scanBoundary_def Let_def)
  qed
  then show b: "b = scanBoundary f now dur lead up" and "opn = scanOpened state f now dur lead up"
    and "now < b" and "lead > 0 \<Longrightarrow> now + lead < f (now + lead)" by auto
  show "b \<le> up" by (subst b) (auto simp: scanBoundary_def Let_def min_def)
qed

text \<open>
  What the code relies on of \<open>cron.Schedule.Next\<close>: the next activation is later than the
  instant asked about, and asking again before it gives the same one.
\<close>

definition cronNext :: "(time \<Rightarrow> time) \<Rightarrow> bool" where
  "cronNext f \<longleftrightarrow> (\<forall>t u. f t \<noteq> 0 \<longrightarrow> t \<le> u \<longrightarrow> u < f t \<longrightarrow> f u = f t)"

lemma cronNext_same: "cronNext f \<Longrightarrow> t < f t \<Longrightarrow> 0 < f t \<Longrightarrow> t \<le> u \<Longrightarrow> u < f t \<Longrightarrow> f u = f t"
  unfolding cronNext_def by (metis less_irrefl)

text \<open>Nothing a scan returns changes before the boundary it returns.\<close>

lemma scanLoop_start_later:
  assumes "scanLoop expr label state f now dur (now - dur) None 0 0 = Inr (a, w, u)"
    and "cronNext f" "0 < now" "0 < dur" "now \<le> now'" "now' < u"
    and "f (now - dur) \<le> now \<Longrightarrow> now' < f (now - dur) + dur"
  shows "scanLoop expr label state f now' dur (now' - dur) None 0 0 = Inr (a, w, u)"
proof -
  let ?s = "f (now - dur)"
  have na: "nextActivation expr f (now - dur) = Inr ?s"
    by (rule scanLoop_activates [OF assms(1)])
  then have s: "?s \<noteq> 0" "now - dur < ?s" by (auto simp: nextActivation_Inr)
  note first = scanLoop_first [OF na]
  have up: "u = ?s" if "\<not> ?s \<le> now"
    using assms(1) that by (simp add: first)
  have "now' - dur < ?s"
    using assms(4,6,7) up by (cases "?s \<le> now") auto
  then have same: "f (now' - dur) = ?s"
    using assms(2) [unfolded cronNext_def, rule_format, OF s(1), of "now' - dur"] assms(5) by simp
  then have na': "nextActivation expr f (now' - dur) = Inr ?s"
    using s \<open>now' - dur < ?s\<close> by (simp add: nextActivation_Inr)
  note first' = scanLoop_first [OF na']
  show ?thesis
  proof (cases "?s \<le> now")
    case False
    with assms(1) have "a = None" "w = 0" "u = ?s" by (auto simp: first)
    then show ?thesis using assms(6) by (simp add: first')
  next
    case True
    let ?v = "\<lparr>swState = state, swStart = ?s, swEnd = ?s + dur\<rparr>"
    have "scanLoop expr label state f now dur ?s (Some ?v) (?s + dur) 1 = Inr (a, w, u)"
      using assms(1) True s by (simp add: first)
    then have "scanLoop expr label state f now' dur ?s (Some ?v) (?s + dur) 1 = Inr (a, w, u)"
      by (rule scanLoop_later) (use assms(3-6) s True in \<open>simp_all add: opened_def\<close>)
    moreover have "\<not> now' < ?s" "now' < ?s + dur" using True assms(5,7) by auto
    ultimately show ?thesis by (simp add: first')
  qed
qed

lemma scanWindow_later:
  assumes "scanWindow expr label state f now dur lead = Inr (opn, up, b)"
    and "cronNext f" "0 < now" "0 < dur" "int64 dur" "now \<le> now'" "now' < b"
  shows "scanWindow expr label state f now' dur lead = Inr (opn, up, b)"
proof -
  let ?s = "f (now - dur)"
  have neg: "t + wrap64 (- dur) = t - dur" for t
    using assms(4,5) by (simp add: wrap64_id int64_bounds)
  note cl = scanWindow_closed [OF assms(1,3-5)]
  have bounds: "now' < up" "?s \<le> now \<Longrightarrow> now' < ?s + dur"
    "lead > 0 \<Longrightarrow> now' + lead < f (now + lead)"
    using assms(7) cl(5,7) by (auto simp: scanBoundary_def Let_def split: if_splits)
  obtain a w where loop: "scanLoop expr label state f now dur (now - dur) None 0 0 = Inr (a, w, up)"
    using assms(1) by (auto simp: scanWindow_def neg Let_def split: sum.splits if_splits)
  have loop': "scanLoop expr label state f now' dur (now' - dur) None 0 0 = Inr (a, w, up)"
    by (rule scanLoop_start_later [OF loop]) (use assms bounds in auto)
  show ?thesis
  proof (cases "lead > 0")
    case False
    then show ?thesis using assms(1) loop loop' by (simp add: scanWindow_def neg Let_def)
  next
    case True
    have anchor: "now + lead < f (now + lead)" by (rule cl(8) [OF True])
    have same: "f (now' + lead) = f (now + lead)"
      using cronNext_same [OF assms(2) anchor _ _ bounds(3) [OF True]] anchor assms(3,6) True by auto
    have na: "nextActivation expr f (now + lead) = Inr (f (now + lead))"
      "nextActivation expr f (now' + lead) = Inr (f (now + lead))"
      using same anchor bounds(3) [OF True] assms(3) True by (auto simp: nextActivation_Inr)
    have open_same: "(\<not> now' < up - lead \<and> now' < up) = (\<not> now < up - lead \<and> now < up)"
    proof (cases "now < up - lead")
      case False
      then show ?thesis using assms(6) bounds(1) cl(2) by simp
    next
      case lt: True
      obtain c where c: "c \<le> now" "up = f c" using cl(3) by blast
      then have "f (now + lead) = up"
        using cronNext_same [OF assms(2), of c "now + lead"] lt cl(2) assms(3) True by auto
      then have "now' < up - lead" using bounds(3) [OF True] by simp
      then show ?thesis using lt by simp
    qed
    have gt: "f (now + lead) - lead > now" "f (now + lead) - lead > now'"
      using anchor bounds(3) [OF True] by auto
    have "scanWindow expr label state f now' dur lead =
        Inr (if \<not> now' < up - lead \<and> now' < up
             then preferOpenWindow a (Some \<lparr>swState = state, swStart = up, swEnd = up + dur\<rparr>) else a,
             up, earlierTime (earlierTime w up) (f (now + lead) - lead))"
      unfolding scanWindow_def neg loop' using True na gt by (simp add: Let_def)
    moreover have "scanWindow expr label state f now dur lead =
        Inr (if \<not> now < up - lead \<and> now < up
             then preferOpenWindow a (Some \<lparr>swState = state, swStart = up, swEnd = up + dur\<rparr>) else a,
             up, earlierTime (earlierTime w up) (f (now + lead) - lead))"
      unfolding scanWindow_def neg loop using True na gt by (simp add: Let_def)
    ultimately show ?thesis using assms(1) by (simp only: open_same)
  qed
qed

section \<open>All windows of an enrollment\<close>

definition scanOf :: "duration \<Rightarrow> time \<Rightarrow> parsedWindow \<Rightarrow> msg + (scheduledWindow option \<times> time \<times> time)" where
  "scanOf lead now w =
     scanWindow (pwExpr w) (pwLabel w) (pwState w) (pwSchedule w (pwLoc w)) now (pwDuration w) lead"

definition wellParsed :: "parsedWindow \<Rightarrow> bool" where
  "wellParsed w \<longleftrightarrow>
     0 < pwDuration w \<and> int64 (pwDuration w) \<and>
     pwState w \<in> {''game'', ''interactive'', ''idle-allowed''}"

lemma parseWindow_valid: "parseWindow l i w = (ps, Some v) \<Longrightarrow> wellParsed v"
  by (auto simp: parseWindow_def Let_def wellParsed_def int64_parseDuration
      split: sum.splits if_splits option.splits)

lemma parseWindows_valid: "parseWindows l i ws = (ps, vs) \<Longrightarrow> v \<in> set vs \<Longrightarrow> wellParsed v"
proof (induction ws arbitrary: i ps vs)
  case (Cons w ws)
  then show ?case
    by (auto simp: Let_def split: prod.splits option.splits dest: parseWindow_valid)
qed simp

lemma parseLead_valid: "parseLead spec = (ps, d) \<Longrightarrow> 0 \<le> d \<and> int64 d"
  by (auto simp: parseLead_def Let_def
      split: if_splits option.splits dest: int64_parseDuration)

lemma parseSchedule_valid:
  assumes "parseSchedule l spec = Inr (lead, ws)"
  shows "0 \<le> lead" and "int64 lead" and "w \<in> set ws \<Longrightarrow> wellParsed w"
proof -
  obtain ps d qs vs where "parseLead spec = (ps, d)" "parseWindows l 0 (specWindows spec) = (qs, vs)"
    by fastforce
  with assms have "parseLead spec = (ps, lead)" "parseWindows l 0 (specWindows spec) = (qs, ws)"
    by (auto simp: parseSchedule_def Let_def split: if_splits)
  then show "0 \<le> lead" "int64 lead" "w \<in> set ws \<Longrightarrow> wellParsed w"
    using parseLead_valid parseWindows_valid by auto
qed

lemma scanWindows_Cons:
  "scanWindows lead now (w # ws) active nxt wake =
     (case scanOf lead now w of
        Inl e \<Rightarrow> Inl e
      | Inr (opn, upcoming, boundary) \<Rightarrow>
          scanWindows lead now ws (preferOpenWindow active opn)
            (if isZero nxt \<or> upcoming < nxt then upcoming else nxt)
            (earlierTime wake boundary))"
  by (simp add: scanOf_def)

declare scanWindows.simps(2) [simp del]
declare scanWindows_Cons [simp]

text \<open>The selection over all windows is one run of the shared selection loop.\<close>

definition openedBy :: "duration \<Rightarrow> time \<Rightarrow> parsedWindow \<Rightarrow> scheduledWindow list" where
  "openedBy lead now w =
     (case scanOf lead now w of Inr (Some v, _, _) \<Rightarrow> [v] | _ \<Rightarrow> [])"

lemma scanWindows_active:
  "scanWindows lead now ws active nxt wake = Inr (a, n, k) \<Longrightarrow>
     a = pick windowBetter active (concat (map (openedBy lead now) ws))"
proof (induction ws arbitrary: active nxt wake)
  case (Cons w ws)
  then obtain opn up b where sc: "scanOf lead now w = Inr (opn, up, b)"
    by (auto split: sum.splits)
  with Cons have "a = pick windowBetter (preferOpenWindow active opn) (concat (map (openedBy lead now) ws))"
    by auto
  moreover have "openedBy lead now w = (case opn of None \<Rightarrow> [] | Some v \<Rightarrow> [v])"
    using sc by (simp add: openedBy_def split: option.split)
  ultimately show ?case
    by (simp add: preferOpenWindow_pick pick_append)
qed simp

lemma scanWindows_each:
  "scanWindows lead now ws active nxt wake = Inr (a, n, k) \<Longrightarrow> w \<in> set ws \<Longrightarrow>
     \<exists>r. scanOf lead now w = Inr r"
  by (induction ws arbitrary: active nxt wake) (auto split: sum.splits)

lemma scanOf_closed:
  assumes "scanOf lead now w = Inr (opn, up, b)" "0 < now" "wellParsed w"
  shows "now < up" and "opn = scanOpened (pwState w) (pwSchedule w (pwLoc w)) now (pwDuration w) lead up"
    and "now < b" and "b \<le> up"
  using scanWindow_closed [OF assms(1) [unfolded scanOf_def] assms(2)] assms(3)
  by (auto simp: wellParsed_def)

text \<open>The wake-up is the least of the windows' boundaries.\<close>

lemma scanWindows_wake:
  assumes "scanWindows lead now ws active nxt wake = Inr (a, n, k)" "0 < now"
    and "\<And>w. w \<in> set ws \<Longrightarrow> wellParsed w" "wake = 0 \<or> now < wake"
  shows "(k = 0 \<longleftrightarrow> ws = [] \<and> wake = 0) \<and> (k = 0 \<or> now < k) \<and> (wake \<noteq> 0 \<longrightarrow> k \<le> wake) \<and>
         (\<forall>w \<in> set ws. \<forall>opn up b. scanOf lead now w = Inr (opn, up, b) \<longrightarrow> k \<le> b)"
  using assms
proof (induction ws arbitrary: active nxt wake)
  case (Cons w ws)
  obtain opn up b where sc: "scanOf lead now w = Inr (opn, up, b)"
    using Cons.prems(1) by (auto split: sum.splits)
  have b: "now < b" using scanOf_closed(3) [OF sc] Cons.prems(2,3) by simp
  have e: "now < earlierTime wake b" "earlierTime wake b \<le> b" "wake \<noteq> 0 \<longrightarrow> earlierTime wake b \<le> wake"
    using b Cons.prems(2,4) by (auto simp: earlierTime_def isZero_def)
  have "scanWindows lead now ws (preferOpenWindow active opn)
          (if isZero nxt \<or> up < nxt then up else nxt) (earlierTime wake b) = Inr (a, n, k)"
    using Cons.prems(1) sc by simp
  then have ih: "(k = 0 \<longleftrightarrow> ws = [] \<and> earlierTime wake b = 0) \<and> (k = 0 \<or> now < k) \<and>
        (earlierTime wake b \<noteq> 0 \<longrightarrow> k \<le> earlierTime wake b) \<and>
        (\<forall>w \<in> set ws. \<forall>opn up b. scanOf lead now w = Inr (opn, up, b) \<longrightarrow> k \<le> b)"
    using Cons.prems(2,3) e(1) by (intro Cons.IH) auto
  then show ?case using e Cons.prems(2) sc by auto
qed simp

lemma scanWindows_next:
  assumes "scanWindows lead now ws active nxt wake = Inr (a, n, k)" "0 < now"
    and "\<And>w. w \<in> set ws \<Longrightarrow> wellParsed w" "nxt = 0 \<or> now < nxt"
  shows "(n = 0 \<longleftrightarrow> ws = [] \<and> nxt = 0) \<and> (n = 0 \<or> now < n)"
  using assms
proof (induction ws arbitrary: active nxt wake)
  case (Cons w ws)
  obtain opn up b where sc: "scanOf lead now w = Inr (opn, up, b)"
    using Cons.prems(1) by (auto split: sum.splits)
  have b: "now < up" using scanOf_closed(1) [OF sc] Cons.prems(2,3) by simp
  let ?n = "if isZero nxt \<or> up < nxt then up else nxt"
  have "scanWindows lead now ws (preferOpenWindow active opn) ?n (earlierTime wake b) = Inr (a, n, k)"
    using Cons.prems(1) sc by simp
  then have "(n = 0 \<longleftrightarrow> ws = [] \<and> ?n = 0) \<and> (n = 0 \<or> now < n)"
    using Cons.prems(2-4) b by (intro Cons.IH) (auto simp: isZero_def)
  moreover have "?n \<noteq> 0" using b Cons.prems(2) by (auto simp: isZero_def)
  ultimately show ?case by blast
qed simp

lemma evaluateWindows_Inr:
  assumes "evaluateWindows l spec now = Inr (active, nxt, wait)" "0 < now"
  obtains lead ws k where "parseSchedule l spec = Inr (lead, ws)"
    and "scanWindows lead now ws None 0 0 = Inr (active, nxt, k)"
    and "ws = [] \<longleftrightarrow> k = 0" and "wait = (if k = 0 then 0 else timeSub k now)"
    and "k = 0 \<or> now < k" and "0 < wait \<longleftrightarrow> ws \<noteq> []"
proof -
  obtain lead ws where ps: "parseSchedule l spec = Inr (lead, ws)"
    using assms(1) by (auto simp: evaluateWindows_def split: sum.splits)
  then obtain k where sc: "scanWindows lead now ws None 0 0 = Inr (active, nxt, k)"
    and w: "wait = (if k = 0 then 0 else timeSub k now)"
    using assms(1) by (auto simp: evaluateWindows_def isZero_def Let_def split: sum.splits if_splits)
  have "(k = 0 \<longleftrightarrow> ws = []) \<and> (k = 0 \<or> now < k)"
    using scanWindows_wake [OF sc assms(2) parseSchedule_valid(3) [OF ps]] by blast
  with ps sc w that show thesis by (auto simp: timeSub_pos_iff)
qed

lemma evaluateWindows_next:
  assumes "evaluateWindows l spec now = Inr (active, nxt, wait)" "0 < now"
  shows "nxt = 0 \<or> now < nxt"
proof -
  obtain lead ws k where ps: "parseSchedule l spec = Inr (lead, ws)"
    and sc: "scanWindows lead now ws None 0 0 = Inr (active, nxt, k)"
    using evaluateWindows_Inr [OF assms] by metis
  show ?thesis
    using scanWindows_next [OF sc assms(2) parseSchedule_valid(3) [OF ps]] by blast
qed

section \<open>What an open window is\<close>

text \<open>
  The activations of a schedule, and a window that is open, or whose lead time has begun, in
  terms of them.
\<close>

definition activation :: "(time \<Rightarrow> time) \<Rightarrow> time \<Rightarrow> bool" where
  "activation f a \<longleftrightarrow> a \<noteq> 0 \<and> (\<exists>t < a. f t = a)"

definition openOrLead :: "duration \<Rightarrow> time \<Rightarrow> parsedWindow \<Rightarrow> bool" where
  "openOrLead lead now w \<longleftrightarrow>
     (\<exists>a. activation (pwSchedule w (pwLoc w)) a \<and>
          ((a \<le> now \<and> now < a + pwDuration w) \<or> (now < a \<and> a - lead \<le> now)))"

lemma activation_first:
  assumes "cronNext f" "x < f x" "f x \<noteq> 0" "activation f a" "x < a"
  shows "f x \<le> a"
proof (rule ccontr)
  assume "\<not> ?thesis"
  then have lt: "a < f x" by simp
  obtain t where t: "t < a" "f t = a" "a \<noteq> 0" using assms(4) by (auto simp: activation_def)
  show False
  proof (cases "t \<le> x")
    case True
    then have "f x = a"
      using assms(1) [unfolded cronNext_def, rule_format, of t x] t assms(5) by simp
    then show ?thesis using lt by simp
  next
    case False
    then have "f t = f x"
      using assms(1) [unfolded cronNext_def, rule_format, of x t] assms(3) t lt by simp
    then show ?thesis using t lt by simp
  qed
qed

lemma scanOf_open_iff:
  assumes sc: "scanOf lead now w = Inr (opn, up, b)" and "0 < now" "wellParsed w" "0 \<le> lead"
    and cron: "cronNext (pwSchedule w (pwLoc w))"
  shows "opn \<noteq> None \<longleftrightarrow> openOrLead lead now w"
    and "opn = Some v \<Longrightarrow> swState v = pwState w"
proof -
  let ?f = "pwSchedule w (pwLoc w)" and ?d = "pwDuration w"
  have d: "0 < ?d" "int64 ?d" using assms(3) by (auto simp: wellParsed_def)
  note cl = scanWindow_closed [OF sc [unfolded scanOf_def] assms(2) d]
  obtain c where c: "now - ?d \<le> c" "c \<le> now" "up = ?f c" using cl(3) by blast
  have up: "activation ?f up" using c cl(2) assms(2) by (auto simp: activation_def intro!: exI [of _ c])
  have neg: "now + wrap64 (- ?d) = now - ?d"
    using d by (simp add: wrap64_id int64_bounds)
  have ne: "?f (now - ?d) \<noteq> 0"
  proof
    assume z: "?f (now - ?d) = 0"
    obtain a w' where "scanLoop (pwExpr w) (pwLabel w) (pwState w) ?f now ?d (now - ?d) None 0 0 = Inr (a, w', up)"
      using sc neg by (auto simp: scanOf_def scanWindow_def Let_def split: sum.splits if_splits)
    from scanLoop_activates [OF this] z show False by (simp add: nextActivation_Inr)
  qed
  have first: "?f (now - ?d) \<le> a" if "activation ?f a" "now - ?d < a" for a
    by (rule activation_first [OF cron cl(1) ne that])
  have up_first: "up \<le> a" if "activation ?f a" "now < a" for a
    using activation_first [OF cron, of c a] c cl(2) assms(2) that by auto
  have started: "?f (now - ?d) \<le> now \<longleftrightarrow> (\<exists>a. activation ?f a \<and> a \<le> now \<and> now < a + ?d)"
  proof
    assume "?f (now - ?d) \<le> now"
    moreover have "activation ?f (?f (now - ?d))"
      using cl(1) ne by (auto simp: activation_def)
    moreover have "now < ?f (now - ?d) + ?d" using cl(1) by linarith
    ultimately show "\<exists>a. activation ?f a \<and> a \<le> now \<and> now < a + ?d" by blast
  next
    assume "\<exists>a. activation ?f a \<and> a \<le> now \<and> now < a + ?d"
    then obtain a where a: "activation ?f a" "a \<le> now" "now < a + ?d" by blast
    have "now - ?d < a" using a(3) by linarith
    with first [OF a(1)] a(2) show "?f (now - ?d) \<le> now" by simp
  qed
  have inlead: "up - lead \<le> now \<longleftrightarrow> (\<exists>a. activation ?f a \<and> now < a \<and> a - lead \<le> now)"
  proof
    assume "up - lead \<le> now"
    then show "\<exists>a. activation ?f a \<and> now < a \<and> a - lead \<le> now" using up cl(2) by blast
  next
    assume "\<exists>a. activation ?f a \<and> now < a \<and> a - lead \<le> now"
    then obtain a where a: "activation ?f a" "now < a" "a - lead \<le> now" by blast
    with up_first [OF a(1,2)] show "up - lead \<le> now" by simp
  qed
  have lead0: "lead = 0 \<Longrightarrow> \<not> up - lead \<le> now" using cl(2) by simp
  show "opn \<noteq> None \<longleftrightarrow> openOrLead lead now w"
    unfolding cl(4) scanOpened_def firstOpen_def openOrLead_def
    using started inlead lead0 assms(4) by (cases "lead = 0"; cases "?f (now - ?d) \<le> now") (simp_all, blast+)
  show "swState v = pwState w" if "opn = Some v"
    using that unfolding cl(4) scanOpened_def firstOpen_def by (auto split: if_splits)
qed

text \<open>The hypothesis on the cron library: every schedule it returns keeps \<^verbatim>\<open>cronNext\<close>.\<close>

definition cronOk :: "lib \<Rightarrow> bool" where
  "cronOk l \<longleftrightarrow> (\<forall>expr s loc. libCron l expr = Inr s \<longrightarrow> cronNext (s loc))"

lemma parseWindow_cron: "cronOk l \<Longrightarrow> parseWindow l i w = (ps, Some v) \<Longrightarrow> cronNext (pwSchedule v (pwLoc v))"
  by (auto simp: parseWindow_def Let_def cronOk_def split: sum.splits if_splits)

lemma parseWindows_cron:
  "cronOk l \<Longrightarrow> parseWindows l i ws = (ps, vs) \<Longrightarrow> v \<in> set vs \<Longrightarrow> cronNext (pwSchedule v (pwLoc v))"
proof (induction ws arbitrary: i ps vs)
  case (Cons w ws)
  then show ?case
    by (auto simp: Let_def split: prod.splits option.splits dest: parseWindow_cron)
qed simp

lemma parseSchedule_cron:
  assumes "cronOk l" "parseSchedule l spec = Inr (lead, ws)" "w \<in> set ws"
  shows "cronNext (pwSchedule w (pwLoc w))"
proof -
  obtain qs vs where "parseWindows l 0 (specWindows spec) = (qs, vs)" by fastforce
  with assms(2) have "parseWindows l 0 (specWindows spec) = (qs, ws)"
    by (auto simp: parseSchedule_def Let_def split: if_splits prod.splits)
  with assms(1,3) show ?thesis using parseWindows_cron by blast
qed

lemma scanWindows_later:
  assumes "scanWindows lead now ws active nxt wake = Inr (a, n, k)"
    and "\<And>w. w \<in> set ws \<Longrightarrow> wellParsed w" "\<And>w. w \<in> set ws \<Longrightarrow> cronNext (pwSchedule w (pwLoc w))"
    and "0 < now" "now \<le> now'"
    and "\<And>w opn up b. w \<in> set ws \<Longrightarrow> scanOf lead now w = Inr (opn, up, b) \<Longrightarrow> now' < b"
  shows "scanWindows lead now' ws active nxt wake = Inr (a, n, k)"
  using assms
proof (induction ws arbitrary: active nxt wake)
  case (Cons w ws)
  obtain opn up b where sc: "scanOf lead now w = Inr (opn, up, b)"
    using Cons.prems(1) by (auto split: sum.splits)
  have w: "wellParsed w" "cronNext (pwSchedule w (pwLoc w))" "now' < b"
    using Cons.prems(2,3) Cons.prems(6) [OF _ sc] by auto
  then have sc': "scanOf lead now' w = Inr (opn, up, b)"
    using scanWindow_later [OF sc [unfolded scanOf_def] w(2) Cons.prems(4) _ _ Cons.prems(5)]
    by (simp add: scanOf_def wellParsed_def)
  have "scanWindows lead now ws (preferOpenWindow active opn)
          (if isZero nxt \<or> up < nxt then up else nxt) (earlierTime wake b) = Inr (a, n, k)"
    using Cons.prems(1) sc by simp
  then have "scanWindows lead now' ws (preferOpenWindow active opn)
          (if isZero nxt \<or> up < nxt then up else nxt) (earlierTime wake b) = Inr (a, n, k)"
  proof (rule Cons.IH)
    show "now' < b" if "v \<in> set ws" "scanOf lead now v = Inr (opn, up, b)" for v opn up b
      using Cons.prems(6) [OF _ that(2)] that(1) by simp
  qed (use Cons.prems(2-5) in auto)
  then show ?case using sc' by simp
qed simp

text \<open>Until the requeue, an evaluation gives the same window, and counts the wait down.\<close>

lemma evaluateWindows_later:
  assumes "evaluateWindows l spec now = Inr (active, nxt, wait)" "0 < now"
    and "cronOk l" "now \<le> now'" "wait = 0 \<or> now' - now < wait"
  shows "\<exists>wait'. evaluateWindows l spec now' = Inr (active, nxt, wait') \<and>
           (wait = 0 \<longleftrightarrow> wait' = 0) \<and> (wait \<noteq> 0 \<longrightarrow> wait - (now' - now) \<le> wait')"
proof -
  obtain lead ws k where ps: "parseSchedule l spec = Inr (lead, ws)"
    and sc: "scanWindows lead now ws None 0 0 = Inr (active, nxt, k)"
    and k: "ws = [] \<longleftrightarrow> k = 0" "wait = (if k = 0 then 0 else timeSub k now)" "k = 0 \<or> now < k"
    using evaluateWindows_Inr [OF assms(1,2)] by metis
  have le: "timeSub k now \<le> k - now" if "k \<noteq> 0"
    using that k(3) by (intro timeSub_le) simp
  have pos: "0 < timeSub k now" if "k \<noteq> 0" using that k(3) by (simp add: timeSub_pos_iff)
  have before: "now' < k" if "k \<noteq> 0"
    using le [OF that] pos [OF that] assms(5) that k(2) by auto
  have sc': "scanWindows lead now' ws None 0 0 = Inr (active, nxt, k)"
  proof (cases "k = 0")
    case True
    with k(1) sc show ?thesis by simp
  next
    case False
    have "now' < b" if "w \<in> set ws" "scanOf lead now w = Inr (opn, up, b)" for w opn up b
      using scanWindows_wake [OF sc assms(2) parseSchedule_valid(3) [OF ps]] that before [OF False] by fastforce
    then show ?thesis
      using parseSchedule_valid(3) [OF ps] parseSchedule_cron [OF assms(3) ps] assms(2,4)
      by (intro scanWindows_later [OF sc]) auto
  qed
  have drop: "timeSub k now - (now' - now) \<le> timeSub k now'" if "k \<noteq> 0"
    using that assms(4) by (auto simp: timeSub_def maxInt64_def minInt64_def)
  have pos': "0 < timeSub k now'" if "k \<noteq> 0" using before [OF that] by (simp add: timeSub_pos_iff)
  have "evaluateWindows l spec now' = Inr (active, nxt, if k = 0 then 0 else timeSub k now')"
    using ps sc' pos' by (cases "k = 0") (simp_all add: evaluateWindows_def isZero_def Let_def not_le)
  then show ?thesis
    using k(2) drop pos pos' by (cases "k = 0") force+
qed

text \<open>The window that counts is the strongest of those that are open or in their lead time.\<close>

lemma evaluateWindows_strongest:
  assumes "evaluateWindows l spec now = Inr (active, nxt, wait)" "parseSchedule l spec = Inr (lead, ws)"
    and "0 < now" "cronOk l"
  shows "active = None \<longleftrightarrow> (\<forall>w \<in> set ws. \<not> openOrLead lead now w)"
    and "active = Some v \<Longrightarrow> \<exists>w \<in> set ws. openOrLead lead now w \<and> swState v = pwState w"
    and "active = Some v \<Longrightarrow> w \<in> set ws \<Longrightarrow> openOrLead lead now w \<Longrightarrow>
           windowRank (pwState w) \<le> windowRank (swState v)"
proof -
  obtain k where sc: "scanWindows lead now ws None 0 0 = Inr (active, nxt, k)"
    using evaluateWindows_Inr [OF assms(1,3)] assms(2) by (metis sum.inject(2) prod.inject)
  have act: "active = pick windowBetter None (concat (map (openedBy lead now) ws))"
    by (rule scanWindows_active [OF sc])
  have ob: "openedBy lead now w = [] \<longleftrightarrow> \<not> openOrLead lead now w"
    "v \<in> set (openedBy lead now w) \<Longrightarrow> swState v = pwState w" if "w \<in> set ws" for w v
  proof -
    obtain opn up b where r: "scanOf lead now w = Inr (opn, up, b)"
      using scanWindows_each [OF sc \<open>w \<in> set ws\<close>] by auto
    have "wellParsed w" "0 \<le> lead" "cronNext (pwSchedule w (pwLoc w))"
      using parseSchedule_valid [OF assms(2)] parseSchedule_cron [OF assms(4,2)] that by auto
    note o = scanOf_open_iff [OF r assms(3) this]
    show "openedBy lead now w = [] \<longleftrightarrow> \<not> openOrLead lead now w"
      using o(1) r by (auto simp: openedBy_def split: option.split)
    show "swState v = pwState w" if "v \<in> set (openedBy lead now w)"
      using that o(2) r by (auto simp: openedBy_def split: option.splits)
  qed
  show "active = None \<longleftrightarrow> (\<forall>w \<in> set ws. \<not> openOrLead lead now w)"
    unfolding act pick_None_iff using ob(1) by auto
  show "\<exists>w \<in> set ws. openOrLead lead now w \<and> swState v = pwState w" if "active = Some v"
    using open_window.pick_maximal(1) [OF act [symmetric, unfolded that]] ob by fastforce
  show "windowRank (pwState w) \<le> windowRank (swState v)"
    if "active = Some v" "w \<in> set ws" "openOrLead lead now w"
  proof -
    note prem = that
    obtain x where x: "x \<in> set (openedBy lead now w)"
      using ob(1) [OF prem(2)] prem(3) by (cases "openedBy lead now w") auto
    then have "\<not> windowBetter x v"
      using open_window.pick_maximal(2) [OF act [symmetric, unfolded prem(1)]] x prem(2) by auto
    then show ?thesis using ob(2) [OF prem(2) x] by (auto simp: windowBetter_def)
  qed
qed

text \<open>A schedule is accepted exactly when every field of it can be evaluated.\<close>

definition windowFieldsOk :: "lib \<Rightarrow> AvailabilityWindow \<Rightarrow> bool" where
  "windowFieldsOk l w \<longleftrightarrow>
     (\<exists>s. libCron l (awSchedule w) = Inr s) \<and>
     (\<exists>d > 0. parseDuration (awDuration w) = Some d) \<and>
     awState w \<in> {''game'', ''interactive'', ''idle-allowed''} \<and>
     (awTimeZone w = '''' \<or> libLocError l (awTimeZone w) = None)"

definition leadOk :: "NodeActivitySpec \<Rightarrow> bool" where
  "leadOk spec \<longleftrightarrow>
     specLeadTime spec = '''' \<or> (\<exists>d \<ge> 0. parseDuration (specLeadTime spec) = Some d)"

lemma parseWindow_ok: "fst (parseWindow l i w) = [] \<longleftrightarrow> windowFieldsOk l w"
  by (cases "libCron l (awSchedule w)"; cases "parseDuration (awDuration w)"; cases "libLocError l (awTimeZone w)")
     (auto simp: parseWindow_def Let_def windowFieldsOk_def)

lemma parseWindows_ok: "fst (parseWindows l i ws) = [] \<longleftrightarrow> (\<forall>w \<in> set ws. windowFieldsOk l w)"
proof (induction ws arbitrary: i)
  case (Cons w ws)
  show ?case
    using Cons.IH [of "Suc i"] parseWindow_ok [of l i w]
    by (auto simp: Let_def split: prod.splits)
qed simp

lemma parseLead_ok: "fst (parseLead spec) = [] \<longleftrightarrow> leadOk spec"
  by (auto simp: parseLead_def leadOk_def Let_def split: option.splits)

lemma validateSchedule_None_iff:
  "validateSchedule l spec = None \<longleftrightarrow> leadOk spec \<and> (\<forall>w \<in> set (specWindows spec). windowFieldsOk l w)"
  using parseLead_ok [of spec] parseWindows_ok [of l 0 "specWindows spec"]
  by (auto simp: validateSchedule_def parseSchedule_def Let_def split: prod.splits)

end
