(* ===== verification/Policy.thy ===== *)
theory Policy
  imports Heartbeat Windows
begin

text \<open>
  The policy of \<open>internal/controller/nodeactivity_controller.go\<close>: validation of the taint policy,
  and \<open>decidePolicy\<close>, which turns one enrollment's status, hold annotation and windows into the
  managed taint, the admission reason and the next instant the decision can change by itself.
  \<open>decidePolicy\<close> of the source returns an error that is always nil; here it returns its
  decision.  The RFC 3339 parse of the hold-start annotation is the argument \<open>parseTime\<close> of the
  definitions that read it.
\<close>

section \<open>Constants\<close>

datatype AdmissionReason =
    NoReason
  | FreshIdle
  | ActiveGame
  | ActiveInteractive
  | AvailabilityHold
  | ScheduledGame
  | ScheduledInteractive
  | ScheduledIdle
  | StaleHeartbeat
  | MissingHeartbeat
  | InvalidHeartbeat
  | InvalidSchedule
  | UnknownStateReason
  | StaleStateReason
  | UnsupportedActivity
  | UnsupportedState
  | NodeNotFoundReason
  | InvalidEnrollment

fun reasonString :: "AdmissionReason \<Rightarrow> string" where
  "reasonString NoReason = ''''"
| "reasonString FreshIdle = ''fresh-idle''"
| "reasonString ActiveGame = ''active-game''"
| "reasonString ActiveInteractive = ''active-interactive''"
| "reasonString AvailabilityHold = ''availability-hold''"
| "reasonString ScheduledGame = ''scheduled-game''"
| "reasonString ScheduledInteractive = ''scheduled-interactive''"
| "reasonString ScheduledIdle = ''scheduled-idle''"
| "reasonString StaleHeartbeat = ''stale-heartbeat''"
| "reasonString MissingHeartbeat = ''missing-heartbeat''"
| "reasonString InvalidHeartbeat = ''invalid-heartbeat''"
| "reasonString InvalidSchedule = ''invalid-schedule''"
| "reasonString UnknownStateReason = ''unknown-state''"
| "reasonString StaleStateReason = ''stale-state''"
| "reasonString UnsupportedActivity = ''unsupported-activity''"
| "reasonString UnsupportedState = ''unsupported-state''"
| "reasonString NodeNotFoundReason = ''node-not-found''"
| "reasonString InvalidEnrollment = ''invalid-enrollment''"

datatype TransitionKind = NoTransition | HeartbeatTransition | HoldTransition | WindowTransition

fun transitionString :: "TransitionKind \<Rightarrow> string" where
  "transitionString NoTransition = ''''"
| "transitionString HeartbeatTransition = ''heartbeat''"
| "transitionString HoldTransition = ''hold''"
| "transitionString WindowTransition = ''window''"

definition HoldAnnotation :: string where
  "HoldAnnotation = ''availability.interactive-node.io/hold''"

definition holdStartAnnotation :: string where
  "holdStartAnnotation = ''availability.interactive-node.io/hold-start''"

lemma hold_annotations_distinct [simp]:
  "HoldAnnotation \<noteq> holdStartAnnotation" "holdStartAnnotation \<noteq> HoldAnnotation"
  by (simp_all add: HoldAnnotation_def holdStartAnnotation_def)

section \<open>Validation of the taint policy\<close>

text \<open>
  \<open>validation.IsQualifiedName\<close> belongs to the Kubernetes API machinery: \<open>qualified\<close> returns its
  messages, none for a qualified name.
\<close>

definition validatePolicy :: "(string \<Rightarrow> string list) \<Rightarrow> TaintPolicy \<Rightarrow> msg option" where
  "validatePolicy qualified p =
     (if trimSpace (polKey p) = '''' \<or> containsAny (polKey p) [CHR 0x20, CHR 0x09, CHR 0x0A]
      then Some [Lit ''taint key is required and cannot contain whitespace'']
      else if polInteractiveValue p = '''' \<or> polActiveValue p = '''' \<or> polFailClosedValue p = ''''
      then Some [Lit ''all taint values are required'']
      else if polStaleAfter p \<le> 0 then Some [Lit ''stale-after must be positive'']
      else if polHeartbeatSkew p < 0 then Some [Lit ''heartbeat-skew must not be negative'']
      else if effectiveHeartbeatSkew p \<ge> polStaleAfter p
      then Some [Lit ''heartbeat-skew '', FDur (effectiveHeartbeatSkew p),
                 Lit '' must be less than stale-after '', FDur (polStaleAfter p)]
      else if polBurstTaintKey p = '''' then None
      else if containsAny (polBurstTaintKey p) [CHR 0x20, CHR 0x09, CHR 0x0D, CHR 0x0A]
      then Some [Lit ''burst taint key '', FQuoted (polBurstTaintKey p), Lit '' cannot contain whitespace'']
      else if qualified (polBurstTaintKey p) \<noteq> []
      then Some (Lit ''burst taint key '' # FQuoted (polBurstTaintKey p) # Lit '' is invalid: '' #
                 joinMsgs (map (\<lambda>m. [FStr m]) (qualified (polBurstTaintKey p))))
      else if polBurstTaintKey p = polKey p
      then Some [Lit ''burst taint key '', FQuoted (polBurstTaintKey p),
                 Lit '' collides with the primary taint key'']
      else None)"

section \<open>The decision for one enrollment\<close>

record policyDecision =
  pdTaint :: "Taint option"
  pdMessage :: msg
  pdAdmissionReason :: AdmissionReason
  pdRequeueAfter :: duration
  pdScheduled :: bool
  pdNextWindow :: time
  pdNextTransition :: time
  pdTransitionReason :: TransitionKind

record transitionCandidate =
  tcAt :: time
  tcKind :: TransitionKind

definition zeroDecision :: policyDecision where
  "zeroDecision =
     \<lparr>pdTaint = None, pdMessage = [], pdAdmissionReason = NoReason, pdRequeueAfter = 0,
      pdScheduled = False, pdNextWindow = 0, pdNextTransition = 0, pdTransitionReason = NoTransition\<rparr>"

definition noCandidate :: transitionCandidate where
  "noCandidate = \<lparr>tcAt = 0, tcKind = NoTransition\<rparr>"

fun earliestFrom ::
    "time \<Rightarrow> time \<times> TransitionKind \<Rightarrow> transitionCandidate list \<Rightarrow> time \<times> TransitionKind" where
  "earliestFrom now best [] = best"
| "earliestFrom now (best, kind) (c # cs) =
     (if isZero (tcAt c) \<or> \<not> tcAt c > now \<or> tcKind c = NoTransition
      then earliestFrom now (best, kind) cs
      else if isZero best \<or> tcAt c < best
      then earliestFrom now (tcAt c, tcKind c) cs
      else earliestFrom now (best, kind) cs)"

definition earliestTransition :: "time \<Rightarrow> transitionCandidate list \<Rightarrow> time \<times> TransitionKind" where
  "earliestTransition now candidates = earliestFrom now (0, NoTransition) candidates"

definition minPositive :: "duration \<Rightarrow> duration \<Rightarrow> duration" where
  "minPositive a b = (if a \<le> 0 then b else if b \<le> 0 \<or> a < b then a else b)"

definition holdExpiry :: "(string \<Rightarrow> time option) \<Rightarrow> NodeActivity \<Rightarrow> time" where
  "holdExpiry parseTime activity =
     (if mapGet (naAnnotations activity) HoldAnnotation = '''' then 0
      else case parseDuration (mapGet (naAnnotations activity) HoldAnnotation) of
        None \<Rightarrow> 0
      | Some duration \<Rightarrow>
          if duration \<le> 0 then 0
          else case parseTime (mapGet (naAnnotations activity) holdStartAnnotation) of
            None \<Rightarrow> 0
          | Some start \<Rightarrow> start + duration)"

definition failClosed :: "TaintPolicy \<Rightarrow> msg \<Rightarrow> Taint option \<times> msg \<times> duration" where
  "failClosed p message =
     (if \<not> polFailClosed p
      then (None, message @ [Lit ''; fail-closed disabled''], polStaleAfter p)
      else (Some (mkTaint (polKey p) (polFailClosedValue p) NoSchedule),
            message @ [Lit ''; fail-closed taint applied''], polStaleAfter p))"

definition activeTaint :: "TaintPolicy \<Rightarrow> Taint" where
  "activeTaint p = mkTaint (polKey p) (polActiveValue p) NoSchedule"

definition interactiveTaint :: "TaintPolicy \<Rightarrow> Taint" where
  "interactiveTaint p = mkTaint (polKey p) (polInteractiveValue p) PreferNoSchedule"

definition failClosedTaint :: "TaintPolicy \<Rightarrow> Taint" where
  "failClosedTaint p = mkTaint (polKey p) (polFailClosedValue p) NoSchedule"

text \<open>The branch for a heartbeat that is not fresh.\<close>

definition decideStale ::
    "TaintPolicy \<Rightarrow> NodeActivity \<Rightarrow> time \<Rightarrow> duration \<Rightarrow> policyDecision \<Rightarrow> policyDecision" where
  "decideStale p activity now windowWait decision =
     (let skew = effectiveHeartbeatSkew p;
          hb = stHeartbeatAt (naStatus activity);
          verdict = heartbeatFreshness hb now (polStaleAfter p) skew;
          base = (if hvFuture verdict then futureHeartbeatMessage hb skew
                  else [Lit ''host heartbeat is missing or stale'']);
          reason = (if hvFuture verdict then InvalidHeartbeat
                    else if hvMissing verdict then MissingHeartbeat
                    else StaleHeartbeat);
          (taint, message, delay0) = failClosed p base;
          plausibleAt = hb + wrap64 (- skew);
          delay = (if hvFuture verdict then minPositive (timeSub plausibleAt now) delay0 else delay0);
          (nextT, kind) =
            (if hvFuture verdict
             then earliestTransition now [\<lparr>tcAt = plausibleAt, tcKind = HeartbeatTransition\<rparr>]
             else (pdNextTransition decision, pdTransitionReason decision))
      in decision\<lparr>pdTaint := taint, pdMessage := message,
           pdRequeueAfter := minPositive delay windowWait, pdAdmissionReason := reason,
           pdNextTransition := nextT, pdTransitionReason := kind\<rparr>)"

definition decideHold ::
    "TaintPolicy \<Rightarrow> time \<Rightarrow> time \<Rightarrow> duration \<Rightarrow> transitionCandidate \<Rightarrow> policyDecision \<Rightarrow> policyDecision" where
  "decideHold p now holdUntil remaining heartbeat decision =
     (let (nextT, kind) =
            earliestTransition now [heartbeat, \<lparr>tcAt = holdUntil, tcKind = HoldTransition\<rparr>]
      in decision\<lparr>pdTaint := Some (interactiveTaint p),
           pdMessage := [Lit ''time-boxed availability hold''],
           pdAdmissionReason := AvailabilityHold,
           pdRequeueAfter := minPositive remaining (timeSub holdUntil now),
           pdNextTransition := nextT, pdTransitionReason := kind\<rparr>)"

text \<open>\<open>case availabilityv1alpha1.StateIdle\<close>\<close>

definition decideIdle ::
    "TaintPolicy \<Rightarrow> (string \<Rightarrow> time option) \<Rightarrow> NodeActivity \<Rightarrow> time \<Rightarrow> scheduledWindow option \<Rightarrow>
     bool \<Rightarrow> duration \<Rightarrow> duration \<Rightarrow> transitionCandidate \<Rightarrow> transitionCandidate \<Rightarrow>
     policyDecision \<Rightarrow> policyDecision" where
  "decideIdle p parseTime activity now window windowErr windowWait remaining heartbeat windowBoundary decision =
     (let holdUntil = holdExpiry parseTime activity
      in if holdUntil > now then decideHold p now holdUntil remaining heartbeat decision
         else case window of
           Some w \<Rightarrow>
             let (nextT, kind) = earliestTransition now [heartbeat, windowBoundary];
                 d = decision\<lparr>pdScheduled := True,
                       pdRequeueAfter := minPositive remaining windowWait,
                       pdNextTransition := nextT, pdTransitionReason := kind\<rparr>
             in if swState w = ''game''
                then d\<lparr>pdTaint := Some (activeTaint p), pdMessage := [Lit ''scheduled game window''],
                       pdAdmissionReason := ScheduledGame\<rparr>
                else if swState w = ''interactive''
                then d\<lparr>pdTaint := Some (interactiveTaint p),
                       pdMessage := [Lit ''scheduled interactive window''],
                       pdAdmissionReason := ScheduledInteractive\<rparr>
                else d\<lparr>pdMessage := [Lit ''scheduled idle-allowed window''],
                       pdAdmissionReason := ScheduledIdle\<rparr>
         | None \<Rightarrow>
             if windowErr
             then let (taint, message, delay) = failClosed p [Lit ''availability schedule is invalid''];
                      (nextT, kind) =
                        (if taint = None then earliestTransition now [heartbeat]
                         else (pdNextTransition decision, pdTransitionReason decision))
                  in decision\<lparr>pdTaint := taint, pdMessage := message,
                       pdAdmissionReason := InvalidSchedule,
                       pdRequeueAfter := minPositive delay windowWait,
                       pdNextTransition := nextT, pdTransitionReason := kind\<rparr>
             else let (nextT, kind) = earliestTransition now [heartbeat, windowBoundary]
                  in decision\<lparr>pdMessage := [Lit ''host is idle; managed taint removed''],
                       pdAdmissionReason := FreshIdle,
                       pdRequeueAfter := minPositive remaining windowWait,
                       pdNextTransition := nextT, pdTransitionReason := kind\<rparr>)"

text \<open>\<open>case availabilityv1alpha1.StateActive\<close>\<close>

definition decideActive ::
    "TaintPolicy \<Rightarrow> (string \<Rightarrow> time option) \<Rightarrow> NodeActivity \<Rightarrow> time \<Rightarrow> scheduledWindow option \<Rightarrow>
     duration \<Rightarrow> duration \<Rightarrow> transitionCandidate \<Rightarrow> transitionCandidate \<Rightarrow>
     policyDecision \<Rightarrow> policyDecision" where
  "decideActive p parseTime activity now window windowWait remaining heartbeat windowBoundary decision =
     (let holdUntil = holdExpiry parseTime activity;
          act = stActivity (naStatus activity);
          (gameT, gameKind) = earliestTransition now [heartbeat];
          (bothT, bothKind) = earliestTransition now [heartbeat, windowBoundary]
      in if act = ActivityGame
         then decision\<lparr>pdTaint := Some (activeTaint p),
                pdMessage := [Lit ''host is running an active game''],
                pdAdmissionReason := ActiveGame,
                pdRequeueAfter := minPositive remaining windowWait,
                pdNextTransition := gameT, pdTransitionReason := gameKind\<rparr>
         else if holdUntil > now then decideHold p now holdUntil remaining heartbeat decision
         else if window \<noteq> None \<and>
                 (swState (the window) = ''game'' \<or> swState (the window) = ''idle-allowed'')
         then let d = decision\<lparr>pdScheduled := True,
                        pdRequeueAfter := minPositive remaining windowWait,
                        pdNextTransition := bothT, pdTransitionReason := bothKind\<rparr>
              in if swState (the window) = ''game''
                 then d\<lparr>pdTaint := Some (activeTaint p), pdMessage := [Lit ''scheduled game window''],
                        pdAdmissionReason := ScheduledGame\<rparr>
                 else d\<lparr>pdMessage := [Lit ''scheduled idle-allowed window''],
                        pdAdmissionReason := ScheduledIdle\<rparr>
         else if act = ActivityInteractive
         then decision\<lparr>pdTaint := Some (interactiveTaint p),
                pdMessage := [Lit ''host is interactive''],
                pdAdmissionReason := ActiveInteractive,
                pdRequeueAfter := minPositive remaining windowWait,
                pdNextTransition := bothT, pdTransitionReason := bothKind\<rparr>
         else let (taint, message, delay) = failClosed p [Lit ''active state has an unsupported activity'']
              in decision\<lparr>pdTaint := taint, pdMessage := message,
                   pdAdmissionReason := UnsupportedActivity,
                   pdRequeueAfter := minPositive delay windowWait\<rparr>)"

text \<open>The two cases that fail closed on the reported state alone.\<close>

definition decideUnknown ::
    "TaintPolicy \<Rightarrow> msg \<Rightarrow> AdmissionReason \<Rightarrow> duration \<Rightarrow> policyDecision \<Rightarrow> policyDecision" where
  "decideUnknown p base reason windowWait decision =
     (let (taint, message, delay) = failClosed p base
      in decision\<lparr>pdTaint := taint, pdMessage := message, pdAdmissionReason := reason,
           pdRequeueAfter := minPositive delay windowWait\<rparr>)"

definition decidePolicy ::
    "lib \<Rightarrow> TaintPolicy \<Rightarrow> (string \<Rightarrow> time option) \<Rightarrow> NodeActivity \<Rightarrow> time \<Rightarrow> policyDecision" where
  "decidePolicy l p parseTime activity now =
     (let (window, nextWindow, windowWait, windowErr) =
            (case evaluateWindows l (naSpec activity) now of
               Inl _ \<Rightarrow> (None, 0, 0, True)
             | Inr (w, n, wait) \<Rightarrow> (w, n, wait, False));
          decision = zeroDecision\<lparr>pdNextWindow := nextWindow\<rparr>;
          windowBoundary =
            (if windowWait > 0 then \<lparr>tcAt = now + windowWait, tcKind = WindowTransition\<rparr> else noCandidate);
          hb = stHeartbeatAt (naStatus activity);
          verdict = heartbeatFreshness hb now (polStaleAfter p) (effectiveHeartbeatSkew p)
      in if \<not> hvFresh verdict then decideStale p activity now windowWait decision
         else
           let heartbeatDeadline = hb + polStaleAfter p;
               remaining0 = timeSub heartbeatDeadline now;
               remaining = (if remaining0 \<le> 0 then second else remaining0);
               heartbeat = \<lparr>tcAt = heartbeatDeadline, tcKind = HeartbeatTransition\<rparr>;
               st = stState (naStatus activity)
           in if st = StateIdle
              then decideIdle p parseTime activity now window windowErr windowWait remaining
                     heartbeat windowBoundary decision
              else if st = StateActive
              then decideActive p parseTime activity now window windowWait remaining
                     heartbeat windowBoundary decision
              else if st = StateUnknown \<or> st = StateStale
              then decideUnknown p [Lit ''host state is unknown or stale'']
                     (if st = StateStale then StaleStateReason else UnknownStateReason) windowWait decision
              else decideUnknown p [Lit ''host reported an unsupported state''] UnsupportedState
                     windowWait decision)"

text \<open>\<open>desiredTaint\<close> returns five fields of the decision (and the nil error).\<close>

definition desiredTaint ::
    "lib \<Rightarrow> TaintPolicy \<Rightarrow> (string \<Rightarrow> time option) \<Rightarrow> NodeActivity \<Rightarrow> time \<Rightarrow>
     Taint option \<times> msg \<times> duration \<times> bool \<times> time" where
  "desiredTaint l p parseTime activity now =
     (let d = decidePolicy l p parseTime activity now
      in (pdTaint d, pdMessage d, pdRequeueAfter d, pdScheduled d, pdNextWindow d))"

section \<open>Lemmas\<close>

lemma zeroDecision_sel [simp]:
  "pdTaint zeroDecision = None" "pdMessage zeroDecision = []"
  "pdAdmissionReason zeroDecision = NoReason" "pdRequeueAfter zeroDecision = 0"
  "\<not> pdScheduled zeroDecision" "pdNextWindow zeroDecision = 0" "pdNextTransition zeroDecision = 0"
  "pdTransitionReason zeroDecision = NoTransition"
  by (simp_all add: zeroDecision_def)

lemma reasonString_inject: "reasonString a = reasonString b \<longleftrightarrow> a = b"
  by (cases a; cases b) simp_all

lemma failClosed_eq:
  "failClosed p m =
     (if polFailClosed p then Some (failClosedTaint p) else None,
      m @ [Lit (if polFailClosed p then ''; fail-closed taint applied'' else ''; fail-closed disabled'')],
      polStaleAfter p)"
  by (simp add: failClosed_def failClosedTaint_def)

text \<open>What an accepted policy guarantees of its fields.\<close>

definition policyOk :: "TaintPolicy \<Rightarrow> bool" where
  "policyOk p \<longleftrightarrow>
     int64 (polStaleAfter p) \<and> int64 (polHeartbeatSkew p) \<and> 0 \<le> polHeartbeatSkew p \<and>
     0 < polStaleAfter p \<and> effectiveHeartbeatSkew p < polStaleAfter p"

lemma validatePolicy_ok:
  "validatePolicy q p = None \<Longrightarrow> int64 (polStaleAfter p) \<Longrightarrow> int64 (polHeartbeatSkew p) \<Longrightarrow> policyOk p"
  by (auto simp: validatePolicy_def policyOk_def split: if_splits)

lemma policyOk_bounds:
  assumes "policyOk p"
  shows "int64 (effectiveHeartbeatSkew p)" "0 \<le> effectiveHeartbeatSkew p"
    "int64 (polStaleAfter p)" "0 < polStaleAfter p"
  using assms effectiveHeartbeatSkew_pos [of p, THEN less_imp_le] int64_effectiveHeartbeatSkew [of p]
  by (simp_all add: policyOk_def)

definition verdict :: "TaintPolicy \<Rightarrow> NodeActivity \<Rightarrow> time \<Rightarrow> heartbeatVerdict" where
  "verdict p a now =
     heartbeatFreshness (stHeartbeatAt (naStatus a)) now (polStaleAfter p) (effectiveHeartbeatSkew p)"

lemma verdict_iffs:
  assumes "policyOk p"
  defines "hb \<equiv> \<lambda>a. stHeartbeatAt (naStatus a)"
  shows "hvMissing (verdict p a now) \<longleftrightarrow> hb a = 0"
    and "hvFuture (verdict p a now) \<longleftrightarrow> hb a \<noteq> 0 \<and> effectiveHeartbeatSkew p < hb a - now"
    and "hvExpired (verdict p a now) \<longleftrightarrow> hb a \<noteq> 0 \<and> polStaleAfter p \<le> now - hb a"
    and "hvFresh (verdict p a now) \<longleftrightarrow>
           hb a \<noteq> 0 \<and> now - hb a < polStaleAfter p \<and> hb a - now \<le> effectiveHeartbeatSkew p"
  using policyOk_bounds [OF assms(1)]
  by (simp_all add: verdict_def freshness_iffs hb_def isZero_def)

lemma minPositive_bounds:
  assumes "0 < a"
  shows "0 < minPositive a b" "minPositive a b \<le> a" "0 < b \<Longrightarrow> minPositive a b \<le> b"
  using assms by (auto simp: minPositive_def)

text \<open>The next transition is another run of the selection loop.\<close>

definition sooner :: "transitionCandidate \<Rightarrow> transitionCandidate \<Rightarrow> bool" where
  "sooner a b \<longleftrightarrow> tcAt a < tcAt b"

interpretation sooner: strict_pref sooner
  by unfold_locales (auto simp: sooner_def)

definition eligible :: "time \<Rightarrow> transitionCandidate \<Rightarrow> bool" where
  "eligible now c \<longleftrightarrow> tcAt c \<noteq> 0 \<and> now < tcAt c \<and> tcKind c \<noteq> NoTransition"

definition ofCandidate :: "transitionCandidate option \<Rightarrow> time \<times> TransitionKind" where
  "ofCandidate c = (case c of None \<Rightarrow> (0, NoTransition) | Some c \<Rightarrow> (tcAt c, tcKind c))"

lemma earliestFrom_pick:
  "(\<forall>c. cur = Some c \<longrightarrow> eligible now c) \<Longrightarrow>
     earliestFrom now (ofCandidate cur) cs = ofCandidate (pick sooner cur (filter (eligible now) cs))"
proof (induction cs arbitrary: cur)
  case (Cons c cs)
  obtain b k where bk: "ofCandidate cur = (b, k)" by fastforce
  show ?case
  proof (cases "eligible now c")
    case False
    then show ?thesis
      using Cons.IH [OF Cons.prems] bk by (auto simp: eligible_def isZero_def)
  next
    case True
    have "earliestFrom now (ofCandidate cur) (c # cs) = earliestFrom now (ofCandidate (pickStep sooner cur c)) cs"
      using True Cons.prems
      by (cases cur) (auto simp: ofCandidate_def pickStep_def sooner_def eligible_def isZero_def)
    moreover have "\<forall>x. pickStep sooner cur c = Some x \<longrightarrow> eligible now x"
      using True Cons.prems by (cases cur) (auto simp: pickStep_def)
    ultimately show ?thesis using True Cons.IH by simp
  qed
qed simp

lemma earliestTransition_spec:
  assumes "earliestTransition now cs = (t, k)"
  shows "(t = 0 \<and> k = NoTransition \<and> (\<forall>c \<in> set cs. \<not> eligible now c)) \<or>
         (now < t \<and> (\<exists>c \<in> set cs. eligible now c \<and> t = tcAt c \<and> k = tcKind c) \<and>
          (\<forall>c \<in> set cs. eligible now c \<longrightarrow> t \<le> tcAt c))"
proof -
  let ?es = "filter (eligible now) cs"
  have tk: "(t, k) = ofCandidate (pick sooner None ?es)"
    using assms earliestFrom_pick [of None now cs] by (simp add: earliestTransition_def ofCandidate_def)
  show ?thesis
  proof (cases "pick sooner None ?es")
    case None
    then have "?es = []" by simp
    with tk None show ?thesis by (auto simp: ofCandidate_def filter_empty_conv)
  next
    case (Some c)
    note m = sooner.pick_maximal [OF Some]
    have c: "c \<in> set cs" "eligible now c" using m(1) by auto
    moreover have "t \<le> tcAt x" if "x \<in> set cs" "eligible now x" for x
      using m(2) [of x] that tk Some by (simp add: sooner_def ofCandidate_def)
    ultimately show ?thesis using tk Some by (auto simp: ofCandidate_def eligible_def)
  qed
qed

section \<open>The decision table\<close>

text \<open>
  The taint a decision asks for, as a table over the abstract inputs: the freshness of the
  heartbeat, the reported state and activity, whether a hold is running, the state of the
  strongest open window, and whether the windows can be evaluated.  The rows are in the order
  of precedence.
\<close>

datatype verdictInputs =
  Inputs (inFresh: bool) (inState: State) (inActivity: Activity) (inHold: bool)
    (inWindow: "string option") (inInvalid: bool)

definition taintTable :: "TaintPolicy \<Rightarrow> verdictInputs \<Rightarrow> Taint option" where
  "taintTable p i =
     (let closed = (if polFailClosed p then Some (failClosedTaint p) else None)
      in if \<not> inFresh i then closed
         else if inState i \<noteq> StateIdle \<and> inState i \<noteq> StateActive then closed
         else if inState i = StateActive \<and> inActivity i = ActivityGame then Some (activeTaint p)
         else if inHold i then Some (interactiveTaint p)
         else if inWindow i = Some ''game'' then Some (activeTaint p)
         else if inWindow i = Some ''idle-allowed'' then None
         else if inState i = StateActive
         then (if inActivity i = ActivityInteractive then Some (interactiveTaint p) else closed)
         else if inWindow i \<noteq> None then Some (interactiveTaint p)
         else if inInvalid i then closed
         else None)"

definition inputsOf ::
    "lib \<Rightarrow> TaintPolicy \<Rightarrow> (string \<Rightarrow> time option) \<Rightarrow> NodeActivity \<Rightarrow> time \<Rightarrow> verdictInputs" where
  "inputsOf l p parseTime a now =
     Inputs (hvFresh (verdict p a now)) (stState (naStatus a)) (stActivity (naStatus a))
       (now < holdExpiry parseTime a)
       (case evaluateWindows l (naSpec a) now of
          Inr (Some w, _, _) \<Rightarrow> Some (swState w) | _ \<Rightarrow> None)
       (case evaluateWindows l (naSpec a) now of Inl _ \<Rightarrow> True | Inr _ \<Rightarrow> False)"

text \<open>Windows that evaluation returns have one of the three states.\<close>

lemma scanOf_state:
  assumes "scanOf lead now w = Inr (Some v, up, b)" "0 < now" "wellParsed w"
  shows "swState v = pwState w"
  using scanOf_closed(2) [OF assms]
  by (auto simp: scanOpened_def firstOpen_def split: if_splits)

lemma evaluateWindows_state:
  assumes "evaluateWindows l spec now = Inr (Some v, nxt, wait)" "0 < now"
  shows "swState v \<in> {''game'', ''interactive'', ''idle-allowed''}"
proof -
  obtain lead ws k where ps: "parseSchedule l spec = Inr (lead, ws)"
    and sc: "scanWindows lead now ws None 0 0 = Inr (Some v, nxt, k)"
    using evaluateWindows_Inr [OF assms] by metis
  have "v \<in> set (concat (map (openedBy lead now) ws))"
    by (rule open_window.pick_maximal(1)) (rule scanWindows_active [OF sc, symmetric])
  then obtain w where w: "w \<in> set ws" "v \<in> set (openedBy lead now w)" by auto
  then obtain up b where "scanOf lead now w = Inr (Some v, up, b)"
    by (cases "scanOf lead now w") (auto simp: openedBy_def split: option.splits)
  with scanOf_state [OF this assms(2)] parseSchedule_valid(3) [OF ps w(1)]
  show ?thesis by (simp add: wellParsed_def)
qed

lemmas decide_defs = decidePolicy_def decideStale_def decideIdle_def decideActive_def decideUnknown_def
  decideHold_def

lemma decidePolicy_stale:
  assumes "\<not> hvFresh (verdict p a now)"
  shows "pdTaint (decidePolicy l p pt a now) = (if polFailClosed p then Some (failClosedTaint p) else None)"
  using assms by (simp add: decide_defs Let_def verdict_def failClosed_eq split: prod.split)

lemma decidePolicy_taintTable:
  assumes "0 < now"
  shows "pdTaint (decidePolicy l p pt a now) = taintTable p (inputsOf l p pt a now)"
proof (cases "hvFresh (verdict p a now)")
  case False
  then show ?thesis by (simp add: decidePolicy_stale taintTable_def inputsOf_def)
next
  case True
  note fresh = True [unfolded verdict_def]
  show ?thesis
  proof (cases "evaluateWindows l (naSpec a) now")
    case (Inl e)
    then show ?thesis
      using fresh by (simp add: decide_defs Let_def taintTable_def inputsOf_def verdict_def failClosed_eq
          split: prod.split)
  next
    case (Inr r)
    obtain w n wait where r: "r = (w, n, wait)" by (cases r)
    have st: "swState v \<in> {''game'', ''interactive'', ''idle-allowed''}" if "w = Some v" for v
      using evaluateWindows_state [OF _ assms] Inr r that by blast
    show ?thesis
      using fresh Inr r st
      by (cases w) (simp_all add: decide_defs Let_def taintTable_def inputsOf_def verdict_def failClosed_eq
          split: prod.split, fastforce?)
  qed
qed

section \<open>When the decision is looked at again\<close>

lemma verdict_remaining:
  assumes "policyOk p" "hvFresh (verdict p a now)"
  defines "r \<equiv> timeSub (stHeartbeatAt (naStatus a) + polStaleAfter p) now"
  shows "0 < r" "r \<le> stHeartbeatAt (naStatus a) + polStaleAfter p - now"
    "r \<le> polStaleAfter p + effectiveHeartbeatSkew p"
proof -
  have f: "now - stHeartbeatAt (naStatus a) < polStaleAfter p"
    "stHeartbeatAt (naStatus a) - now \<le> effectiveHeartbeatSkew p"
    using assms(2) verdict_iffs(4) [OF assms(1)] by auto
  then show "0 < r" by (simp add: r_def timeSub_pos_iff)
  show "r \<le> stHeartbeatAt (naStatus a) + polStaleAfter p - now"
    unfolding r_def by (rule timeSub_le) (use f in simp)
  then show "r \<le> polStaleAfter p + effectiveHeartbeatSkew p" using f by linarith
qed

lemma verdict_plausible:
  assumes "policyOk p" "hvFuture (verdict p a now)"
  defines "r \<equiv> timeSub (stHeartbeatAt (naStatus a) + wrap64 (- effectiveHeartbeatSkew p)) now"
  shows "0 < r" "r \<le> stHeartbeatAt (naStatus a) - effectiveHeartbeatSkew p - now"
proof -
  note b = policyOk_bounds [OF assms(1)]
  have w: "wrap64 (- effectiveHeartbeatSkew p) = - effectiveHeartbeatSkew p"
    using wrap64_neg [OF b(2,1)] .
  have f: "effectiveHeartbeatSkew p < stHeartbeatAt (naStatus a) - now"
    using assms(2) verdict_iffs(2) [OF assms(1)] by auto
  then show "0 < r" by (simp add: r_def w timeSub_pos_iff)
  show "r \<le> stHeartbeatAt (naStatus a) - effectiveHeartbeatSkew p - now"
    using timeSub_le [of now "stHeartbeatAt (naStatus a) - effectiveHeartbeatSkew p"] f
    by (simp add: r_def w)
qed

text \<open>The wait for the windows, 0 when they cannot be evaluated or there are none.\<close>

definition windowWaitOf :: "lib \<Rightarrow> NodeActivity \<Rightarrow> time \<Rightarrow> duration" where
  "windowWaitOf l a now = (case evaluateWindows l (naSpec a) now of Inl _ \<Rightarrow> 0 | Inr (_, _, wait) \<Rightarrow> wait)"

definition closedInputs :: "verdictInputs \<Rightarrow> bool" where
  "closedInputs i \<longleftrightarrow>
     \<not> inFresh i \<or> (inState i \<noteq> StateIdle \<and> inState i \<noteq> StateActive) \<or>
     (\<not> inHold i \<and> inState i = StateActive \<and> inActivity i \<noteq> ActivityGame \<and>
      inWindow i \<noteq> Some ''game'' \<and> inWindow i \<noteq> Some ''idle-allowed'' \<and>
      inActivity i \<noteq> ActivityInteractive) \<or>
     (\<not> inHold i \<and> inState i = StateIdle \<and> inWindow i = None \<and> inInvalid i)"

text \<open>The requeue delay, as a table over the same inputs.\<close>

definition requeueTable ::
    "TaintPolicy \<Rightarrow> verdictInputs \<Rightarrow> bool \<Rightarrow> duration \<Rightarrow> duration \<Rightarrow> duration \<Rightarrow> duration \<Rightarrow> duration" where
  "requeueTable p i future plausible remaining hold wait =
     (if closedInputs i
      then minPositive (if \<not> inFresh i \<and> future then minPositive plausible (polStaleAfter p) else polStaleAfter p) wait
      else if inHold i \<and> \<not> (inState i = StateActive \<and> inActivity i = ActivityGame)
      then minPositive remaining hold
      else minPositive remaining wait)"

lemma decidePolicy_requeueTable:
  assumes "policyOk p" "0 < now"
  shows "pdRequeueAfter (decidePolicy l p pt a now) =
    requeueTable p (inputsOf l p pt a now) (hvFuture (verdict p a now))
      (timeSub (stHeartbeatAt (naStatus a) + wrap64 (- effectiveHeartbeatSkew p)) now)
      (timeSub (stHeartbeatAt (naStatus a) + polStaleAfter p) now)
      (timeSub (holdExpiry pt a) now) (windowWaitOf l a now)"
proof (cases "hvFresh (verdict p a now)")
  case False
  note nf = False [unfolded verdict_def]
  show ?thesis
  proof (cases "evaluateWindows l (naSpec a) now")
    case (Inl e)
    then show ?thesis
      using nf by (simp add: decide_defs Let_def requeueTable_def closedInputs_def inputsOf_def verdict_def
          windowWaitOf_def failClosed_eq split: prod.split)
  next
    case (Inr r)
    obtain w n wait where "r = (w, n, wait)" by (cases r)
    then show ?thesis
      using nf Inr by (simp add: decide_defs Let_def requeueTable_def closedInputs_def inputsOf_def verdict_def
          windowWaitOf_def failClosed_eq split: prod.split)
  qed
next
  case True
  note fresh = True [unfolded verdict_def]
  have rem: "\<not> timeSub (stHeartbeatAt (naStatus a) + polStaleAfter p) now \<le> 0"
    using verdict_remaining(1) [OF assms(1) True] by simp
  show ?thesis
  proof (cases "evaluateWindows l (naSpec a) now")
    case (Inl e)
    then show ?thesis
      using fresh rem by (simp add: decide_defs Let_def requeueTable_def closedInputs_def inputsOf_def verdict_def
          windowWaitOf_def failClosed_eq split: prod.split)
  next
    case (Inr r)
    obtain w n wait where r: "r = (w, n, wait)" by (cases r)
    have st: "swState v \<in> {''game'', ''interactive'', ''idle-allowed''}" if "w = Some v" for v
      using evaluateWindows_state [OF _ assms(2)] Inr r that by blast
    show ?thesis
      using fresh Inr r st rem
      by (cases w) (simp_all add: decide_defs Let_def requeueTable_def closedInputs_def inputsOf_def verdict_def
          windowWaitOf_def failClosed_eq split: prod.split, fastforce?)
  qed
qed

lemma windowWaitOf_nonneg: "0 < now \<Longrightarrow> 0 \<le> windowWaitOf l a now"
proof (cases "evaluateWindows l (naSpec a) now")
  case (Inr r)
  assume "0 < now"
  obtain w n wait where r: "r = (w, n, wait)" by (cases r)
  from Inr r obtain lead ws k where "wait = (if k = 0 then 0 else timeSub k now)" "k = 0 \<or> now < k"
    using evaluateWindows_Inr [of l "naSpec a" now w n wait] \<open>0 < now\<close> by metis
  then show ?thesis using Inr r by (auto simp: windowWaitOf_def timeSub_nonneg_iff)
qed (simp add: windowWaitOf_def)

lemma not_closed_fresh: "\<not> closedInputs i \<Longrightarrow> inFresh i"
  by (simp add: closedInputs_def)

lemma inputsOf_sel [simp]:
  "inFresh (inputsOf l p pt a now) = hvFresh (verdict p a now)"
  "inState (inputsOf l p pt a now) = stState (naStatus a)"
  "inActivity (inputsOf l p pt a now) = stActivity (naStatus a)"
  "inHold (inputsOf l p pt a now) \<longleftrightarrow> now < holdExpiry pt a"
  by (simp_all add: inputsOf_def)

lemma requeueTable_bounds:
  assumes "0 < polStaleAfter p" "inFresh i \<Longrightarrow> 0 < remaining \<and> remaining \<le> c" "future \<Longrightarrow> 0 < plausible"
    and "polStaleAfter p \<le> c"
  shows "0 < requeueTable p i future plausible remaining hold wait"
    and "requeueTable p i future plausible remaining hold wait \<le> c"
proof -
  have m: "0 < minPositive x y" "minPositive x y \<le> c" if "0 < x" "x \<le> c" for x y
    using that by (auto simp: minPositive_def)
  have m2: "0 < minPositive x y" "minPositive x y \<le> c" if "0 < x" "0 < y" "y \<le> c" for x y
    using that by (auto simp: minPositive_def)
  show "0 < requeueTable p i future plausible remaining hold wait"
    "requeueTable p i future plausible remaining hold wait \<le> c"
    unfolding requeueTable_def using assms not_closed_fresh [of i] by (simp_all add: m m2)
qed

lemma requeue_bounds:
  assumes "policyOk p" "0 < now"
  shows "0 < pdRequeueAfter (decidePolicy l p pt a now)"
    and "pdRequeueAfter (decidePolicy l p pt a now) \<le> polStaleAfter p + effectiveHeartbeatSkew p"
proof -
  note b = policyOk_bounds [OF assms(1)]
  note r = verdict_remaining(1,3) [OF assms(1)] verdict_plausible(1) [OF assms(1)]
  show "0 < pdRequeueAfter (decidePolicy l p pt a now)"
    unfolding decidePolicy_requeueTable [OF assms]
    by (rule requeueTable_bounds(1) [where c = "polStaleAfter p + effectiveHeartbeatSkew p"])
       (simp_all add: b r)
  show "pdRequeueAfter (decidePolicy l p pt a now) \<le> polStaleAfter p + effectiveHeartbeatSkew p"
    unfolding decidePolicy_requeueTable [OF assms]
    by (rule requeueTable_bounds(2)) (simp_all add: b r)
qed

lemma closed_taint: "closedInputs i \<Longrightarrow>
  taintTable p i = (if polFailClosed p then Some (failClosedTaint p) else None)"
  by (auto simp: closedInputs_def taintTable_def Let_def)

lemma parseSchedule_Inl_always:
  "parseSchedule l spec = Inl e \<Longrightarrow> evaluateWindows l spec now = Inl e"
  by (simp add: evaluateWindows_def)

text \<open>
  A schedule that passes validation but cannot be scanned at some instant is excluded: a scan
  can start or stop failing at any instant.
\<close>

definition evaluable :: "lib \<Rightarrow> NodeActivity \<Rightarrow> time \<Rightarrow> bool" where
  "evaluable l a now \<longleftrightarrow>
     validateSchedule l (naSpec a) \<noteq> None \<or> (\<exists>r. evaluateWindows l (naSpec a) now = Inr r)"

lemma windows_same:
  assumes "evaluable l a now" "cronOk l" "0 < now" "now \<le> now'"
    and "windowWaitOf l a now = 0 \<or> now' - now < windowWaitOf l a now"
  shows "inWindow (inputsOf l p pt a now') = inWindow (inputsOf l p pt a now)"
    and "inInvalid (inputsOf l p pt a now') = inInvalid (inputsOf l p pt a now)"
proof -
  have "inWindow (inputsOf l p pt a now') = inWindow (inputsOf l p pt a now) \<and>
        inInvalid (inputsOf l p pt a now') = inInvalid (inputsOf l p pt a now)"
  proof (cases "evaluateWindows l (naSpec a) now")
    case (Inl e)
    then obtain e' where "parseSchedule l (naSpec a) = Inl e'"
      using assms(1) by (auto simp: evaluable_def validateSchedule_def split: sum.splits)
    then show ?thesis by (simp add: inputsOf_def parseSchedule_Inl_always)
  next
    case (Inr r)
    obtain w n wait where r: "r = (w, n, wait)" by (cases r)
    have "wait = 0 \<or> now' - now < wait"
      using assms(5) Inr r by (simp add: windowWaitOf_def)
    from evaluateWindows_later [OF Inr [unfolded r] assms(3,2,4) this]
    obtain wait' where "evaluateWindows l (naSpec a) now' = Inr (w, n, wait')" by blast
    then show ?thesis using Inr r by (simp add: inputsOf_def split: option.split)
  qed
  then show "inWindow (inputsOf l p pt a now') = inWindow (inputsOf l p pt a now)"
    "inInvalid (inputsOf l p pt a now') = inInvalid (inputsOf l p pt a now)" by auto
qed

lemma verdict_later:
  assumes "policyOk p" "now \<le> now'"
  shows "hvFresh (verdict p a now) \<Longrightarrow>
      now' - now < timeSub (stHeartbeatAt (naStatus a) + polStaleAfter p) now \<Longrightarrow> hvFresh (verdict p a now')"
    and "\<not> hvFresh (verdict p a now) \<Longrightarrow>
      (hvFuture (verdict p a now) \<longrightarrow>
       now' - now < timeSub (stHeartbeatAt (naStatus a) + wrap64 (- effectiveHeartbeatSkew p)) now) \<Longrightarrow>
      \<not> hvFresh (verdict p a now')"
proof -
  show "hvFresh (verdict p a now')"
    if "hvFresh (verdict p a now)"
      "now' - now < timeSub (stHeartbeatAt (naStatus a) + polStaleAfter p) now"
    using verdict_remaining(2) [OF assms(1) that(1)] that assms
    by (auto simp: verdict_iffs [OF assms(1)])
  show "\<not> hvFresh (verdict p a now')"
    if "\<not> hvFresh (verdict p a now)"
      "hvFuture (verdict p a now) \<longrightarrow>
       now' - now < timeSub (stHeartbeatAt (naStatus a) + wrap64 (- effectiveHeartbeatSkew p)) now"
  proof (cases "hvFuture (verdict p a now)")
    case True
    from verdict_plausible(2) [OF assms(1) True] True that(2)
    show ?thesis by (auto simp: verdict_iffs [OF assms(1)])
  next
    case False
    then show ?thesis using that(1) assms(2) by (auto simp: verdict_iffs [OF assms(1)])
  qed
qed

lemma minPositive_less:
  assumes "x < minPositive a b" "0 < a"
  shows "x < a" "b \<le> 0 \<or> x < b"
  using assms by (auto simp: minPositive_def split: if_splits)

lemma decidePolicy_stable_until:
  assumes "policyOk p" "cronOk l" "0 < now" "now \<le> now'" "evaluable l a now"
    and "now' - now < pdRequeueAfter (decidePolicy l p pt a now)"
  shows "pdTaint (decidePolicy l p pt a now') = pdTaint (decidePolicy l p pt a now)"
proof -
  define i where "i = inputsOf l p pt a now"
  define i' where "i' = inputsOf l p pt a now'"
  define wait where "wait = windowWaitOf l a now"
  define rem where "rem = timeSub (stHeartbeatAt (naStatus a) + polStaleAfter p) now"
  define plaus where "plaus = timeSub (stHeartbeatAt (naStatus a) + wrap64 (- effectiveHeartbeatSkew p)) now"
  let ?fut = "hvFuture (verdict p a now)" and ?hold = "timeSub (holdExpiry pt a) now"
  have same: "inState i' = inState i" "inActivity i' = inActivity i" by (simp_all add: i_def i'_def)
  have holdM: "inHold i' \<Longrightarrow> inHold i" using assms(4) by (simp add: i_def i'_def)
  have rq: "now' - now < requeueTable p i ?fut plaus rem ?hold wait"
    using assms(6) unfolding decidePolicy_requeueTable [OF assms(1,3)] i_def wait_def rem_def plaus_def .
  note b = policyOk_bounds [OF assms(1)]
  have win: "inWindow i' = inWindow i" "inInvalid i' = inInvalid i" if "wait = 0 \<or> now' - now < wait"
    using windows_same [OF assms(5,2,3,4)] that by (simp_all add: i_def i'_def wait_def)
  have wait0: "0 \<le> wait" using windowWaitOf_nonneg [OF assms(3)] by (simp add: wait_def)
  have "taintTable p i' = taintTable p i"
  proof (cases "closedInputs i")
    case True
    have pos: "0 < (if \<not> inFresh i \<and> ?fut then minPositive plaus (polStaleAfter p) else polStaleAfter p)"
      using b(4) verdict_plausible(1) [OF assms(1)] by (simp add: plaus_def minPositive_bounds(1))
    have lt: "now' - now < minPositive (if \<not> inFresh i \<and> ?fut then minPositive plaus (polStaleAfter p)
        else polStaleAfter p) wait"
      using rq True by (simp add: requeueTable_def)
    have wlt: "wait = 0 \<or> now' - now < wait" using minPositive_less(2) [OF lt pos] wait0 by auto
    have "closedInputs i'"
    proof (cases "inFresh i")
      case False
      have "?fut \<longrightarrow> now' - now < plaus"
        using minPositive_less(1) [OF lt pos] False verdict_plausible(1) [OF assms(1)]
          minPositive_less(1) [of _ plaus] by (auto simp: plaus_def)
      then have "\<not> inFresh i'"
        using verdict_later(2) [OF assms(1,4)] False by (simp add: i_def i'_def plaus_def)
      then show ?thesis by (simp add: closedInputs_def)
    next
      case fresh: True
      show ?thesis using True fresh holdM same win [OF wlt] unfolding closedInputs_def by auto
    qed
    with True show ?thesis by (simp add: closed_taint)
  next
    case False
    then have fresh: "inFresh i" by (rule not_closed_fresh)
    then have rem: "0 < rem" using verdict_remaining(1) [OF assms(1)] by (simp add: i_def rem_def)
    have lt: "now' - now < rem"
      using rq False rem minPositive_less(1) by (auto simp: requeueTable_def split: if_splits)
    then have fresh': "inFresh i'"
      using verdict_later(1) [OF assms(1,4)] fresh by (simp add: i_def i'_def rem_def)
    show ?thesis
    proof (cases "inState i = StateActive \<and> inActivity i = ActivityGame")
      case True
      with fresh fresh' same show ?thesis by (simp add: taintTable_def)
    next
      case game: False
      show ?thesis
      proof (cases "inHold i")
        case True
        have "now' - now < minPositive rem ?hold"
          using rq False True game by (simp add: requeueTable_def)
        moreover have "0 < ?hold" using True by (simp add: i_def timeSub_pos_iff)
        ultimately have "now' - now < ?hold" using minPositive_less [OF _ rem] by fastforce
        moreover have "?hold \<le> holdExpiry pt a - now" using True by (intro timeSub_le) (simp add: i_def)
        ultimately have "inHold i'" by (simp add: i'_def)
        moreover have "inState i = StateIdle \<or> inState i = StateActive"
          using False by (auto simp: closedInputs_def)
        ultimately show ?thesis
          using True game fresh fresh' same by (auto simp: taintTable_def)
      next
        case nohold: False
        have "now' - now < minPositive rem wait"
          using rq False nohold by (simp add: requeueTable_def)
        then have w: "wait = 0 \<or> now' - now < wait" using minPositive_less(2) [OF _ rem] wait0 by fastforce
        have "i' = i"
          using fresh fresh' same nohold holdM win [OF w] by (cases i; cases i') auto
        then show ?thesis by simp
      qed
    qed
  qed
  then show ?thesis
    using decidePolicy_taintTable [of now' l p pt a] decidePolicy_taintTable [of now l p pt a] assms(3,4)
    by (simp add: i_def i'_def)
qed

section \<open>Admission\<close>

lemma windowRank_game: "windowRank ''game'' = 3" by code_simp
lemma windowRank_interactive: "windowRank ''interactive'' = 2" by code_simp
lemma windowRank_idle: "windowRank ''idle-allowed'' = 1" by code_simp
lemmas windowRank_states = windowRank_game windowRank_interactive windowRank_idle

lemma taintTable_None_admits:
  assumes "taintTable p i = None" "inFresh i" "inState i = StateIdle"
  shows "\<not> inHold i" "inWindow i = None \<or> inWindow i = Some ''idle-allowed''"
    "inInvalid i \<Longrightarrow> inWindow i = None \<Longrightarrow> \<not> polFailClosed p"
proof -
  have some: "(if b then Some x else None) = None \<longleftrightarrow> \<not> b" for b :: bool and x :: Taint
    by simp
  note t = assms(1) [unfolded taintTable_def Let_def]
  show hold: "\<not> inHold i" using t assms(2,3) by (cases "inHold i") simp_all
  have game: "inWindow i \<noteq> Some ''game''"
    using t assms(2,3) hold by (cases "inWindow i = Some ''game''") simp_all
  show "inWindow i = None \<or> inWindow i = Some ''idle-allowed''"
  proof (cases "inWindow i = Some ''idle-allowed''")
    case True
    then show ?thesis by (rule disjI2)
  next
    case False
    show ?thesis using t assms(2,3) hold game False by (cases "inWindow i = None") simp_all
  qed
  show "\<not> polFailClosed p" if "inInvalid i" "inWindow i = None"
    using t assms(2,3) hold that by (simp add: some)
qed

lemma inputsOf_window:
  "evaluateWindows l (naSpec a) now = Inr (v, nx, wt) \<Longrightarrow>
     inWindow (inputsOf l p pt a now) = map_option swState v"
  "evaluateWindows l (naSpec a) now = Inl e \<Longrightarrow>
     inWindow (inputsOf l p pt a now) = None \<and> inInvalid (inputsOf l p pt a now)"
  by (simp_all add: inputsOf_def split: option.split)

text \<open>When a decision has no taint, every open window of the enrollment is an idle-allowed one.\<close>

lemma idle_windows_only:
  assumes "evaluateWindows l spec now = Inr (v, nx, wt)" "parseSchedule l spec = Inr (lead, ws)"
    and "0 < now" "cronOk l" "map_option swState v = None \<or> map_option swState v = Some ''idle-allowed''"
    and w: "w \<in> set ws" "openOrLead lead now w"
  shows "pwState w = ''idle-allowed''"
proof -
  note st = evaluateWindows_strongest [OF assms(1-4)]
  have "v \<noteq> None" using st(1) w by metis
  then obtain x where x: "v = Some x" by (cases v) simp_all
  then have idle: "swState x = ''idle-allowed''" using assms(5) by simp
  have "windowRank (swState x) = 1" unfolding idle by (rule windowRank_idle)
  then have low: "windowRank (pwState w) \<le> 1" using st(3) [OF x w] by simp
  have "pwState w \<in> {''game'', ''interactive'', ''idle-allowed''}"
    using parseSchedule_valid(3) [OF assms(2) w(1)] unfolding wellParsed_def by (elim conjE)
  then have "pwState w = ''game'' \<or> pwState w = ''interactive'' \<or> pwState w = ''idle-allowed''" by simp
  moreover have "pwState w \<noteq> ''game''"
  proof
    assume "pwState w = ''game''"
    then have "windowRank (pwState w) = 3" by (simp only: windowRank_game)
    then show False using low by simp
  qed
  moreover have "pwState w \<noteq> ''interactive''"
  proof
    assume "pwState w = ''interactive''"
    then have "windowRank (pwState w) = 2" by (simp only: windowRank_interactive)
    then show False using low by simp
  qed
  ultimately show ?thesis by blast
qed

section \<open>Policies\<close>

lemma validatePolicy_keys:
  assumes "validatePolicy q p = None"
  shows "polKey p \<noteq> ''''" "polBurstTaintKey p \<noteq> polKey p"
    "polInteractiveValue p \<noteq> ''''" "polActiveValue p \<noteq> ''''" "polFailClosedValue p \<noteq> ''''"
    "0 < polStaleAfter p" "effectiveHeartbeatSkew p < polStaleAfter p"
proof -
  have tr: "trimSpace '''' = ''''" by code_simp
  show "polKey p \<noteq> ''''" using assms tr by (auto simp: validatePolicy_def split: if_splits)
  then show "polBurstTaintKey p \<noteq> polKey p" using assms by (auto simp: validatePolicy_def split: if_splits)
  show "polInteractiveValue p \<noteq> ''''" "polActiveValue p \<noteq> ''''" "polFailClosedValue p \<noteq> ''''"
    "0 < polStaleAfter p" "effectiveHeartbeatSkew p < polStaleAfter p"
    using assms by (auto simp: validatePolicy_def split: if_splits)
qed

end
