(* ===== verification/Eviction.thy ===== *)
theory Eviction
  imports Retry NodeOps Policy "HOL-Library.Sublist"
begin

text \<open>
  \<open>internal/controller/eviction.go\<close>: the eviction policy, the class of eviction a node's state
  authorizes, the safety gates of one Pod, and the loop over a node's Pods.

  The Eviction API is the argument \<open>evict\<close>: its answer to a call, given the calls made before it
  in the same pass.  The volume objects are read through \<open>getPVC\<close> and \<open>getPV\<close>, which answer None
  where the API client returns an error.  The counters of \<open>observeEviction\<close> are the list of the
  observed pairs, and the calls to the Eviction API a list of records; the node, the budget class
  and the instant of a call are kept with it for the proofs only.
\<close>

section \<open>The policy\<close>

definition EvictableLabel :: string where
  "EvictableLabel = ''interactive-node-controller.io/evictable''"

definition PinnedAnnotation :: string where
  "PinnedAnnotation = ''interactive-node-controller.io/pinned''"

definition AllowLossyEvictionAnnotation :: string where
  "AllowLossyEvictionAnnotation = ''interactive-node-controller.io/allow-lossy-eviction''"

definition AllowLossyEvictionLabel :: string where
  "AllowLossyEvictionLabel = ''interactive-node-controller.io/allow-lossy-eviction''"

definition MirrorPodAnnotationKey :: string where
  "MirrorPodAnnotationKey = ''kubernetes.io/config.mirror''"

definition systemPriority :: int where
  "systemPriority = 2000000000"

definition isLossyEvictionAllowed :: "Pod \<Rightarrow> bool" where
  "isLossyEvictionAllowed pod \<longleftrightarrow>
     equalFold (mapGet (podAnnotations pod) AllowLossyEvictionAnnotation) ''true'' \<or>
     equalFold (mapGet (podLabels pod) AllowLossyEvictionLabel) ''true''"

definition normalized :: "EvictionPolicy \<Rightarrow> EvictionPolicy" where
  "normalized p0 =
     (let p1 = (if epMaxPerReconcile p0 \<le> 0 then p0\<lparr>epMaxPerReconcile := 1\<rparr> else p0);
          p2 = (if epBudgetInterval p1 \<le> 0 then p1\<lparr>epBudgetInterval := minute\<rparr> else p1);
          p3 = (if epRetryBackoff p2 \<le> 0 then p2\<lparr>epRetryBackoff := 30 * second\<rparr> else p2);
          p4 = (if epRetryJitter p3 < 0 then p3\<lparr>epRetryJitter := 0\<rparr> else p3);
          p5 = (if epRetryJitter p4 > epRetryBackoff p4 then p4\<lparr>epRetryJitter := epRetryBackoff p4\<rparr> else p4);
          p6 = (if trimSpace (epEvictableLabel p5) = '''' then p5\<lparr>epEvictableLabel := EvictableLabel\<rparr> else p5);
          p7 = p6\<lparr>epStandardBudget :=
                   normalizedBudget (epStandardBudget p6) (epMaxPerReconcile p6) (epBudgetInterval p6)\<rparr>
      in p7\<lparr>epLossyBudget := normalizedBudget (epLossyBudget p7) (epMaxPerReconcile p7) (epBudgetInterval p7)\<rparr>)"

definition validateEviction :: "EvictionPolicy \<Rightarrow> msg option" where
  "validateEviction p0 =
     (let p = normalized p0; s = epStandardBudget p; y = epLossyBudget p
      in if trimSpace (epEvictableLabel p) = '''' \<or>
            containsAny (epEvictableLabel p) [CHR 0x20, CHR 0x09, CHR 0x0A]
         then Some [Lit ''evictable-label is required and cannot contain whitespace'']
         else if epMaxPerReconcile p \<le> 0
         then Some [Lit ''max-evictions-per-reconcile must be positive'']
         else if epRetryBackoff p \<le> 0 then Some [Lit ''eviction-retry-backoff must be positive'']
         else if epBudgetInterval p \<le> 0 \<or> ebInterval s \<le> 0 \<or> ebInterval y \<le> 0
         then Some [Lit ''eviction budget interval must be positive'']
         else if ebPerNode s \<le> 0 \<or> ebGlobal s \<le> 0 \<or> ebPerNode y \<le> 0 \<or> ebGlobal y \<le> 0
         then Some [Lit ''eviction budgets must be positive'']
         else if ebBurstPerNode s \<le> 0 \<or> ebBurstGlobal s \<le> 0 \<or> ebBurstPerNode y \<le> 0 \<or> ebBurstGlobal y \<le> 0
         then Some [Lit ''eviction burst allowances must be positive'']
         else None)"

section \<open>The class a node's state authorizes\<close>

datatype evictionClass = evictionClassNone | evictionClassGame | evictionClassLossyOnly

definition classFor ::
    "TaintPolicy \<Rightarrow> NodeActivity \<Rightarrow> Node \<Rightarrow> Taint option \<Rightarrow> time \<Rightarrow> evictionClass" where
  "classFor p activity node desired now =
     (let verdict = heartbeatFreshness (stHeartbeatAt (naStatus activity)) now (polStaleAfter p)
                      (effectiveHeartbeatSkew p);
          st = stState (naStatus activity);
          act = stActivity (naStatus activity);
          fresh = hvFresh verdict;
          staleHeartbeat = (hvMissing verdict \<or> hvExpired verdict)
      in if hvFuture verdict then evictionClassNone
         else if fresh \<and> st = StateUnknown then evictionClassNone
         else if fresh \<and> desired = None \<and> st = StateIdle \<and> act = ActivityIdle then evictionClassNone
         else if fresh \<and> st = StateActive \<and> act = ActivityGame \<and>
                 desired \<noteq> None \<and> tEffect (the desired) = NoSchedule \<and>
                 tValue (the desired) = polActiveValue p \<and>
                 hasTaint node (polKey p) (polActiveValue p) NoSchedule
         then evictionClassGame
         else if (staleHeartbeat \<or> st = StateStale) \<and>
                 desired \<noteq> None \<and> tEffect (the desired) = NoSchedule \<and>
                 hasTaint node (polKey p) (tValue (the desired)) NoSchedule
         then evictionClassLossyOnly
         else if staleHeartbeat \<or> st = StateStale then evictionClassNone
         else if desired = None then evictionClassNone
         else if (st = StateActive \<and> act \<noteq> ActivityGame) \<or> act = ActivityInteractive \<or>
                 hasTaint node (polKey p) (polInteractiveValue p) PreferNoSchedule \<or>
                 (polBurstTaintKey p \<noteq> '''' \<and>
                  hasTaint node (polBurstTaintKey p) (polFailClosedValue p) NoSchedule)
         then evictionClassLossyOnly
         else evictionClassNone)"

section \<open>The gates of one Pod\<close>

text \<open>The loop over the volumes: the reason of the first that refuses.\<close>

fun volumeGate ::
    "(string \<times> string \<Rightarrow> PersistentVolumeClaim option) \<Rightarrow> (string \<Rightarrow> PersistentVolume option) \<Rightarrow>
     string \<Rightarrow> bool \<Rightarrow> Volume list \<Rightarrow> string option" where
  "volumeGate getPVC getPV ns allowLossy [] = None"
| "volumeGate getPVC getPV ns allowLossy (v # vs) =
     (if volHostPath v then Some ''hostpath-volume''
      else if volEmptyDir v \<and> \<not> allowLossy then Some ''local-emptydir''
      else case volClaim v of
        None \<Rightarrow> volumeGate getPVC getPV ns allowLossy vs
      | Some claim \<Rightarrow>
          (case getPVC (ns, claim) of
             None \<Rightarrow> Some ''pvc-lookup-failed''
           | Some pvc \<Rightarrow>
               if pvcVolumeName pvc = '''' then Some ''pvc-not-bound''
               else if list_ex (\<lambda>mode. mode = ReadWriteOnce \<or> mode = ReadWriteOncePod) (pvcAccessModes pvc)
               then Some ''pvc-rwo''
               else case getPV (pvcVolumeName pvc) of
                 None \<Rightarrow> Some ''pv-lookup-failed''
               | Some pv \<Rightarrow>
                   if pvLocal pv \<or> pvHostPath pv then Some ''local-pv''
                   else if allowLossy then Some ''pvc-not-allowed''
                   else volumeGate getPVC getPV ns allowLossy vs))"

definition hasRequiredNodeAffinity :: "Pod \<Rightarrow> bool" where
  "hasRequiredNodeAffinity pod =
     (case podAffinity pod of Some (Some (Some _)) \<Rightarrow> True | _ \<Rightarrow> False)"

definition evictionDecision ::
    "(string \<times> string \<Rightarrow> PersistentVolumeClaim option) \<Rightarrow> (string \<Rightarrow> PersistentVolume option) \<Rightarrow>
     Pod \<Rightarrow> EvictionPolicy \<Rightarrow> bool \<times> string" where
  "evictionDecision getPVC getPV pod policy =
     (if mapGet (podLabels pod) (epEvictableLabel policy) \<noteq> ''true'' then (False, ''not-opted-in'')
      else if podNamespace pod \<in> epProtectedNamespaces policy then (False, ''protected-namespace'')
      else if podDeletionTimestamp pod \<noteq> None then (False, ''terminating'')
      else if mapGet (podAnnotations pod) MirrorPodAnnotationKey \<noteq> '''' then (False, ''mirror-static'')
      else if list_ex (\<lambda>owner. orKind owner = ''DaemonSet'') (podOwnerReferences pod)
      then (False, ''daemonset-owned'')
      else if podOwnerReferences pod = [] then (False, ''unmanaged-pod'')
      else if equalFold (mapGet (podAnnotations pod) PinnedAnnotation) ''true'' then (False, ''direct-pinned'')
      else
        let allowLossy = isLossyEvictionAllowed pod
        in if podNodeSelector pod \<noteq> [] \<and> \<not> allowLossy then (False, ''node-selector'')
           else if hasRequiredNodeAffinity pod \<and> \<not> allowLossy then (False, ''required-node-affinity'')
           else if podPriority pod \<noteq> None \<and> the (podPriority pod) \<ge> systemPriority
           then (False, ''critical-priority'')
           else case volumeGate getPVC getPV (podNamespace pod) allowLossy (podVolumes pod) of
             Some reason \<Rightarrow> (False, reason)
           | None \<Rightarrow>
               if podPhase pod = PodSucceeded \<or> podPhase pod = PodFailed then (False, ''completed-pod'')
               else (True, ''eligible''))"

section \<open>The summary\<close>

record evictionSummary =
  smAudited :: int
  smAttempted :: int
  smEvicted :: int
  smSkipped :: int
  smBlocked :: int
  smDeferred :: int
  smOutcome :: string
  smBlockerReason :: string
  smRequeueAfter :: duration
  smMessage :: msg

definition zeroSummary :: evictionSummary where
  "zeroSummary =
     \<lparr>smAudited = 0, smAttempted = 0, smEvicted = 0, smSkipped = 0, smBlocked = 0, smDeferred = 0,
      smOutcome = '''', smBlockerReason = '''', smRequeueAfter = 0, smMessage = []\<rparr>"

definition retryAfter :: "duration \<Rightarrow> evictionSummary \<Rightarrow> evictionSummary" where
  "retryAfter delay s =
     (if delay > 0 \<and> (smRequeueAfter s \<le> 0 \<or> delay < smRequeueAfter s)
      then s\<lparr>smRequeueAfter := delay\<rparr> else s)"

definition blockerRank :: "string \<Rightarrow> int" where
  "blockerRank reason =
     (if reason = ''retry-backoff'' then 1
      else if reason = ''pod-gone'' then 2
      else if reason = ''eviction-conflict'' then 3
      else if reason = ''api-error'' then 4
      else if reason = ''pdb-blocked'' then 5
      else 0)"

definition noteBlocker :: "string \<Rightarrow> msg \<Rightarrow> evictionSummary \<Rightarrow> evictionSummary" where
  "noteBlocker reason message s =
     (if blockerRank reason \<ge> blockerRank (smBlockerReason s)
      then let s1 = s\<lparr>smBlockerReason := reason\<rparr>
           in if message \<noteq> [] then s1\<lparr>smMessage := message\<rparr> else s1
      else s)"

definition classify :: "evictionSummary \<Rightarrow> evictionSummary" where
  "classify s =
     (if smBlocked s > 0
      then let s1 = s\<lparr>smOutcome := ''blocked''\<rparr>
           in if smMessage s1 = [] then s1\<lparr>smMessage := [Lit ''eviction is blocked'']\<rparr> else s1
      else if smDeferred s > 0
      then let other0 = smSkipped s - smDeferred s;
               other = (if other0 < 0 then 0 else other0)
           in s\<lparr>smOutcome := ''budget-waiting'',
                smMessage := [Lit ''evicted '', FInt (smEvicted s), Lit '' eligible Pod(s); skipped '',
                              FInt other, Lit ''; '', FInt (smDeferred s),
                              Lit '' eligible Pod(s) waiting for eviction budget'']\<rparr>
      else if smAttempted s > 0
      then let s1 = s\<lparr>smOutcome := ''completed''\<rparr>
           in if smMessage s1 = []
              then s1\<lparr>smMessage := [Lit ''evicted '', FInt (smEvicted s), Lit '' eligible Pod(s); skipped '',
                                     FInt (smSkipped s)]\<rparr> else s1
      else if smAudited s > 0
      then let s1 = s\<lparr>smOutcome := ''audit-only''\<rparr>
           in if smMessage s1 = []
              then s1\<lparr>smMessage := [Lit ''audit only: '', FInt (smAudited s), Lit '' eligible Pod(s); skipped '',
                                     FInt (smSkipped s)]\<rparr> else s1
      else let s1 = s\<lparr>smOutcome := ''no-eligible-pods''\<rparr>
           in if smMessage s1 = []
              then s1\<lparr>smMessage := [Lit ''no eligible Pods; skipped '', FInt (smSkipped s)]\<rparr> else s1)"

definition summaryCondition :: "time \<Rightarrow> int \<Rightarrow> evictionSummary \<Rightarrow> Condition" where
  "summaryCondition now generation s =
     \<lparr>cType = ''Eviction'',
      cStatus = (if smOutcome s = ''blocked'' then ConditionFalse else ConditionTrue),
      cReason =
        (if smOutcome s = ''audit-only'' then ''AuditOnly''
         else if smOutcome s = ''inactive'' then ''EvictionInactive''
         else if smOutcome s = ''no-eligible-pods'' then ''NoEligiblePods''
         else if smOutcome s = ''blocked'' then ''EvictionBlocked''
         else if smOutcome s = ''budget-waiting'' then ''BudgetWaiting''
         else if smOutcome s = ''completed'' then ''EvictionCompleted''
         else ''EvictionDisabled''),
      cMessage = (if smMessage s = [] then [Lit ''eviction is disabled''] else smMessage s),
      cObservedGeneration = generation,
      cLastTransitionTime = now\<rparr>"

definition boundedEvictionReason :: "string \<Rightarrow> string" where
  "boundedEvictionReason reason =
     (if reason \<in> set [''not-opted-in'', ''protected-namespace'', ''terminating'', ''mirror-static'',
           ''daemonset-owned'', ''unmanaged-pod'', ''direct-pinned'', ''node-selector'',
           ''required-node-affinity'', ''critical-priority'', ''hostpath-volume'', ''local-emptydir'',
           ''pvc-lookup-failed'', ''pvc-not-bound'', ''pvc-rwo'', ''pv-lookup-failed'', ''local-pv'',
           ''pvc-not-allowed'', ''completed-pod'', ''eligible'', ''audit'', ''rate-limited'',
           ''missing-pod-identity'', ''api-error'', ''pdb-blocked'', ''eviction-conflict'', ''pod-gone'',
           ''accepted'', ''retry-backoff'']
      then reason else ''unclassified'')"

definition boundedBlockerReason :: "string \<Rightarrow> string" where
  "boundedBlockerReason reason =
     (if reason \<in> set [''pdb-blocked'', ''api-error'', ''eviction-conflict'', ''pod-gone'', ''retry-backoff'']
      then reason else ''api-error'')"

section \<open>The loop over a node's Pods\<close>

text \<open>
  One call of the Eviction API: the request, and for the proofs the node, the budget class and
  the instant.
\<close>

record evictCall =
  ecNamespace :: string
  ecName :: string
  ecUID :: string
  ecResourceVersion :: string
  ecGracePeriod :: "int option"
  ecNode :: string
  ecLossy :: bool
  ecAt :: time

type_synonym evictor = "evictCall list \<Rightarrow> evictCall \<Rightarrow> apiError option"

record evictState =
  esRetries :: deadlines
  esBudgets :: evictionBudgets
  esSummary :: evictionSummary
  esEvents :: "(string \<times> string) list"
  esCalls :: "evictCall list"

definition observeEviction :: "string \<Rightarrow> string \<Rightarrow> evictState \<Rightarrow> evictState" where
  "observeEviction outcome reason s =
     s\<lparr>esEvents := esEvents s @ [(outcome, boundedEvictionReason reason)]\<rparr>"

definition onSummary :: "(evictionSummary \<Rightarrow> evictionSummary) \<Rightarrow> evictState \<Rightarrow> evictState" where
  "onSummary f s = s\<lparr>esSummary := f (esSummary s)\<rparr>"

definition incSkipped :: "evictionSummary \<Rightarrow> evictionSummary" where
  "incSkipped s = s\<lparr>smSkipped := smSkipped s + 1\<rparr>"

definition incBlocked :: "evictionSummary \<Rightarrow> evictionSummary" where
  "incBlocked s = s\<lparr>smBlocked := smBlocked s + 1\<rparr>"

definition incAudited :: "evictionSummary \<Rightarrow> evictionSummary" where
  "incAudited s = s\<lparr>smAudited := smAudited s + 1\<rparr>"

definition incDeferred :: "evictionSummary \<Rightarrow> evictionSummary" where
  "incDeferred s = s\<lparr>smDeferred := smDeferred s + 1\<rparr>"

definition incAttempted :: "evictionSummary \<Rightarrow> evictionSummary" where
  "incAttempted s = s\<lparr>smAttempted := smAttempted s + 1\<rparr>"

definition callFor :: "string \<Rightarrow> time \<Rightarrow> Pod \<Rightarrow> evictCall" where
  "callFor node now pod =
     \<lparr>ecNamespace = podNamespace pod, ecName = podName pod, ecUID = podUID pod,
      ecResourceVersion = podResourceVersion pod, ecGracePeriod = podGracePeriod pod,
      ecNode = node, ecLossy = isLossyEvictionAllowed pod, ecAt = now\<rparr>"

definition errorReason :: "apiError \<Rightarrow> string" where
  "errorReason err =
     (if errTooManyRequests err then ''pdb-blocked''
      else if errConflict err then ''eviction-conflict''
      else if errNotFound err then ''pod-gone''
      else ''api-error'')"

text \<open>The end of an iteration: the call, and what its answer leaves behind.\<close>

definition attemptEviction ::
    "evictor \<Rightarrow> EvictionPolicy \<Rightarrow> string \<Rightarrow> time \<Rightarrow> Pod \<Rightarrow> evictState \<Rightarrow> evictState" where
  "attemptEviction evict policy node now pod s0 =
     (let key = retryKey node pod;
          s1 = observeEviction ''attempted'' ''eligible'' (onSummary incAttempted s0);
          call = callFor node now pod;
          s2 = s1\<lparr>esCalls := esCalls s1 @ [call]\<rparr>
      in case evict (esCalls s1) call of
           Some err \<Rightarrow>
             let reason = errorReason err;
                 delay = blockedRetryDelay key policy err;
                 s3 = observeEviction ''blocked'' reason (onSummary incBlocked s2);
                 s4 = onSummary (noteBlocker reason
                        [Lit ''eviction blocked for '', FStr (podNamespace pod), Lit ''/'',
                         FStr (podName pod), Lit '' ('', FStr reason, Lit ''); retrying'']) s3;
                 s5 = s4\<lparr>esRetries := block key (now + delay) (esRetries s4)\<rparr>
             in onSummary (retryAfter delay) s5
         | None \<Rightarrow>
             let s3 = onSummary (\<lambda>m. m\<lparr>smEvicted := smEvicted m + 1\<rparr>) s2;
                 s4 = s3\<lparr>esRetries := forget key (esRetries s3)\<rparr>;
                 s5 = observeEviction ''evicted'' ''accepted'' s4
             in onSummary (\<lambda>m. if smBlocked m = 0
                                then m\<lparr>smMessage := [Lit ''evicted '', FInt (smEvicted m),
                                         Lit '' eligible Pod(s); skipped '', FInt (smSkipped m)]\<rparr>
                                else m) s5)"

text \<open>One iteration. \<open>evictor\<close> is None where the reconciler has no eviction client.\<close>

definition evictPod ::
    "(string \<times> string \<Rightarrow> PersistentVolumeClaim option) \<Rightarrow> (string \<Rightarrow> PersistentVolume option) \<Rightarrow>
     evictor option \<Rightarrow> EvictionPolicy \<Rightarrow> evictionClass \<Rightarrow> string \<Rightarrow> time \<Rightarrow>
     Pod \<Rightarrow> evictState \<Rightarrow> evictState" where
  "evictPod getPVC getPV evictor policy class node now pod s =
     (if podNodeName pod \<noteq> node then s
      else
        let allowLossy = isLossyEvictionAllowed pod
        in if class = evictionClassNone \<or> (class = evictionClassLossyOnly \<and> \<not> allowLossy) then s
           else
             let (decision, reason) = evictionDecision getPVC getPV pod policy;
                 key = retryKey node pod
             in if \<not> decision
                then observeEviction ''skipped'' reason
                       (onSummary incSkipped (s\<lparr>esRetries := forget key (esRetries s)\<rparr>))
                else if epAudit policy \<or> \<not> epEnabled policy \<or> evictor = None
                then observeEviction ''audited'' ''audit''
                       (onSummary incAudited (s\<lparr>esRetries := forget key (esRetries s)\<rparr>))
                else if remaining key now (esRetries s) > 0
                then onSummary (retryAfter (remaining key now (esRetries s)))
                       (onSummary (noteBlocker ''retry-backoff'' [Lit ''eviction retry backoff is pending''])
                          (onSummary incBlocked s))
                else if podUID pod = '''' \<or> podResourceVersion pod = ''''
                then observeEviction ''skipped'' ''missing-pod-identity'' (onSummary incSkipped s)
                else
                  let (ok, wait, budgets) = tryTake allowLossy node now policy (esBudgets s);
                      s1 = s\<lparr>esBudgets := budgets\<rparr>
                  in if \<not> ok
                     then onSummary (retryAfter wait)
                            (observeEviction ''skipped'' ''rate-limited''
                               (onSummary incDeferred (onSummary incSkipped s1)))
                     else attemptEviction (the evictor) policy node now pod s1)"

fun evictPods ::
    "(string \<times> string \<Rightarrow> PersistentVolumeClaim option) \<Rightarrow> (string \<Rightarrow> PersistentVolume option) \<Rightarrow>
     evictor option \<Rightarrow> EvictionPolicy \<Rightarrow> evictionClass \<Rightarrow> string \<Rightarrow> time \<Rightarrow>
     Pod list \<Rightarrow> evictState \<Rightarrow> evictState" where
  "evictPods getPVC getPV evictor policy class node now [] s = s"
| "evictPods getPVC getPV evictor policy class node now (pod # pods) s =
     evictPods getPVC getPV evictor policy class node now pods
       (evictPod getPVC getPV evictor policy class node now pod s)"

text \<open>
  \<open>strings.Contains\<close> on the summary's message.  The message at that point is one of those set
  above, and the text looked for can neither straddle two of their fragments nor occur in a
  number, so looking into each fragment gives the same answer.
\<close>

fun fragContains :: "frag \<Rightarrow> string \<Rightarrow> bool" where
  "fragContains (Lit s) sub = contains s sub"
| "fragContains (FStr s) sub = contains s sub"
| "fragContains _ sub = False"

definition finishSummary :: "evictionSummary \<Rightarrow> evictionSummary" where
  "finishSummary s =
     classify
       (if smMessage s = []
        then s\<lparr>smMessage :=
               (if smAudited s > 0
                then [Lit ''audit only: '', FInt (smAudited s), Lit '' eligible Pod(s); skipped '', FInt (smSkipped s)]
                else if smDeferred s > 0
                then [Lit ''eviction budget exhausted; '', FInt (smDeferred s),
                      Lit '' eligible Pod(s) waiting for eviction budget'']
                else [Lit ''no eligible Pods; skipped '', FInt (smSkipped s)])\<rparr>
        else if smDeferred s > 0 \<and> \<not> list_ex (\<lambda>f. fragContains f ''waiting for eviction budget'') (smMessage s)
        then s\<lparr>smMessage := smMessage s @
                 [Lit ''; '', FInt (smDeferred s), Lit '' eligible Pod(s) waiting for eviction budget'']\<rparr>
        else s)"

text \<open>
  \<open>listPods\<close> is the indexed list of the API client.  The result is the error of the list, or
  the summary, with the process-local state after the pass.
\<close>

definition reconcileEvictions ::
    "TaintPolicy \<Rightarrow> EvictionPolicy \<Rightarrow>
     (string \<times> string \<Rightarrow> PersistentVolumeClaim option) \<Rightarrow> (string \<Rightarrow> PersistentVolume option) \<Rightarrow>
     (string \<Rightarrow> 'e + Pod list) \<Rightarrow> evictor option \<Rightarrow> time \<Rightarrow>
     NodeActivity \<Rightarrow> Node \<Rightarrow> Taint option \<Rightarrow> evictState \<Rightarrow> ('e + evictionSummary) \<times> evictState" where
  "reconcileEvictions p eviction getPVC getPV listPods evictor now activity node desired s0 =
     (let policy = normalized eviction;
          s = s0\<lparr>esSummary := zeroSummary\<rparr>
      in if \<not> epEnabled policy \<and> \<not> epAudit policy
         then (Inr (zeroSummary\<lparr>smOutcome := ''disabled'', smMessage := [Lit ''eviction is disabled'']\<rparr>),
               s\<lparr>esRetries := prune now (nodeName node) [] (esRetries s)\<rparr>)
         else
           let class = classFor p activity node desired now
           in if class = evictionClassNone
              then (Inr (zeroSummary\<lparr>smOutcome := ''inactive'',
                      smMessage := [Lit ''eviction policy is inactive for the current node state'']\<rparr>),
                    s\<lparr>esRetries := prune now (nodeName node) [] (esRetries s)\<rparr>)
              else case listPods (nodeName node) of
                Inl err \<Rightarrow> (Inl err, s)
              | Inr pods \<Rightarrow>
                  let s1 = s\<lparr>esRetries := prune now (nodeName node) pods (esRetries s)\<rparr>;
                      s2 = evictPods getPVC getPV evictor policy class (nodeName node) now pods s1
                  in (Inr (finishSummary (esSummary s2)), s2))"

section \<open>The class\<close>

lemma classFor_future:
  "hvFuture (verdict p a now) \<Longrightarrow> classFor p a node desired now = evictionClassNone"
  by (simp add: classFor_def verdict_def Let_def)

lemma classFor_Game_iff:
  assumes "policyOk p"
  shows "classFor p a node desired now = evictionClassGame \<longleftrightarrow>
    hvFresh (verdict p a now) \<and> stState (naStatus a) = StateActive \<and> stActivity (naStatus a) = ActivityGame \<and>
    (\<exists>t. desired = Some t \<and> tEffect t = NoSchedule \<and> tValue t = polActiveValue p) \<and>
    hasTaint node (polKey p) (polActiveValue p) NoSchedule"
  using verdict_fresh_excl [of "stHeartbeatAt (naStatus a)" now "polStaleAfter p" "effectiveHeartbeatSkew p"]
  by (auto simp: classFor_def verdict_def Let_def)

text \<open>A heartbeat that is missing or expired evicts only behind an applied fail-closed fence.\<close>

lemma classFor_stale:
  assumes "hvMissing (verdict p a now) \<or> hvExpired (verdict p a now)" "\<not> hvFuture (verdict p a now)"
  shows "classFor p a node desired now =
    (if \<exists>t. desired = Some t \<and> tEffect t = NoSchedule \<and> hasTaint node (polKey p) (tValue t) NoSchedule
     then evictionClassLossyOnly else evictionClassNone)"
  using assms verdict_fresh_excl [of "stHeartbeatAt (naStatus a)" now "polStaleAfter p" "effectiveHeartbeatSkew p"]
  by (cases desired) (auto simp: classFor_def verdict_def Let_def)

lemma classFor_desired: "classFor p a node desired now \<noteq> evictionClassNone \<Longrightarrow> desired \<noteq> None"
  by (auto simp: classFor_def Let_def split: if_splits)

lemma classFor_unknown:
  "hvFresh (verdict p a now) \<Longrightarrow> stState (naStatus a) = StateUnknown \<Longrightarrow>
     classFor p a node desired now = evictionClassNone"
  by (simp add: classFor_def verdict_def Let_def)

section \<open>One iteration\<close>

text \<open>The order of the classes: what one authorizes, the next one authorizes too.\<close>

instantiation evictionClass :: linorder
begin

definition classRank :: "evictionClass \<Rightarrow> nat" where
  "classRank c = (case c of evictionClassNone \<Rightarrow> 0 | evictionClassLossyOnly \<Rightarrow> 1 | evictionClassGame \<Rightarrow> 2)"

definition less_eq_evictionClass :: "evictionClass \<Rightarrow> evictionClass \<Rightarrow> bool" where
  "less_eq_evictionClass a b \<longleftrightarrow> classRank a \<le> classRank b"

definition less_evictionClass :: "evictionClass \<Rightarrow> evictionClass \<Rightarrow> bool" where
  "less_evictionClass a b \<longleftrightarrow> classRank a < classRank b"

instance
proof
  fix a b c :: evictionClass
  show "a < b \<longleftrightarrow> a \<le> b \<and> \<not> b \<le> a" by (auto simp: less_eq_evictionClass_def less_evictionClass_def)
  show "a \<le> a" by (simp add: less_eq_evictionClass_def)
  show "a \<le> b \<Longrightarrow> b \<le> c \<Longrightarrow> a \<le> c" by (auto simp: less_eq_evictionClass_def)
  show "a \<le> b \<Longrightarrow> b \<le> a \<Longrightarrow> a = b"
    by (cases a; cases b) (simp_all add: less_eq_evictionClass_def classRank_def)
  show "a \<le> b \<or> b \<le> a" by (auto simp: less_eq_evictionClass_def)
qed

end

definition permits :: "evictionClass \<Rightarrow> Pod \<Rightarrow> bool" where
  "permits class pod \<longleftrightarrow>
     evictionClassLossyOnly \<le> class \<and> (class = evictionClassLossyOnly \<longrightarrow> isLossyEvictionAllowed pod)"

lemma permits_mono: "c \<le> d \<Longrightarrow> permits c pod \<Longrightarrow> permits d pod"
  by (cases c; cases d) (auto simp: permits_def less_eq_evictionClass_def classRank_def)

lemma permits_iff:
  "permits class pod \<longleftrightarrow>
     \<not> (class = evictionClassNone \<or> (class = evictionClassLossyOnly \<and> \<not> isLossyEvictionAllowed pod))"
  by (cases "class") (auto simp: permits_def less_eq_evictionClass_def classRank_def)

text \<open>The Pods that reach the Eviction API, apart from their deadline and the budget.\<close>

definition evictable ::
    "(string \<times> string \<Rightarrow> PersistentVolumeClaim option) \<Rightarrow> (string \<Rightarrow> PersistentVolume option) \<Rightarrow>
     EvictionPolicy \<Rightarrow> evictionClass \<Rightarrow> string \<Rightarrow> Pod \<Rightarrow> bool" where
  "evictable getPVC getPV policy class node pod \<longleftrightarrow>
     podNodeName pod = node \<and> permits class pod \<and> fst (evictionDecision getPVC getPV pod policy) \<and>
     epEnabled policy \<and> \<not> epAudit policy \<and> podUID pod \<noteq> '''' \<and> podResourceVersion pod \<noteq> ''''"

datatype podOutcome =
  Passed | Refused string | Audited | Pending duration | Unidentified | Limited duration evictionBudgets
  | Attempted evictionBudgets evictor

definition outcomeOf ::
    "(string \<times> string \<Rightarrow> PersistentVolumeClaim option) \<Rightarrow> (string \<Rightarrow> PersistentVolume option) \<Rightarrow>
     evictor option \<Rightarrow> EvictionPolicy \<Rightarrow> evictionClass \<Rightarrow> string \<Rightarrow> time \<Rightarrow> Pod \<Rightarrow> evictState \<Rightarrow> podOutcome" where
  "outcomeOf getPVC getPV evictor policy class node now pod s =
     (if podNodeName pod \<noteq> node \<or> \<not> permits class pod then Passed
      else if \<not> fst (evictionDecision getPVC getPV pod policy)
      then Refused (snd (evictionDecision getPVC getPV pod policy))
      else if epAudit policy \<or> \<not> epEnabled policy \<or> evictor = None then Audited
      else if remaining (retryKey node pod) now (esRetries s) > 0
      then Pending (remaining (retryKey node pod) now (esRetries s))
      else if podUID pod = '''' \<or> podResourceVersion pod = '''' then Unidentified
      else case tryTake (isLossyEvictionAllowed pod) node now policy (esBudgets s) of
        (ok, wait, budgets) \<Rightarrow> if ok then Attempted budgets (the evictor) else Limited wait budgets)"

fun applyOutcome :: "EvictionPolicy \<Rightarrow> string \<Rightarrow> time \<Rightarrow> Pod \<Rightarrow> evictState \<Rightarrow> podOutcome \<Rightarrow> evictState" where
  "applyOutcome policy node now pod s Passed = s"
| "applyOutcome policy node now pod s (Refused reason) =
     observeEviction ''skipped'' reason
       (onSummary incSkipped (s\<lparr>esRetries := forget (retryKey node pod) (esRetries s)\<rparr>))"
| "applyOutcome policy node now pod s Audited =
     observeEviction ''audited'' ''audit''
       (onSummary incAudited (s\<lparr>esRetries := forget (retryKey node pod) (esRetries s)\<rparr>))"
| "applyOutcome policy node now pod s (Pending d) =
     onSummary (retryAfter d)
       (onSummary (noteBlocker ''retry-backoff'' [Lit ''eviction retry backoff is pending'']) (onSummary incBlocked s))"
| "applyOutcome policy node now pod s Unidentified =
     observeEviction ''skipped'' ''missing-pod-identity'' (onSummary incSkipped s)"
| "applyOutcome policy node now pod s (Limited w b) =
     onSummary (retryAfter w)
       (observeEviction ''skipped'' ''rate-limited''
          (onSummary incDeferred (onSummary incSkipped (s\<lparr>esBudgets := b\<rparr>))))"
| "applyOutcome policy node now pod s (Attempted b evict) =
     attemptEviction evict policy node now pod (s\<lparr>esBudgets := b\<rparr>)"

lemma evictPod_outcome:
  "evictPod getPVC getPV evictor policy class node now pod s =
     applyOutcome policy node now pod s (outcomeOf getPVC getPV evictor policy class node now pod s)"
proof -
  define d where "d = evictionDecision getPVC getPV pod policy"
  obtain dec reason where d2: "d = (dec, reason)" by (cases d)
  obtain ok w b where t: "tryTake (isLossyEvictionAllowed pod) node now policy (esBudgets s) = (ok, w, b)"
    by (cases "tryTake (isLossyEvictionAllowed pod) node now policy (esBudgets s)")
  consider "podNodeName pod \<noteq> node \<or> \<not> permits class pod"
    | "podNodeName pod = node" "permits class pod" "\<not> dec"
    | "podNodeName pod = node" "permits class pod" dec by blast
  then show ?thesis
  proof cases
    case 1
    then show ?thesis by (auto simp: evictPod_def outcomeOf_def permits_iff)
  next
    case 2
    then have c: "(class = evictionClassNone \<or> (class = evictionClassLossyOnly \<and> \<not> isLossyEvictionAllowed pod)) = False"
      by (simp add: permits_iff)
    then show ?thesis
      unfolding evictPod_def outcomeOf_def d_def [symmetric] Let_def d2 c using 2 by simp
  next
    case 3
    then have c: "(class = evictionClassNone \<or> (class = evictionClassLossyOnly \<and> \<not> isLossyEvictionAllowed pod)) = False"
      by (simp add: permits_iff)
    show ?thesis
      unfolding evictPod_def outcomeOf_def d_def [symmetric] Let_def d2 t c
      using 3 by (simp split del: if_split) (simp split: if_split)
  qed
qed

lemma observeEviction_sel [simp]:
  "esRetries (observeEviction o' r s) = esRetries s" "esBudgets (observeEviction o' r s) = esBudgets s"
  "esSummary (observeEviction o' r s) = esSummary s" "esCalls (observeEviction o' r s) = esCalls s"
  "esEvents (observeEviction o' r s) = esEvents s @ [(o', boundedEvictionReason r)]"
  by (simp_all add: observeEviction_def)

lemma onSummary_sel [simp]:
  "esRetries (onSummary f s) = esRetries s" "esBudgets (onSummary f s) = esBudgets s"
  "esSummary (onSummary f s) = f (esSummary s)" "esCalls (onSummary f s) = esCalls s"
  "esEvents (onSummary f s) = esEvents s"
  by (simp_all add: onSummary_def)

lemma attemptEviction_sel [simp]:
  "esCalls (attemptEviction evict policy node now pod s) = esCalls s @ [callFor node now pod]"
  "esBudgets (attemptEviction evict policy node now pod s) = esBudgets s"
  by (simp_all add: attemptEviction_def Let_def split: option.split)

text \<open>What an iteration does to the calls, to the budget and to the deadlines of other Pods.\<close>

lemma applyOutcome_calls:
  "esCalls (applyOutcome policy node now pod s oc) =
     esCalls s @ (case oc of Attempted _ _ \<Rightarrow> [callFor node now pod] | _ \<Rightarrow> [])"
  by (cases oc) simp_all

lemma applyOutcome_budgets:
  "esBudgets (applyOutcome policy node now pod s oc) =
     (case oc of Attempted b _ \<Rightarrow> b | Limited _ b \<Rightarrow> b | _ \<Rightarrow> esBudgets s)"
  by (cases oc) simp_all

lemma applyOutcome_other:
  "k \<noteq> retryKey node pod \<Longrightarrow> esRetries (applyOutcome policy node now pod s oc) k = esRetries s k"
  by (cases oc) (auto simp: attemptEviction_def Let_def forget_def block_def split: option.split)

lemma outcomeOf_Attempted:
  assumes "outcomeOf getPVC getPV evictor policy class node now pod s = Attempted b evict"
  shows "evictable getPVC getPV policy class node pod" "evictor = Some evict"
    "\<not> 0 < remaining (retryKey node pod) now (esRetries s)"
    "tryTake (isLossyEvictionAllowed pod) node now policy (esBudgets s) = (True, fst (snd (tryTake (isLossyEvictionAllowed pod) node now policy (esBudgets s))), b)"
  using assms by (auto simp: outcomeOf_def evictable_def split: if_splits prod.splits)

lemma outcomeOf_budget:
  "outcomeOf getPVC getPV evictor policy class node now pod s = Limited w b \<Longrightarrow>
     tryTake (isLossyEvictionAllowed pod) node now policy (esBudgets s) = (False, w, b)"
  by (auto simp: outcomeOf_def split: if_splits prod.splits)

section \<open>A pass\<close>

text \<open>
  The calls of a pass are those of some of the node's Pods, in order, each of which passed every
  gate and had no deadline pending.
\<close>

definition callable ::
    "(string \<times> string \<Rightarrow> PersistentVolumeClaim option) \<Rightarrow> (string \<Rightarrow> PersistentVolume option) \<Rightarrow>
     EvictionPolicy \<Rightarrow> evictionClass \<Rightarrow> string \<Rightarrow> time \<Rightarrow> deadlines \<Rightarrow> Pod \<Rightarrow> bool" where
  "callable getPVC getPV policy class node now retries pod \<longleftrightarrow>
     evictable getPVC getPV policy class node pod \<and>
     (\<forall>d. retries (retryKey node pod) = Some d \<longrightarrow> d \<le> now)"

lemma evictPods_calls:
  assumes "distinct (map (retryKey node) pods)" "0 \<le> now"
  shows "\<exists>called. subseq called pods \<and>
    esCalls (evictPods getPVC getPV evictor policy class node now pods s) = esCalls s @ map (callFor node now) called \<and>
    (\<forall>pod \<in> set called. callable getPVC getPV policy class node now (esRetries s) pod \<and> evictor \<noteq> None)"
  using assms(1)
proof (induction pods arbitrary: s)
  case Nil
  show ?case by (rule exI [of _ "[]"]) simp
next
  case (Cons pod pods)
  define oc where "oc = outcomeOf getPVC getPV evictor policy class node now pod s"
  define s1 where "s1 = applyOutcome policy node now pod s oc"
  have run: "evictPods getPVC getPV evictor policy class node now (pod # pods) s =
      evictPods getPVC getPV evictor policy class node now pods s1"
    by (simp add: evictPod_outcome s1_def oc_def)
  obtain called where c: "subseq called pods"
    "esCalls (evictPods getPVC getPV evictor policy class node now pods s1) = esCalls s1 @ map (callFor node now) called"
    "\<forall>q \<in> set called. callable getPVC getPV policy class node now (esRetries s1) q \<and> evictor \<noteq> None"
    using Cons.IH [of s1] Cons.prems by auto
  have same: "esRetries s1 (retryKey node q) = esRetries s (retryKey node q)" if "q \<in> set called" for q
  proof -
    have "q \<in> set pods" using list_emb_set [OF c(1) that] by blast
    then have "retryKey node q \<in> retryKey node ` set pods" by (rule imageI)
    moreover have "retryKey node pod \<notin> retryKey node ` set pods" using Cons.prems by simp
    ultimately have "retryKey node q \<noteq> retryKey node pod" by metis
    then show ?thesis unfolding s1_def by (rule applyOutcome_other)
  qed
  have rest: "\<forall>q \<in> set called. callable getPVC getPV policy class node now (esRetries s) q \<and> evictor \<noteq> None"
    using c(3) same by (auto simp: callable_def)
  show ?case
  proof (cases "\<exists>b evict. oc = Attempted b evict")
    case True
    then obtain b evict where oc: "oc = Attempted b evict" by blast
    note a = outcomeOf_Attempted [OF oc [unfolded oc_def]]
    have "callable getPVC getPV policy class node now (esRetries s) pod"
      using a(1,3) remaining_pos_iff [OF assms(2)] by (auto simp: callable_def not_less)
    moreover have "esCalls s1 = esCalls s @ [callFor node now pod]"
      by (simp add: s1_def oc applyOutcome_calls)
    ultimately show ?thesis
      using c(1,2) rest a(2) unfolding run by (intro exI [of _ "pod # called"]) auto
  next
    case False
    then have "esCalls s1 = esCalls s" by (cases oc) (auto simp: s1_def applyOutcome_calls)
    then show ?thesis
      using c(1,2) rest unfolding run by (intro exI [of _ called]) auto
  qed
qed

text \<open>The calls of a pass are the grants of a sequence of budget calls at its instant.\<close>

definition callTake :: "evictCall \<Rightarrow> takeCall" where
  "callTake c = (ecLossy c, ecNode c, ecAt c)"

definition countCalls :: "(takeCall \<Rightarrow> bool) \<Rightarrow> evictCall list \<Rightarrow> int" where
  "countCalls P cs = int (length (filter (\<lambda>c. P (callTake c)) cs))"

lemma countCalls_append [simp]: "countCalls P (xs @ ys) = countCalls P xs + countCalls P ys"
  by (simp add: countCalls_def)

lemma countCalls_Nil [simp]: "countCalls P [] = 0"
  by (simp add: countCalls_def)

lemma callTake_callFor [simp]: "callTake (callFor node now pod) = (isLossyEvictionAllowed pod, node, now)"
  by (simp add: callTake_def callFor_def)

lemma evictPods_grants:
  "\<exists>ts. (\<forall>t \<in> set ts. takeAt t = now \<and> fst (snd t) = node) \<and>
     esBudgets (evictPods getPVC getPV evictor policy class node now pods s) = snd (grants (takeStep policy) P ts (esBudgets s)) \<and>
     countCalls P (esCalls (evictPods getPVC getPV evictor policy class node now pods s)) =
       countCalls P (esCalls s) + fst (grants (takeStep policy) P ts (esBudgets s))"
proof (induction pods arbitrary: s)
  case Nil
  show ?case by (rule exI [of _ "[]"]) simp
next
  case (Cons pod pods)
  define oc where "oc = outcomeOf getPVC getPV evictor policy class node now pod s"
  define s1 where "s1 = applyOutcome policy node now pod s oc"
  let ?t = "(isLossyEvictionAllowed pod, node, now)"
  have run: "evictPods getPVC getPV evictor policy class node now (pod # pods) s =
      evictPods getPVC getPV evictor policy class node now pods s1"
    by (simp add: evictPod_outcome s1_def oc_def)
  obtain ts where ts: "\<forall>t \<in> set ts. takeAt t = now \<and> fst (snd t) = node"
    "esBudgets (evictPods getPVC getPV evictor policy class node now pods s1) = snd (grants (takeStep policy) P ts (esBudgets s1))"
    "countCalls P (esCalls (evictPods getPVC getPV evictor policy class node now pods s1)) =
       countCalls P (esCalls s1) + fst (grants (takeStep policy) P ts (esBudgets s1))"
    using Cons.IH [of s1] by blast
  have t: "takeAt ?t = now" "fst (snd ?t) = node" by (simp_all add: takeAt_def)
  show ?case
  proof (cases oc)
    case (Attempted b evict)
    note a = outcomeOf_Attempted(4) [OF Attempted [unfolded oc_def]]
    have "takeStep policy ?t (esBudgets s) = (True, b)"
      unfolding takeStep_def using arg_cong [OF a, of fst] arg_cong [OF a, of "\<lambda>x. snd (snd x)"]
      by (simp add: case_prod_unfold)
    moreover have "esBudgets s1 = b" "esCalls s1 = esCalls s @ [callFor node now pod]"
      by (simp_all add: s1_def Attempted applyOutcome_calls applyOutcome_budgets)
    ultimately show ?thesis
      using ts t unfolding run
      by (intro exI [of _ "?t # ts"]) (auto simp: countCalls_def split: prod.split)
  next
    case (Limited w b)
    note a = outcomeOf_budget [OF Limited [unfolded oc_def]]
    have "takeStep policy ?t (esBudgets s) = (False, b)"
      using a by (simp add: takeStep_def)
    moreover have "esBudgets s1 = b" "esCalls s1 = esCalls s"
      by (simp_all add: s1_def Limited applyOutcome_calls applyOutcome_budgets)
    ultimately show ?thesis
      using ts t unfolding run
      by (intro exI [of _ "?t # ts"]) (auto split: prod.split)
  qed (use ts run in \<open>auto simp: s1_def applyOutcome_calls applyOutcome_budgets\<close>)
qed

section \<open>Runs of the controller\<close>

text \<open>One call of \<open>reconcileEvictions\<close>, with what the cluster and the clock answer to it.\<close>

record 'e evictionRun =
  erPVC :: "string \<times> string \<Rightarrow> PersistentVolumeClaim option"
  erPV :: "string \<Rightarrow> PersistentVolume option"
  erPods :: "string \<Rightarrow> 'e + Pod list"
  erEvictor :: "evictor option"
  erNow :: time
  erActivity :: NodeActivity
  erNode :: Node
  erDesired :: "Taint option"

definition runEviction ::
    "TaintPolicy \<Rightarrow> EvictionPolicy \<Rightarrow> 'e evictionRun \<Rightarrow> evictState \<Rightarrow> ('e + evictionSummary) \<times> evictState" where
  "runEviction p eviction r s =
     reconcileEvictions p eviction (erPVC r) (erPV r) (erPods r) (erEvictor r) (erNow r)
       (erActivity r) (erNode r) (erDesired r) s"

fun runEvictions :: "TaintPolicy \<Rightarrow> EvictionPolicy \<Rightarrow> 'e evictionRun list \<Rightarrow> evictState \<Rightarrow> evictState" where
  "runEvictions p eviction [] s = s"
| "runEvictions p eviction (r # rs) s = runEvictions p eviction rs (snd (runEviction p eviction r s))"

lemma runEvictions_append: "runEvictions p ev (xs @ ys) s = runEvictions p ev ys (runEvictions p ev xs s)"
  by (induction xs arbitrary: s) auto

lemma reconcileEvictions_pass:
  fixes p eviction getPVC getPV and listPods :: "string \<Rightarrow> 'e + Pod list" and evictor now activity node desired s
  defines "r \<equiv> reconcileEvictions p eviction getPVC getPV listPods evictor now activity node desired s"
    and "class \<equiv> classFor p activity node desired now"
  shows "(esCalls (snd r) = esCalls s \<and> esBudgets (snd r) = esBudgets s) \<or>
    (\<exists>pods. listPods (nodeName node) = Inr pods \<and> class \<noteq> evictionClassNone \<and>
       snd r = evictPods getPVC getPV evictor (normalized eviction) class (nodeName node) now pods
         (s\<lparr>esSummary := zeroSummary, esRetries := prune now (nodeName node) pods (esRetries s)\<rparr>) \<and>
       fst r = Inr (finishSummary (esSummary (snd r))))"
  by (auto simp: r_def class_def reconcileEvictions_def Let_def split: sum.split)

lemma reconcileEvictions_grants:
  fixes p eviction getPVC getPV and listPods :: "string \<Rightarrow> 'e + Pod list" and evictor now activity node desired s
  defines "r \<equiv> snd (reconcileEvictions p eviction getPVC getPV listPods evictor now activity node desired s)"
    and "step \<equiv> takeStep (normalized eviction)"
  shows "\<exists>ts. (\<forall>t \<in> set ts. takeAt t = now) \<and>
     esBudgets r = snd (grants step P ts (esBudgets s)) \<and>
     countCalls P (esCalls r) = countCalls P (esCalls s) + fst (grants step P ts (esBudgets s))"
proof -
  consider "esCalls r = esCalls s \<and> esBudgets r = esBudgets s"
    | pods where "r = evictPods getPVC getPV evictor (normalized eviction) (classFor p activity node desired now)
        (nodeName node) now pods
        (s\<lparr>esSummary := zeroSummary, esRetries := prune now (nodeName node) pods (esRetries s)\<rparr>)"
    using reconcileEvictions_pass [of p eviction getPVC getPV listPods evictor now activity node desired s]
    unfolding r_def by blast
  then show ?thesis
  proof cases
    case 1
    then show ?thesis by (intro exI [of _ "[]"]) simp
  next
    case 2
    from evictPods_grants [of now "nodeName node" getPVC getPV evictor "normalized eviction"
        "classFor p activity node desired now" pods
        "s\<lparr>esSummary := zeroSummary, esRetries := prune now (nodeName node) pods (esRetries s)\<rparr>" P]
    show ?thesis unfolding 2 step_def by auto
  qed
qed

lemma grants_append_fst:
  "fst (grants step mine (xs @ ys) s) =
     fst (grants step mine xs s) + fst (grants step mine ys (snd (grants step mine xs s)))"
  by (induction xs arbitrary: s) (simp_all add: split_def Let_def)

lemma runEvictions_grants:
  fixes p :: TaintPolicy and rs :: "'e evictionRun list"
  shows "\<exists>ts. (\<forall>t \<in> set ts. \<exists>r \<in> set rs. takeAt t = erNow r) \<and>
     esBudgets (runEvictions p eviction rs s) = snd (grants (takeStep (normalized eviction)) P ts (esBudgets s)) \<and>
     countCalls P (esCalls (runEvictions p eviction rs s)) =
       countCalls P (esCalls s) + fst (grants (takeStep (normalized eviction)) P ts (esBudgets s))"
proof (induction rs arbitrary: s)
  case Nil
  show ?case by (rule exI [of _ "[]"]) simp
next
  case (Cons r rs)
  define s1 where "s1 = snd (runEviction p eviction r s)"
  obtain ts1 where 1: "\<forall>t \<in> set ts1. takeAt t = erNow r"
    "esBudgets s1 = snd (grants (takeStep (normalized eviction)) P ts1 (esBudgets s))"
    "countCalls P (esCalls s1) = countCalls P (esCalls s) + fst (grants (takeStep (normalized eviction)) P ts1 (esBudgets s))"
    using reconcileEvictions_grants [of "erNow r" p eviction "erPVC r" "erPV r" "erPods r" "erEvictor r"
        "erActivity r" "erNode r" "erDesired r" s P] unfolding s1_def runEviction_def by blast
  obtain ts2 where 2: "\<forall>t \<in> set ts2. \<exists>r \<in> set rs. takeAt t = erNow r"
    "esBudgets (runEvictions p eviction rs s1) = snd (grants (takeStep (normalized eviction)) P ts2 (esBudgets s1))"
    "countCalls P (esCalls (runEvictions p eviction rs s1)) =
       countCalls P (esCalls s1) + fst (grants (takeStep (normalized eviction)) P ts2 (esBudgets s1))"
    using Cons.IH [of s1] by blast
  show ?case
    using 1 2 by (intro exI [of _ "ts1 @ ts2"]) (auto simp: s1_def [symmetric] grants_append grants_append_fst)
qed

text \<open>A process starts with no deadline, full budgets and no call made.\<close>

definition processStart :: evictState where
  "processStart = \<lparr>esRetries = Map.empty, esBudgets = noBudgets, esSummary = zeroSummary, esEvents = [], esCalls = []\<rparr>"

lemma processStart_sel [simp]: "esBudgets processStart = noBudgets" "esCalls processStart = []"
  "esRetries processStart = Map.empty"
  by (simp_all add: processStart_def)

lemma noBudgets_inv:
  "policyBudgetsOk policy \<Longrightarrow> nodeInv policy lossy node noBudgets"
  "policyBudgetsOk policy \<Longrightarrow> globalInv policy lossy noBudgets"
  by (simp_all add: nodeInv_def globalInv_def bucketOk_def)

text \<open>What the runs of a window call, for one node and class, or for one class on all nodes.\<close>

lemma window_grants:
  fixes rs :: "'e evictionRun list" and hist :: "'e evictionRun list" and p :: TaintPolicy and eviction :: EvictionPolicy
  assumes "\<forall>r \<in> set hist. 0 < erNow r" "\<forall>r \<in> set rs. t0 \<le> erNow r \<and> erNow r \<le> t1" "0 < t0"
  defines "before \<equiv> runEvictions p eviction hist processStart" and "step \<equiv> takeStep (normalized eviction)"
  shows "\<exists>ts0 ts. (\<forall>t \<in> set ts0. 0 < takeAt t) \<and> (\<forall>t \<in> set ts. t0 \<le> takeAt t \<and> takeAt t \<le> t1) \<and>
     countCalls P (esCalls (runEvictions p eviction rs before)) - countCalls P (esCalls before) =
       fst (grants step P ts (snd (grants step P ts0 noBudgets)))"
proof -
  obtain ts0 where 0: "\<forall>t \<in> set ts0. \<exists>r \<in> set hist. takeAt t = erNow r"
    "esBudgets before = snd (grants step P ts0 noBudgets)"
    using runEvictions_grants [of hist p eviction processStart P] unfolding before_def step_def by auto
  obtain ts where 1: "\<forall>t \<in> set ts. \<exists>r \<in> set rs. takeAt t = erNow r"
    "countCalls P (esCalls (runEvictions p eviction rs before)) =
       countCalls P (esCalls before) + fst (grants step P ts (esBudgets before))"
    using runEvictions_grants [of rs p eviction before P] unfolding step_def by auto
  have "\<forall>t \<in> set ts0. 0 < takeAt t" using 0(1) assms(1) by metis
  moreover have "\<forall>t \<in> set ts. t0 \<le> takeAt t \<and> takeAt t \<le> t1" using 1(1) assms(2) by metis
  ultimately show ?thesis
    using 0(2) 1(2) by (intro exI [of _ ts0] exI [of _ ts]) simp
qed

lemma node_calls_bounded:
  fixes rs :: "'e evictionRun list" and hist :: "'e evictionRun list" and p :: TaintPolicy and eviction :: EvictionPolicy and lossy and node
  assumes ok: "policyBudgetsOk (normalized eviction)"
    and "\<forall>r \<in> set hist. 0 < erNow r" "\<forall>r \<in> set rs. t0 \<le> erNow r \<and> erNow r \<le> t1" "0 < t0" "t0 \<le> t1"
  defines "before \<equiv> runEvictions p eviction hist processStart"
    and "m \<equiv> nodeMeter (budgetOf (normalized eviction) lossy)"
  shows "(countCalls (forNode lossy node) (esCalls (runEvictions p eviction rs before)) -
          countCalls (forNode lossy node) (esCalls before)) * tokenPrice m \<le> burstCredit m + (t1 - t0)"
proof -
  let ?step = "takeStep (normalized eviction)" and ?P = "forNode lossy node"
  obtain ts0 ts where t: "\<forall>t \<in> set ts0. 0 < takeAt t" "\<forall>t \<in> set ts. t0 \<le> takeAt t \<and> takeAt t \<le> t1"
    "countCalls ?P (esCalls (runEvictions p eviction rs before)) - countCalls ?P (esCalls before) =
       fst (grants ?step ?P ts (snd (grants ?step ?P ts0 noBudgets)))"
    using window_grants [OF assms(2-4), where p = p and eviction = eviction and P = ?P] unfolding before_def by blast
  let ?b = "snd (grants ?step ?P ts0 noBudgets)"
  have inv: "nodeInv (normalized eviction) lossy node ?b"
    by (rule node_budget.grants_inv) (use noBudgets_inv(1) [OF ok] t(1) in auto)
  have seen: "0 \<le> tbUpdated (nodeBucket ?b lossy node)"
    by (rule node_budget.grants_seen) (use noBudgets_inv(1) [OF ok] t(1) in auto)
  have "fst (grants ?step ?P ts ?b) * tokenPrice m \<le> max 0 (burstCredit m) + (t1 - t0)"
    unfolding m_def by (rule node_budget.grants_bound) (use inv seen t(2) assms(4,5) in auto)
  moreover have "0 \<le> burstCredit m"
    using policyBudgetsOk_meters [OF ok, of lossy] meterOk_facts(2,4) [of m] by (simp add: burstCredit_def m_def)
  ultimately show ?thesis using t(3) by simp
qed

lemma global_calls_bounded:
  fixes rs :: "'e evictionRun list" and hist :: "'e evictionRun list" and p :: TaintPolicy and eviction :: EvictionPolicy and lossy
  assumes ok: "policyBudgetsOk (normalized eviction)"
    and "\<forall>r \<in> set hist. 0 < erNow r" "\<forall>r \<in> set rs. t0 \<le> erNow r \<and> erNow r \<le> t1" "0 < t0" "t0 \<le> t1"
  defines "before \<equiv> runEvictions p eviction hist processStart"
    and "m \<equiv> globalMeter (budgetOf (normalized eviction) lossy)"
  shows "(countCalls (forClass lossy) (esCalls (runEvictions p eviction rs before)) -
          countCalls (forClass lossy) (esCalls before)) * tokenPrice m \<le> burstCredit m + (t1 - t0)"
proof -
  let ?step = "takeStep (normalized eviction)" and ?P = "forClass lossy"
  obtain ts0 ts where t: "\<forall>t \<in> set ts0. 0 < takeAt t" "\<forall>t \<in> set ts. t0 \<le> takeAt t \<and> takeAt t \<le> t1"
    "countCalls ?P (esCalls (runEvictions p eviction rs before)) - countCalls ?P (esCalls before) =
       fst (grants ?step ?P ts (snd (grants ?step ?P ts0 noBudgets)))"
    using window_grants [OF assms(2-4), where p = p and eviction = eviction and P = ?P] unfolding before_def by blast
  let ?b = "snd (grants ?step ?P ts0 noBudgets)"
  have inv: "globalInv (normalized eviction) lossy ?b"
    by (rule global_budget.grants_inv) (use noBudgets_inv(2) [OF ok] t(1) in auto)
  have seen: "0 \<le> tbUpdated (globalBucket ?b lossy)"
    by (rule global_budget.grants_seen) (use noBudgets_inv(2) [OF ok] t(1) in auto)
  have "fst (grants ?step ?P ts ?b) * tokenPrice m \<le> max 0 (burstCredit m) + (t1 - t0)"
    unfolding m_def by (rule global_budget.grants_bound) (use inv seen t(2) assms(4,5) in auto)
  moreover have "0 \<le> burstCredit m"
    using policyBudgetsOk_meters [OF ok, of lossy] meterOk_facts(2,4) [of m] by (simp add: burstCredit_def m_def)
  ultimately show ?thesis using t(3) by simp
qed

section \<open>The summary of a pass\<close>

text \<open>
  The counters add up: attempts are calls, deferred Pods are skipped Pods, and a pass that leaves
  a Pod blocked or waiting asks to be run again.
\<close>

definition summaryOk :: "evictState \<Rightarrow> int \<Rightarrow> bool" where
  "summaryOk s calls \<longleftrightarrow>
     (let m = esSummary s in
        smAttempted m = int (length (esCalls s)) - calls \<and> 0 \<le> smEvicted m \<and>
        smEvicted m \<le> smAttempted m \<and> 0 \<le> smDeferred m \<and> smDeferred m \<le> smSkipped m \<and> 0 \<le> smBlocked m \<and>
        smAttempted m \<le> smEvicted m + smBlocked m \<and> 0 \<le> smAudited m \<and>
        (0 < smBlocked m \<or> 0 < smDeferred m \<longrightarrow> 0 < smRequeueAfter m))"

definition delaysOk :: "evictor option \<Rightarrow> EvictionPolicy \<Rightarrow> bool" where
  "delaysOk evictor policy \<longleftrightarrow>
     0 < epRetryBackoff policy \<and>
     (\<forall>evict calls c err. evictor = Some evict \<longrightarrow> evict calls c = Some err \<longrightarrow>
        retryFloor policy err + jitterCap policy \<le> maxInt64)"

lemma retryAfter_pos:
  "0 < d \<Longrightarrow> 0 < smRequeueAfter (retryAfter d m)"
  by (auto simp: retryAfter_def)

lemma retryAfter_counts [simp]:
  "smAttempted (retryAfter d m) = smAttempted m" "smEvicted (retryAfter d m) = smEvicted m"
  "smSkipped (retryAfter d m) = smSkipped m" "smBlocked (retryAfter d m) = smBlocked m"
  "smDeferred (retryAfter d m) = smDeferred m" "smAudited (retryAfter d m) = smAudited m"
  by (simp_all add: retryAfter_def)

lemma noteBlocker_counts [simp]:
  "smAttempted (noteBlocker r t m) = smAttempted m" "smEvicted (noteBlocker r t m) = smEvicted m"
  "smSkipped (noteBlocker r t m) = smSkipped m" "smBlocked (noteBlocker r t m) = smBlocked m"
  "smDeferred (noteBlocker r t m) = smDeferred m" "smAudited (noteBlocker r t m) = smAudited m"
  "smRequeueAfter (noteBlocker r t m) = smRequeueAfter m"
  by (simp_all add: noteBlocker_def Let_def)

lemma tryTake_refused_wait: "tryTake lossy node now policy b = (False, w, b') \<Longrightarrow> 0 < w"
  by (auto simp: tryTake_prepared Let_def split: if_splits)

lemma attemptEviction_summary:
  fixes evict policy node now pod s
  defines "m \<equiv> esSummary s" and "m' \<equiv> esSummary (attemptEviction evict policy node now pod s)"
  shows "smAttempted m' = smAttempted m + 1" "smSkipped m' = smSkipped m" "smDeferred m' = smDeferred m"
    "smAudited m' = smAudited m"
    "(smEvicted m' = smEvicted m + 1 \<and> smBlocked m' = smBlocked m \<and> smRequeueAfter m' = smRequeueAfter m) \<or>
     (smEvicted m' = smEvicted m \<and> smBlocked m' = smBlocked m + 1 \<and>
      (\<exists>err calls c. evict calls c = Some err \<and>
         (0 < blockedRetryDelay (retryKey node pod) policy err \<longrightarrow> 0 < smRequeueAfter m')))"
  by (auto simp: attemptEviction_def m_def m'_def Let_def incAttempted_def incBlocked_def
      intro: retryAfter_pos split: option.split)

lemma applyOutcome_summary:
  assumes "summaryOk s n" "delaysOk evictor policy"
  shows "summaryOk (applyOutcome policy node now pod s (outcomeOf getPVC getPV evictor policy class node now pod s)) n"
proof (cases "outcomeOf getPVC getPV evictor policy class node now pod s")
  case Passed
  with assms(1) show ?thesis by simp
next
  case (Refused r)
  with assms(1) show ?thesis by (simp add: summaryOk_def incSkipped_def Let_def)
next
  case Audited
  with assms(1) show ?thesis by (simp add: summaryOk_def incAudited_def Let_def)
next
  case (Pending d)
  then have "0 < d" by (auto simp: outcomeOf_def split: if_splits prod.splits)
  with Pending assms(1) show ?thesis
    by (simp add: summaryOk_def incBlocked_def Let_def retryAfter_pos)
next
  case Unidentified
  with assms(1) show ?thesis by (simp add: summaryOk_def incSkipped_def Let_def)
next
  case (Limited w b)
  then have "0 < w" by (rule tryTake_refused_wait [OF outcomeOf_budget])
  with Limited assms(1) show ?thesis
    by (simp add: summaryOk_def incSkipped_def incDeferred_def Let_def retryAfter_pos)
next
  case (Attempted b evict)
  have ev: "evictor = Some evict" by (rule outcomeOf_Attempted(2) [OF Attempted])
  have pos: "0 < blockedRetryDelay (retryKey node pod) policy err" if "evict calls c = Some err" for calls c err
    using assms(2) ev that by (intro blockedRetryDelay_bounds(3)) (auto simp: delaysOk_def)
  note a = attemptEviction_summary [of evict policy node now pod "s\<lparr>esBudgets := b\<rparr>"]
  show ?thesis
    using assms(1) a pos unfolding Attempted by (auto simp: summaryOk_def Let_def)
qed

lemma evictPods_summary:
  "summaryOk s n \<Longrightarrow> delaysOk evictor policy \<Longrightarrow>
     summaryOk (evictPods getPVC getPV evictor policy class node now pods s) n"
  by (induction pods arbitrary: s) (simp_all add: evictPod_outcome applyOutcome_summary)

text \<open>
  The counters against the Pods and the calls: of the Pods of the node that the class permits, each is
  counted once, as audited, evicted, blocked or skipped; the evicted ones are the calls the API accepted,
  the skipped ones those that a gate refuses, that wait for the budget or that carry no identity.
\<close>

fun acceptedCalls :: "evictor \<Rightarrow> evictCall list \<Rightarrow> evictCall list \<Rightarrow> int" where
  "acceptedCalls evict history [] = 0"
| "acceptedCalls evict history (c # cs) =
     (if evict history c = None then 1 else 0) + acceptedCalls evict (history @ [c]) cs"

lemma acceptedCalls_snoc:
  "acceptedCalls evict history (cs @ [c]) =
     acceptedCalls evict history cs + (if evict (history @ cs) c = None then 1 else 0)"
  by (induction cs arbitrary: history) simp_all

definition countPods :: "(Pod \<Rightarrow> bool) \<Rightarrow> Pod list \<Rightarrow> int" where
  "countPods P pods = int (length (filter P pods))"

lemma countPods_Nil [simp]: "countPods P [] = 0"
  by (simp add: countPods_def)

lemma countPods_snoc [simp]: "countPods P (pods @ [pod]) = countPods P pods + (if P pod then 1 else 0)"
  by (simp add: countPods_def)

definition considered :: "evictionClass \<Rightarrow> string \<Rightarrow> Pod \<Rightarrow> bool" where
  "considered cl node pod \<longleftrightarrow> podNodeName pod = node \<and> permits cl pod"

definition anonymous :: "Pod \<Rightarrow> bool" where
  "anonymous pod \<longleftrightarrow> podUID pod = '''' \<or> podResourceVersion pod = ''''"

definition tally ::
    "(Pod \<Rightarrow> bool) \<Rightarrow> evictor option \<Rightarrow> EvictionPolicy \<Rightarrow> evictionClass \<Rightarrow> string \<Rightarrow>
     evictCall list \<Rightarrow> Pod list \<Rightarrow> evictState \<Rightarrow> bool" where
  "tally safe evictor policy cl node base pods s \<longleftrightarrow>
     (let m = esSummary s; seen = considered cl node in
      (\<exists>cs. esCalls s = base @ cs \<and> smAttempted m = int (length cs) \<and>
         smEvicted m = (case evictor of None \<Rightarrow> 0 | Some evict \<Rightarrow> acceptedCalls evict base cs)) \<and>
      smAudited m = (if epAudit policy \<or> \<not> epEnabled policy \<or> evictor = None
                     then countPods (\<lambda>q. seen q \<and> safe q) pods else 0) \<and>
      smAudited m + smEvicted m + smBlocked m + smSkipped m = countPods seen pods \<and>
      countPods (\<lambda>q. seen q \<and> \<not> safe q) pods \<le> smSkipped m - smDeferred m \<and>
      smSkipped m - smDeferred m \<le> countPods (\<lambda>q. seen q \<and> \<not> safe q) pods + countPods (\<lambda>q. seen q \<and> safe q \<and> anonymous q) pods)"

lemma attemptEviction_tally:
  fixes evict policy node now pod s
  defines "m \<equiv> esSummary s" and "m' \<equiv> esSummary (attemptEviction evict policy node now pod s)"
    and "ok \<equiv> evict (esCalls s) (callFor node now pod) = None"
  shows "smEvicted m' = smEvicted m + (if ok then 1 else 0)" "smBlocked m' = smBlocked m + (if ok then 0 else 1)"
  by (auto simp: attemptEviction_def m_def m'_def ok_def Let_def incAttempted_def incBlocked_def split: option.split)

lemma applyOutcome_tally:
  fixes getPVC getPV policy
  defines "safe \<equiv> \<lambda>pod. fst (evictionDecision getPVC getPV pod policy)"
  assumes "tally safe evictor policy cl node base handled s"
  shows "tally safe evictor policy cl node base (handled @ [pod])
    (applyOutcome policy node now pod s (outcomeOf getPVC getPV evictor policy cl node now pod s))"
proof (cases "outcomeOf getPVC getPV evictor policy cl node now pod s")
  case Passed
  then have "\<not> considered cl node pod" by (auto simp: outcomeOf_def considered_def split: if_splits prod.splits)
  with Passed assms(2) show ?thesis by (simp add: tally_def Let_def)
next
  case (Refused r)
  then have "considered cl node pod" "\<not> safe pod"
    by (auto simp: outcomeOf_def considered_def safe_def split: if_splits prod.splits)
  with Refused assms(2) show ?thesis by (simp add: tally_def incSkipped_def Let_def)
next
  case Audited
  then have "considered cl node pod" "safe pod" "epAudit policy \<or> \<not> epEnabled policy \<or> evictor = None"
    by (auto simp: outcomeOf_def considered_def safe_def split: if_splits prod.splits)
  with Audited assms(2) show ?thesis by (auto simp: tally_def incAudited_def Let_def)
next
  case (Pending d)
  then have "considered cl node pod" "safe pod" "\<not> (epAudit policy \<or> \<not> epEnabled policy \<or> evictor = None)"
    by (auto simp: outcomeOf_def considered_def safe_def split: if_splits prod.splits)
  with Pending assms(2) show ?thesis by (auto simp: tally_def incBlocked_def Let_def)
next
  case Unidentified
  then have "considered cl node pod" "safe pod" "\<not> (epAudit policy \<or> \<not> epEnabled policy \<or> evictor = None)" "anonymous pod"
    by (auto simp: outcomeOf_def considered_def safe_def anonymous_def split: if_splits prod.splits)
  with Unidentified assms(2) show ?thesis by (auto simp: tally_def incSkipped_def Let_def)
next
  case (Limited w b)
  then have "considered cl node pod" "safe pod" "\<not> (epAudit policy \<or> \<not> epEnabled policy \<or> evictor = None)"
    by (auto simp: outcomeOf_def considered_def safe_def split: if_splits prod.splits)
  with Limited assms(2) show ?thesis by (auto simp: tally_def incSkipped_def incDeferred_def Let_def)
next
  case (Attempted b evict)
  then have c: "considered cl node pod" "safe pod" "\<not> (epAudit policy \<or> \<not> epEnabled policy \<or> evictor = None)"
    by (auto simp: outcomeOf_def considered_def safe_def split: if_splits prod.splits)
  have ev: "evictor = Some evict" by (rule outcomeOf_Attempted(2) [OF Attempted])
  let ?s = "s\<lparr>esBudgets := b\<rparr>"
  note a = attemptEviction_tally [of evict policy node now pod ?s] attemptEviction_summary(1-4) [of evict policy node now pod ?s]
  obtain cs where cs: "esCalls s = base @ cs" "smAttempted (esSummary s) = int (length cs)"
    "smEvicted (esSummary s) = acceptedCalls evict base cs"
    using assms(2) ev by (auto simp: tally_def Let_def)
  show ?thesis
    unfolding tally_def Let_def Attempted applyOutcome.simps a attemptEviction_sel
    using assms(2) cs c
    by (auto simp: tally_def Let_def ev acceptedCalls_snoc intro!: exI [of _ "cs @ [callFor node now pod]"])
qed

lemma evictPods_tally:
  fixes getPVC getPV policy
  defines "safe \<equiv> \<lambda>pod. fst (evictionDecision getPVC getPV pod policy)"
  shows "tally safe evictor policy cl node base handled s \<Longrightarrow>
    tally safe evictor policy cl node base (handled @ pods) (evictPods getPVC getPV evictor policy cl node now pods s)"
proof (induction pods arbitrary: handled s)
  case (Cons pod pods)
  have "tally safe evictor policy cl node base (handled @ [pod]) (evictPod getPVC getPV evictor policy cl node now pod s)"
    using applyOutcome_tally [OF Cons.prems [unfolded safe_def], where now = now and pod = pod] unfolding safe_def evictPod_outcome .
  from Cons.IH [OF this] show ?case by simp
qed simp

lemma classify_counts [simp]:
  "smAttempted (classify m) = smAttempted m" "smEvicted (classify m) = smEvicted m"
  "smSkipped (classify m) = smSkipped m" "smBlocked (classify m) = smBlocked m"
  "smDeferred (classify m) = smDeferred m" "smAudited (classify m) = smAudited m"
  "smRequeueAfter (classify m) = smRequeueAfter m"
  by (simp_all add: classify_def Let_def)

lemma finishSummary_counts [simp]:
  "smAttempted (finishSummary m) = smAttempted m" "smEvicted (finishSummary m) = smEvicted m"
  "smSkipped (finishSummary m) = smSkipped m" "smBlocked (finishSummary m) = smBlocked m"
  "smDeferred (finishSummary m) = smDeferred m" "smAudited (finishSummary m) = smAudited m"
  "smRequeueAfter (finishSummary m) = smRequeueAfter m"
  by (simp_all add: finishSummary_def)

lemma classify_outcome:
  "smOutcome (classify m) =
     (if 0 < smBlocked m then ''blocked'' else if 0 < smDeferred m then ''budget-waiting''
      else if 0 < smAttempted m then ''completed'' else if 0 < smAudited m then ''audit-only''
      else ''no-eligible-pods'')"
  by (simp add: classify_def Let_def)

lemma finishSummary_outcome:
  "smOutcome (finishSummary m) = smOutcome (classify m)"
  unfolding finishSummary_def by (simp add: classify_outcome)

section \<open>The eviction policy\<close>

lemma EvictableLabel_trim: "trimSpace EvictableLabel \<noteq> ''''" "\<not> containsAny EvictableLabel [CHR 0x20, CHR 0x09, CHR 0x0A]"
  by code_simp+

lemma normalizedBudget_pos:
  assumes "0 < n" "0 < interval"
  shows "0 < ebPerNode (normalizedBudget b n interval)" "0 < ebGlobal (normalizedBudget b n interval)"
    "0 < ebInterval (normalizedBudget b n interval)" "0 < ebBurstPerNode (normalizedBudget b n interval)"
    "0 < ebBurstGlobal (normalizedBudget b n interval)"
  using assms by (auto simp: normalizedBudget_def Let_def)

lemma normalizedBudget_id:
  assumes "0 < ebPerNode b" "0 < ebGlobal b" "0 < ebInterval b" "0 < ebBurstPerNode b" "0 < ebBurstGlobal b"
  shows "normalizedBudget b n interval = b"
  using assms by (simp add: normalizedBudget_def Let_def)

lemma normalized_facts:
  "0 < epMaxPerReconcile (normalized p)" "0 < epBudgetInterval (normalized p)" "0 < epRetryBackoff (normalized p)"
  "0 \<le> epRetryJitter (normalized p)" "epRetryJitter (normalized p) \<le> epRetryBackoff (normalized p)"
  "trimSpace (epEvictableLabel (normalized p)) \<noteq> ''''"
  "epEnabled (normalized p) = epEnabled p" "epAudit (normalized p) = epAudit p"
  "epProtectedNamespaces (normalized p) = epProtectedNamespaces p"
  using EvictableLabel_trim(1) by (simp_all add: normalized_def Let_def second_def minute_def)

lemma normalized_budgets:
  "epStandardBudget (normalized p) =
     normalizedBudget (epStandardBudget p) (epMaxPerReconcile (normalized p)) (epBudgetInterval (normalized p))"
  "epLossyBudget (normalized p) =
     normalizedBudget (epLossyBudget p) (epMaxPerReconcile (normalized p)) (epBudgetInterval (normalized p))"
  by (simp_all add: normalized_def Let_def)

lemma normalized_fix:
  assumes "0 < epMaxPerReconcile p" "0 < epBudgetInterval p" "0 < epRetryBackoff p"
    "0 \<le> epRetryJitter p" "epRetryJitter p \<le> epRetryBackoff p" "trimSpace (epEvictableLabel p) \<noteq> ''''"
    "normalizedBudget (epStandardBudget p) (epMaxPerReconcile p) (epBudgetInterval p) = epStandardBudget p"
    "normalizedBudget (epLossyBudget p) (epMaxPerReconcile p) (epBudgetInterval p) = epLossyBudget p"
  shows "normalized p = p"
  using assms by (cases p) (simp add: normalized_def Let_def)

lemma normalized_idem: "normalized (normalized p) = normalized p"
proof (rule normalized_fix)
  note pos = normalizedBudget_pos [OF normalized_facts(1,2)]
  show "normalizedBudget (epStandardBudget (normalized p)) (epMaxPerReconcile (normalized p))
      (epBudgetInterval (normalized p)) = epStandardBudget (normalized p)"
    "normalizedBudget (epLossyBudget (normalized p)) (epMaxPerReconcile (normalized p))
      (epBudgetInterval (normalized p)) = epLossyBudget (normalized p)"
    unfolding normalized_budgets by (rule normalizedBudget_id; rule pos)+
qed (rule normalized_facts)+

lemma validateEviction_iff:
  "validateEviction p = None \<longleftrightarrow> \<not> containsAny (epEvictableLabel (normalized p)) [CHR 0x20, CHR 0x09, CHR 0x0A]"
proof -
  note f = normalized_facts [of p]
  note b = normalizedBudget_pos [OF normalized_facts(1,2) [of p], folded not_le]
  show ?thesis
    using f unfolding validateEviction_def Let_def normalized_budgets by (simp add: b not_le [symmetric])
qed

section \<open>The gates of a Pod\<close>

definition volumeOk ::
    "(string \<times> string \<Rightarrow> PersistentVolumeClaim option) \<Rightarrow> (string \<Rightarrow> PersistentVolume option) \<Rightarrow>
     string \<Rightarrow> bool \<Rightarrow> Volume \<Rightarrow> bool" where
  "volumeOk getPVC getPV ns allowLossy v \<longleftrightarrow>
     \<not> volHostPath v \<and> (volEmptyDir v \<longrightarrow> allowLossy) \<and>
     (case volClaim v of None \<Rightarrow> True
      | Some claim \<Rightarrow> \<not> allowLossy \<and>
          (\<exists>pvc pv. getPVC (ns, claim) = Some pvc \<and> pvcVolumeName pvc \<noteq> '''' \<and>
             ReadWriteOnce \<notin> set (pvcAccessModes pvc) \<and> ReadWriteOncePod \<notin> set (pvcAccessModes pvc) \<and>
             getPV (pvcVolumeName pvc) = Some pv \<and> \<not> pvLocal pv \<and> \<not> pvHostPath pv))"

lemma volumeGate_Cons:
  "volumeGate getPVC getPV ns allowLossy (v # vs) = None \<longleftrightarrow>
     volumeOk getPVC getPV ns allowLossy v \<and> volumeGate getPVC getPV ns allowLossy vs = None"
proof (cases "volClaim v")
  case None
  then show ?thesis by (simp add: volumeOk_def)
next
  case claim: (Some claim)
  show ?thesis
  proof (cases "getPVC (ns, claim)")
    case None
    then show ?thesis using claim by (simp add: volumeOk_def)
  next
    case (Some pvc)
    then show ?thesis
      using claim by (cases "getPV (pvcVolumeName pvc)") (auto simp: volumeOk_def list_ex_iff)
  qed
qed

lemma volumeGate_None_iff:
  "volumeGate getPVC getPV ns allowLossy vs = None \<longleftrightarrow> (\<forall>v \<in> set vs. volumeOk getPVC getPV ns allowLossy v)"
proof (induction vs)
  case (Cons v vs)
  show ?case unfolding volumeGate_Cons Cons.IH by simp
qed simp

definition podSafe ::
    "(string \<times> string \<Rightarrow> PersistentVolumeClaim option) \<Rightarrow> (string \<Rightarrow> PersistentVolume option) \<Rightarrow>
     Pod \<Rightarrow> EvictionPolicy \<Rightarrow> bool" where
  "podSafe getPVC getPV pod policy \<longleftrightarrow>
     mapGet (podLabels pod) (epEvictableLabel policy) = ''true'' \<and>
     podNamespace pod \<notin> epProtectedNamespaces policy \<and> podDeletionTimestamp pod = None \<and>
     mapGet (podAnnotations pod) MirrorPodAnnotationKey = '''' \<and>
     podOwnerReferences pod \<noteq> [] \<and> (\<forall>owner \<in> set (podOwnerReferences pod). orKind owner \<noteq> ''DaemonSet'') \<and>
     \<not> equalFold (mapGet (podAnnotations pod) PinnedAnnotation) ''true'' \<and>
     (\<forall>pr. podPriority pod = Some pr \<longrightarrow> pr < systemPriority) \<and>
     podPhase pod \<notin> {PodSucceeded, PodFailed} \<and>
     (isLossyEvictionAllowed pod \<or> (podNodeSelector pod = [] \<and> \<not> hasRequiredNodeAffinity pod)) \<and>
     (\<forall>v \<in> set (podVolumes pod). volumeOk getPVC getPV (podNamespace pod) (isLossyEvictionAllowed pod) v)"

lemma evictionDecision_iff: "fst (evictionDecision getPVC getPV pod policy) \<longleftrightarrow> podSafe getPVC getPV pod policy"
proof -
  define lossy where "lossy = isLossyEvictionAllowed pod"
  define gate where "gate = volumeGate getPVC getPV (podNamespace pod) lossy (podVolumes pod)"
  have g: "gate = None \<longleftrightarrow> (\<forall>v \<in> set (podVolumes pod). volumeOk getPVC getPV (podNamespace pod) lossy v)"
    unfolding gate_def by (rule volumeGate_None_iff)
  have d: "fst (evictionDecision getPVC getPV pod policy) \<longleftrightarrow>
    mapGet (podLabels pod) (epEvictableLabel policy) = ''true'' \<and>
    podNamespace pod \<notin> epProtectedNamespaces policy \<and> podDeletionTimestamp pod = None \<and>
    mapGet (podAnnotations pod) MirrorPodAnnotationKey = '''' \<and>
    \<not> list_ex (\<lambda>owner. orKind owner = ''DaemonSet'') (podOwnerReferences pod) \<and> podOwnerReferences pod \<noteq> [] \<and>
    \<not> equalFold (mapGet (podAnnotations pod) PinnedAnnotation) ''true'' \<and>
    \<not> (podNodeSelector pod \<noteq> [] \<and> \<not> lossy) \<and> \<not> (hasRequiredNodeAffinity pod \<and> \<not> lossy) \<and>
    \<not> (podPriority pod \<noteq> None \<and> the (podPriority pod) \<ge> systemPriority) \<and> gate = None \<and>
    \<not> (podPhase pod = PodSucceeded \<or> podPhase pod = PodFailed)"
    unfolding evictionDecision_def Let_def lossy_def [symmetric] gate_def [symmetric]
    by (cases gate) simp_all
  have l: "\<not> list_ex (\<lambda>owner. orKind owner = ''DaemonSet'') (podOwnerReferences pod) \<longleftrightarrow>
      (\<forall>owner \<in> set (podOwnerReferences pod). orKind owner \<noteq> ''DaemonSet'')"
    by (simp add: list_ex_iff)
  have pr: "\<not> (podPriority pod \<noteq> None \<and> the (podPriority pod) \<ge> systemPriority) \<longleftrightarrow>
      (\<forall>pr. podPriority pod = Some pr \<longrightarrow> pr < systemPriority)"
    by (cases "podPriority pod") (simp_all add: not_le)
  show ?thesis
    unfolding d podSafe_def g lossy_def [symmetric] l pr by blast
qed

text \<open>The Pods a pass looks at: those of its node that the class permits, while eviction is enabled or audited.\<close>

definition consideredPods :: "TaintPolicy \<Rightarrow> EvictionPolicy \<Rightarrow> 'e evictionRun \<Rightarrow> Pod list" where
  "consideredPods p eviction r =
     (if epEnabled eviction \<or> epAudit eviction
      then case erPods r (nodeName (erNode r)) of
             Inl _ \<Rightarrow> []
           | Inr pods \<Rightarrow> filter (considered (classFor p (erActivity r) (erNode r) (erDesired r) (erNow r)) (nodeName (erNode r))) pods
      else [])"

lemma considered_None [simp]: "considered evictionClassNone node pod = False"
  by (simp add: considered_def permits_iff)

lemma countPods_filter: "countPods P (filter Q pods) = countPods (\<lambda>q. Q q \<and> P q) pods"
  by (simp add: countPods_def conj_commute)

lemma countPods_length: "int (length (filter Q pods)) = countPods Q pods"
  by (simp add: countPods_def)

lemma runEviction_cases:
  assumes "fst (runEviction p eviction r s) = Inr m"
  obtains (idle) o' t where "consideredPods p eviction r = []" "esCalls (snd (runEviction p eviction r s)) = esCalls s"
      "m = zeroSummary\<lparr>smOutcome := o', smMessage := t\<rparr>" "smOutcome m \<noteq> ''blocked'' \<and> smOutcome m \<noteq> ''budget-waiting''"
  | (ran) pods s' where "s' = s\<lparr>esSummary := zeroSummary, esRetries := prune (erNow r) (nodeName (erNode r)) pods (esRetries s)\<rparr>"
      "consideredPods p eviction r =
         filter (considered (classFor p (erActivity r) (erNode r) (erDesired r) (erNow r)) (nodeName (erNode r))) pods"
      "snd (runEviction p eviction r s) = evictPods (erPVC r) (erPV r) (erEvictor r) (normalized eviction)
         (classFor p (erActivity r) (erNode r) (erDesired r) (erNow r)) (nodeName (erNode r)) (erNow r) pods s'"
      "m = finishSummary (esSummary (snd (runEviction p eviction r s)))"
proof -
  let ?c = "classFor p (erActivity r) (erNode r) (erDesired r) (erNow r)" and ?p = "normalized eviction"
  consider "\<not> epEnabled ?p \<and> \<not> epAudit ?p" | "epEnabled ?p \<or> epAudit ?p" "?c = evictionClassNone"
    | "epEnabled ?p \<or> epAudit ?p" "?c \<noteq> evictionClassNone" by blast
  then show thesis
  proof cases
    case 1
    let ?m = "zeroSummary\<lparr>smOutcome := ''disabled'', smMessage := [Lit ''eviction is disabled'']\<rparr>"
    have run: "fst (runEviction p eviction r s) = Inr ?m" "esCalls (snd (runEviction p eviction r s)) = esCalls s"
      using 1 by (simp_all add: runEviction_def reconcileEvictions_def Let_def)
    have "consideredPods p eviction r = []"
      using 1 by (simp add: consideredPods_def normalized_facts(7,8) split: sum.split)
    moreover have m: "m = ?m" using assms run(1) by simp
    moreover have "smOutcome m \<noteq> ''blocked'' \<and> smOutcome m \<noteq> ''budget-waiting''" unfolding m by simp
    ultimately show thesis using run(2) by (intro idle)
  next
    case 2
    let ?m = "zeroSummary\<lparr>smOutcome := ''inactive'', smMessage := [Lit ''eviction policy is inactive for the current node state'']\<rparr>"
    have run: "fst (runEviction p eviction r s) = Inr ?m" "esCalls (snd (runEviction p eviction r s)) = esCalls s"
      using 2 by (auto simp: runEviction_def reconcileEvictions_def Let_def)
    have "consideredPods p eviction r = []"
      using 2 by (simp add: consideredPods_def normalized_facts(7,8) split: sum.split)
    moreover have m: "m = ?m" using assms run(1) by simp
    moreover have "smOutcome m \<noteq> ''blocked'' \<and> smOutcome m \<noteq> ''budget-waiting''" unfolding m by simp
    ultimately show thesis using run(2) by (intro idle)
  next
    case 3
    then obtain pods where pods: "erPods r (nodeName (erNode r)) = Inr pods"
      using assms by (auto simp: runEviction_def reconcileEvictions_def Let_def split: sum.splits)
    have en: "epEnabled eviction \<or> epAudit eviction" using 3(1) by (simp only: normalized_facts(7,8))
    define e where "e = evictPods (erPVC r) (erPV r) (erEvictor r) ?p ?c (nodeName (erNode r)) (erNow r) pods
        (s\<lparr>esSummary := zeroSummary, esRetries := prune (erNow r) (nodeName (erNode r)) pods (esRetries s)\<rparr>)"
    have run: "runEviction p eviction r s = (Inr (finishSummary (esSummary e)), e)"
    proof -
      have "(\<not> epEnabled ?p \<and> \<not> epAudit ?p) = False" using 3(1) by blast
      then show ?thesis
        using 3(2) pods by (simp only: runEviction_def reconcileEvictions_def Let_def e_def if_False sum.case) simp
    qed
    show thesis
    proof (rule ran [OF refl])
      show "consideredPods p eviction r = filter (considered ?c (nodeName (erNode r))) pods"
        using pods en by (simp add: consideredPods_def)
      show "snd (runEviction p eviction r s) = evictPods (erPVC r) (erPV r) (erEvictor r) ?p ?c (nodeName (erNode r)) (erNow r) pods
          (s\<lparr>esSummary := zeroSummary, esRetries := prune (erNow r) (nodeName (erNode r)) pods (esRetries s)\<rparr>)"
        by (simp only: run snd_conv e_def)
      show "m = finishSummary (esSummary (snd (runEviction p eviction r s)))"
        using assms by (simp only: run fst_conv snd_conv sum.inject)
    qed
  qed
qed

lemma runEviction_tally:
  fixes p eviction and r :: "'e evictionRun" and s
  assumes "fst (runEviction p eviction r s) = Inr m"
  defines "seen \<equiv> consideredPods p eviction r" and "safe \<equiv> \<lambda>q. podSafe (erPVC r) (erPV r) q (normalized eviction)"
  shows "\<exists>calls. esCalls (snd (runEviction p eviction r s)) = esCalls s @ calls \<and> smAttempted m = int (length calls) \<and>
      smEvicted m = (case erEvictor r of None \<Rightarrow> 0 | Some evict \<Rightarrow> acceptedCalls evict (esCalls s) calls)"
    and "smAudited m = (if epAudit eviction \<or> \<not> epEnabled eviction \<or> erEvictor r = None then countPods safe seen else 0)"
    and "smAudited m + smEvicted m + smBlocked m + smSkipped m = int (length seen)"
    and "countPods (\<lambda>q. \<not> safe q) seen \<le> smSkipped m - smDeferred m"
    and "smSkipped m - smDeferred m \<le> countPods (\<lambda>q. \<not> safe q) seen + countPods (\<lambda>q. safe q \<and> anonymous q) seen"
proof -
  have "(\<exists>calls. esCalls (snd (runEviction p eviction r s)) = esCalls s @ calls \<and> smAttempted m = int (length calls) \<and>
      smEvicted m = (case erEvictor r of None \<Rightarrow> 0 | Some evict \<Rightarrow> acceptedCalls evict (esCalls s) calls)) \<and>
    smAudited m = (if epAudit eviction \<or> \<not> epEnabled eviction \<or> erEvictor r = None then countPods safe seen else 0) \<and>
    smAudited m + smEvicted m + smBlocked m + smSkipped m = int (length seen) \<and>
    countPods (\<lambda>q. \<not> safe q) seen \<le> smSkipped m - smDeferred m \<and>
    smSkipped m - smDeferred m \<le> countPods (\<lambda>q. \<not> safe q) seen + countPods (\<lambda>q. safe q \<and> anonymous q) seen"
    using assms(1)
  proof (cases rule: runEviction_cases)
    case (idle o' t)
    then show ?thesis by (simp add: seen_def zeroSummary_def split: option.split)
  next
    case (ran pods s')
    let ?c = "classFor p (erActivity r) (erNode r) (erDesired r) (erNow r)" and ?node = "nodeName (erNode r)"
    have "tally safe (erEvictor r) (normalized eviction) ?c ?node (esCalls s) [] s'"
      by (simp add: tally_def ran(1) zeroSummary_def split: option.split)
    from evictPods_tally [OF this [unfolded safe_def, folded evictionDecision_iff], where now = "erNow r" and pods = pods]
    have "tally safe (erEvictor r) (normalized eviction) ?c ?node (esCalls s) pods (snd (runEviction p eviction r s))"
      unfolding ran(3) safe_def evictionDecision_iff by simp
    then show ?thesis
      unfolding tally_def Let_def seen_def ran(2) ran(4) finishSummary_counts countPods_filter countPods_length
        normalized_facts(7,8) by simp
  qed
  then show "\<exists>calls. esCalls (snd (runEviction p eviction r s)) = esCalls s @ calls \<and> smAttempted m = int (length calls) \<and>
      smEvicted m = (case erEvictor r of None \<Rightarrow> 0 | Some evict \<Rightarrow> acceptedCalls evict (esCalls s) calls)"
    "smAudited m = (if epAudit eviction \<or> \<not> epEnabled eviction \<or> erEvictor r = None then countPods safe seen else 0)"
    "smAudited m + smEvicted m + smBlocked m + smSkipped m = int (length seen)"
    "countPods (\<lambda>q. \<not> safe q) seen \<le> smSkipped m - smDeferred m"
    "smSkipped m - smDeferred m \<le> countPods (\<lambda>q. \<not> safe q) seen + countPods (\<lambda>q. safe q \<and> anonymous q) seen"
    by blast+
qed

lemma runEviction_summary:
  assumes "delaysOk (erEvictor r) (normalized eviction)" "fst (runEviction p eviction r s) = Inr m"
  shows "0 \<le> smEvicted m \<and> smEvicted m \<le> smAttempted m \<and> smAttempted m \<le> smEvicted m + smBlocked m \<and> 0 \<le> smDeferred m \<and>
    (smOutcome m = ''blocked'' \<or> smOutcome m = ''budget-waiting'' \<longrightarrow> 0 < smRequeueAfter m)"
  using assms(2)
proof (cases rule: runEviction_cases)
  case (idle o' t)
  then show ?thesis by (simp add: zeroSummary_def)
next
  case (ran pods s')
  let ?e = "snd (runEviction p eviction r s)"
  have "summaryOk s' (int (length (esCalls s)))" by (simp add: summaryOk_def zeroSummary_def ran(1))
  from evictPods_summary [OF this assms(1)] have ok: "summaryOk ?e (int (length (esCalls s)))" unfolding ran(3) .
  have "smOutcome m = ''blocked'' \<or> smOutcome m = ''budget-waiting'' \<longrightarrow> 0 < smBlocked (esSummary ?e) \<or> 0 < smDeferred (esSummary ?e)"
    unfolding ran(4) finishSummary_outcome classify_outcome by (simp split: if_split)
  then show ?thesis
    using ok unfolding summaryOk_def Let_def ran(4) finishSummary_counts by linarith
qed

text \<open>Every reason a gate gives is one the metric's label allows.\<close>

definition reasonOk :: "bool \<times> string \<Rightarrow> bool" where
  "reasonOk d \<longleftrightarrow> boundedEvictionReason (snd d) = snd d"

lemma reasonOk_if: "reasonOk a \<Longrightarrow> reasonOk b \<Longrightarrow> reasonOk (if c then a else b)"
  by simp

lemma reasonOk_case:
  "(\<And>r. g = Some r \<Longrightarrow> reasonOk (f r)) \<Longrightarrow> reasonOk a \<Longrightarrow> reasonOk (case g of Some r \<Rightarrow> f r | None \<Rightarrow> a)"
  by (cases g) simp_all

lemma reasonOk_literals:
  "reasonOk (b, ''not-opted-in'')" "reasonOk (b, ''protected-namespace'')" "reasonOk (b, ''terminating'')"
  "reasonOk (b, ''mirror-static'')" "reasonOk (b, ''daemonset-owned'')" "reasonOk (b, ''unmanaged-pod'')"
  "reasonOk (b, ''direct-pinned'')" "reasonOk (b, ''node-selector'')" "reasonOk (b, ''required-node-affinity'')"
  "reasonOk (b, ''critical-priority'')" "reasonOk (b, ''hostpath-volume'')" "reasonOk (b, ''local-emptydir'')"
  "reasonOk (b, ''pvc-lookup-failed'')" "reasonOk (b, ''pvc-not-bound'')" "reasonOk (b, ''pvc-rwo'')"
  "reasonOk (b, ''pv-lookup-failed'')" "reasonOk (b, ''local-pv'')" "reasonOk (b, ''pvc-not-allowed'')"
  "reasonOk (b, ''completed-pod'')" "reasonOk (b, ''eligible'')"
  by (simp_all add: reasonOk_def boundedEvictionReason_def)

definition gateOk :: "string option \<Rightarrow> bool" where
  "gateOk g \<longleftrightarrow> (\<forall>r b. g = Some r \<longrightarrow> reasonOk (b, r))"

lemma gateOk_intros:
  "gateOk None" "(\<And>b. reasonOk (b, r)) \<Longrightarrow> gateOk (Some r)"
  "gateOk x \<Longrightarrow> gateOk y \<Longrightarrow> gateOk (if c then x else y)"
  by (simp_all add: gateOk_def)

lemma gateOk_case: "gateOk x \<Longrightarrow> (\<And>v. gateOk (f v)) \<Longrightarrow> gateOk (case g of None \<Rightarrow> x | Some v \<Rightarrow> f v)"
  by (cases g) simp_all

lemma volumeGate_bounded: "gateOk (volumeGate getPVC getPV ns allowLossy vs)"
proof (induction vs)
  case Nil
  show ?case by (simp add: gateOk_intros)
next
  case (Cons v vs)
  show ?case
    unfolding volumeGate.simps by (intro gateOk_case gateOk_intros reasonOk_literals Cons.IH)
qed

lemma evictionDecision_bounded:
  "boundedEvictionReason (snd (evictionDecision getPVC getPV pod policy)) = snd (evictionDecision getPVC getPV pod policy)"
proof -
  have "reasonOk (b, r)" if "volumeGate getPVC getPV ns lossy vs = Some r" for ns lossy vs r b
    using volumeGate_bounded [of getPVC getPV ns lossy vs] that by (simp add: gateOk_def)
  then have "reasonOk (evictionDecision getPVC getPV pod policy)"
    unfolding evictionDecision_def Let_def by (intro reasonOk_if reasonOk_case reasonOk_literals)
  then show ?thesis by (simp add: reasonOk_def)
qed

end
