(* ===== verification/Enrollment.thy ===== *)
theory Enrollment
  imports Policy NodeOps "HOL-Library.List_Lexorder" "HOL-Library.Char_ord" "HOL-Library.Product_Lexorder" "HOL-Library.Multiset"
begin

text \<open>
  \<open>internal/controller/enrollment.go\<close>: the protection of a Node is the strongest decision among the
  live enrollments that target it.  The indexed \<open>List\<close> of the API client is the argument
  \<open>listed\<close>, which maps a node name to the items found or to an error.  \<open>sort.Slice\<close> orders by
  namespace and then name, bytewise, which is the lexicographic order of the pair; two items of
  the same namespace and name do not occur in a cluster.
\<close>

section \<open>Definitions\<close>

record enrollmentProtection =
  prTaint :: "Taint option"
  prSource :: "NodeActivity option"
  prReason :: msg
  prAdmissionReason :: AdmissionReason
  prRequeueAfter :: duration
  prCount :: int
  prScheduled :: bool
  prNextWindow :: time
  prNextTransition :: time
  prTransitionReason :: TransitionKind

definition noProtection :: enrollmentProtection where
  "noProtection =
     \<lparr>prTaint = None, prSource = None, prReason = [], prAdmissionReason = NoReason, prRequeueAfter = 0,
      prCount = 0, prScheduled = False, prNextWindow = 0, prNextTransition = 0,
      prTransitionReason = NoTransition\<rparr>"

definition protectionRank :: "TaintPolicy \<Rightarrow> time \<Rightarrow> NodeActivity \<Rightarrow> policyDecision \<Rightarrow> int" where
  "protectionRank p now item d =
     (case pdTaint d of
        None \<Rightarrow> 0
      | Some t \<Rightarrow>
          if tEffect t = NoSchedule
          then if stState (naStatus item) = StateActive \<and> stActivity (naStatus item) = ActivityGame \<and>
                  hvFresh (heartbeatFreshness (stHeartbeatAt (naStatus item)) now (polStaleAfter p)
                             (effectiveHeartbeatSkew p))
               then 3 else 2
          else 1)"

definition adopt :: "NodeActivity \<Rightarrow> policyDecision \<Rightarrow> enrollmentProtection \<Rightarrow> enrollmentProtection" where
  "adopt item d result =
     result\<lparr>prTaint := pdTaint d, prSource := Some item, prReason := pdMessage d,
            prAdmissionReason := pdAdmissionReason d, prScheduled := pdScheduled d,
            prNextWindow := pdNextWindow d, prNextTransition := pdNextTransition d,
            prTransitionReason := pdTransitionReason d\<rparr>"

definition liveFor :: "string \<Rightarrow> NodeActivity \<Rightarrow> bool" where
  "liveFor nm item \<longleftrightarrow> specNodeName (naSpec item) = nm \<and> deletionIsZero item"

text \<open>The loop, from the result so far and the best rank so far.\<close>

fun protectItems ::
    "TaintPolicy \<Rightarrow> (NodeActivity \<Rightarrow> policyDecision) \<Rightarrow> string \<Rightarrow> time \<Rightarrow> NodeActivity list \<Rightarrow>
     enrollmentProtection \<Rightarrow> int \<Rightarrow> enrollmentProtection" where
  "protectItems p decide nm now [] result best = result"
| "protectItems p decide nm now (item # items) result best =
     (if specNodeName (naSpec item) \<noteq> nm \<or> \<not> deletionIsZero item
      then protectItems p decide nm now items result best
      else
        let r1 = result\<lparr>prCount := prCount result + 1\<rparr>;
            d = decide item;
            r2 = (if pdRequeueAfter d > 0 \<and>
                     (prRequeueAfter r1 = 0 \<or> pdRequeueAfter d < prRequeueAfter r1)
                  then r1\<lparr>prRequeueAfter := pdRequeueAfter d\<rparr> else r1);
            rank = protectionRank p now item d
        in if rank > best then protectItems p decide nm now items (adopt item d r2) rank
           else protectItems p decide nm now items r2 best)"

definition enrollmentKey :: "NodeActivity \<Rightarrow> string \<times> string" where
  "enrollmentKey item = (naNamespace item, naName item)"

definition protectionForNode ::
    "lib \<Rightarrow> TaintPolicy \<Rightarrow> (string \<Rightarrow> time option) \<Rightarrow> (string \<Rightarrow> 'e + NodeActivity list) \<Rightarrow>
     string \<Rightarrow> time \<Rightarrow> 'e + enrollmentProtection" where
  "protectionForNode l p parseTime listed nm now =
     (case listed nm of
        Inl err \<Rightarrow> Inl err
      | Inr items \<Rightarrow>
          let result = protectItems p (\<lambda>item. decidePolicy l p parseTime item now) nm now
                         (sort_key enrollmentKey items) noProtection (- 1)
          in Inr (if prCount result > 1
                  then result\<lparr>prReason :=
                         [FInt (prCount result),
                          Lit '' live NodeActivity enrollments target this Node; strongest protection applied; remove duplicate enrollments to enable eviction'']\<rparr>
                  else result))"

text \<open>\<open>requestsForNode\<close> and, for a Node event, \<open>requestsForEnrolledNode\<close>: a failed list requests nothing.\<close>

definition requestsFor :: "(string \<Rightarrow> 'e + NodeActivity list) \<Rightarrow> string \<Rightarrow> (string \<times> string) list" where
  "requestsFor listed name =
     (if name = '''' then []
      else case listed name of
        Inl _ \<Rightarrow> []
      | Inr items \<Rightarrow> map enrollmentKey (filter (\<lambda>item. specNodeName (naSpec item) = name) items))"

definition requestsForNode ::
    "(string \<Rightarrow> 'e + NodeActivity list) \<Rightarrow> NodeActivity \<Rightarrow> (string \<times> string) list" where
  "requestsForNode listed activity = requestsFor listed (specNodeName (naSpec activity))"

definition requestsForEnrolledNode ::
    "(string \<Rightarrow> 'e + NodeActivity list) \<Rightarrow> Node \<Rightarrow> (string \<times> string) list" where
  "requestsForEnrolledNode listed node = requestsFor listed (nodeName node)"

section \<open>The loop is a selection\<close>

text \<open>An item competes with the rank of its decision; the first of the strongest wins.\<close>

definition stronger :: "('a \<Rightarrow> int) \<Rightarrow> 'a \<Rightarrow> 'a \<Rightarrow> bool" where
  "stronger rank a b \<longleftrightarrow> rank b < rank a"

interpretation enrolled: strict_pref "stronger rank" for rank
  by unfold_locales (auto simp: stronger_def)

definition minWait :: "duration \<Rightarrow> duration \<Rightarrow> duration" where
  "minWait acc d = (if d > 0 \<and> (acc = 0 \<or> d < acc) then d else acc)"

lemma adopt_frame [frame]:
  "adopt a d (base\<lparr>prCount := c\<rparr>) = (adopt a d base)\<lparr>prCount := c\<rparr>"
  "adopt a d (base\<lparr>prRequeueAfter := w\<rparr>) = (adopt a d base)\<lparr>prRequeueAfter := w\<rparr>"
  "adopt a d (adopt b e base) = adopt a d base"
  "(adopt a d base)\<lparr>prCount := c, prRequeueAfter := prRequeueAfter base\<rparr> = (adopt a d base)\<lparr>prCount := c\<rparr>"
  "prCount (adopt a d base) = prCount base" "prRequeueAfter (adopt a d base) = prRequeueAfter base"
  by (cases base; simp add: adopt_def)+

lemma protectItems_skip:
  "protectItems p decide nm now items result best =
     protectItems p decide nm now (filter (liveFor nm) items) result best"
  by (induction items arbitrary: result best) (auto simp: liveFor_def Let_def)

definition summarize ::
    "(NodeActivity \<Rightarrow> policyDecision) \<Rightarrow> NodeActivity list \<Rightarrow> NodeActivity option \<Rightarrow>
     enrollmentProtection \<Rightarrow> enrollmentProtection" where
  "summarize decide items winner result =
     (case winner of None \<Rightarrow> result | Some item \<Rightarrow> adopt item (decide item) result)
       \<lparr>prCount := prCount result + int (length items),
        prRequeueAfter := foldl minWait (prRequeueAfter result) (map (\<lambda>i. pdRequeueAfter (decide i)) items)\<rparr>"

lemma protectItems_pick:
  fixes p decide now
  defines "rank \<equiv> \<lambda>item. protectionRank p now item (decide item)"
  assumes "\<forall>i \<in> set items. liveFor nm i"
    and "(cur = None \<and> best = -1) \<or> (\<exists>c. cur = Some c \<and> best = rank c)"
    and "result = (case cur of None \<Rightarrow> base | Some c \<Rightarrow> adopt c (decide c) base)"
  shows "protectItems p decide nm now items result best =
           summarize decide items (pick (stronger rank) cur items) base"
  using assms(2-)
proof (induction items arbitrary: cur best result base)
  case Nil
  have "(adopt a d base)\<lparr>prCount := prCount base, prRequeueAfter := prRequeueAfter base\<rparr> = adopt a d base" for a d
    by (cases base) (simp add: adopt_def)
  then show ?case using Nil by (cases cur) (simp_all add: summarize_def)
next
  case (Cons i items)
  let ?d = "decide i" and ?b = "base\<lparr>prCount := prCount base + 1,
      prRequeueAfter := minWait (prRequeueAfter base) (pdRequeueAfter (decide i))\<rparr>"
  have live: "liveFor nm i" using Cons.prems(1) by simp
  have rank0: "0 \<le> rank i" by (simp add: rank_def protectionRank_def split: option.split)
  have rk: "protectionRank p now i (decide i) = rank i" by (simp add: rank_def)
  let ?better = "best < rank i"
  have step: "pickStep (stronger rank) cur i = (if ?better then Some i else cur)"
    using Cons.prems(2) rank0 by (auto simp: pickStep_def stronger_def)
  have run: "protectItems p decide nm now (i # items) result best =
      protectItems p decide nm now items
        (case pickStep (stronger rank) cur i of None \<Rightarrow> ?b | Some c \<Rightarrow> adopt c (decide c) ?b)
        (if ?better then rank i else best)"
    using live Cons.prems(2,3) rank0 unfolding step
    by (cases cur) (auto simp: liveFor_def Let_def rk frame minWait_def)
  have "\<dots> = summarize decide items (pick (stronger rank) (pickStep (stronger rank) cur i) items) ?b"
    by (rule Cons.IH) (use Cons.prems rank0 step in auto)
  also have "\<dots> = summarize decide (i # items) (pick (stronger rank) cur (i # items)) base"
    by (simp add: summarize_def adopt_def split: option.split)
  finally show ?case using run by simp
qed

lemma foldl_minWait:
  assumes "acc = 0 \<or> 0 < acc"
  shows "foldl minWait acc ds = 0 \<and> acc = 0 \<and> (\<forall>d \<in> set ds. d \<le> 0) \<or>
         (0 < foldl minWait acc ds \<and> foldl minWait acc ds \<in> set ds \<union> {acc} \<and>
          (\<forall>d \<in> set ds \<union> {acc}. 0 < d \<longrightarrow> foldl minWait acc ds \<le> d))"
  using assms
proof (induction ds arbitrary: acc)
  case (Cons d ds)
  have "minWait acc d = 0 \<or> 0 < minWait acc d" using Cons.prems by (auto simp: minWait_def)
  note IH = Cons.IH [OF this]
  show ?case
  proof (cases "0 < d \<and> (acc = 0 \<or> d < acc)")
    case True
    then have "minWait acc d = d" by (simp add: minWait_def)
    with IH True show ?thesis by auto
  next
    case False
    then have "minWait acc d = acc" by (auto simp: minWait_def)
    with IH False Cons.prems show ?thesis by auto
  qed
qed simp

definition liveItems :: "string \<Rightarrow> NodeActivity list \<Rightarrow> NodeActivity list" where
  "liveItems nm items = filter (liveFor nm) (sort_key enrollmentKey items)"

lemma set_liveItems [simp]: "set (liveItems nm items) = {i \<in> set items. liveFor nm i}"
  by (auto simp: liveItems_def)

lemma length_liveItems: "length (liveItems nm items) = length (filter (liveFor nm) items)"
proof -
  have "mset (liveItems nm items) = mset (filter (liveFor nm) items)"
    by (simp add: liveItems_def)
  then show ?thesis by (rule mset_eq_length)
qed

lemma foldl_minWait_Min:
  assumes "\<forall>d \<in> set ds. 0 < d"
  shows "foldl minWait 0 ds = (if ds = [] then 0 else Min (set ds))"
proof (cases "ds = []")
  case False
  then have "foldl minWait 0 ds \<in> set ds" "\<forall>d \<in> set ds. foldl minWait 0 ds \<le> d"
    using foldl_minWait [of 0 ds] assms by (auto simp: neq_Nil_conv)
  then have "Min (set ds) = foldl minWait 0 ds" by (intro Min_eqI) auto
  with False show ?thesis by simp
qed simp

lemma protectionForNode_pick:
  assumes "listed nm = Inr items" "protectionForNode l p pt listed nm now = Inr r"
  defines "decide \<equiv> \<lambda>item. decidePolicy l p pt item now"
  shows "prSource r = pick (stronger (\<lambda>i. protectionRank p now i (decide i))) None (liveItems nm items)"
    and "prCount r = int (length (liveItems nm items))"
    and "prRequeueAfter r = foldl minWait 0 (map (\<lambda>i. pdRequeueAfter (decide i)) (liveItems nm items))"
    and "case prSource r of None \<Rightarrow> prTaint r = None \<and> prAdmissionReason r = NoReason \<and> \<not> prScheduled r
         | Some i \<Rightarrow> prTaint r = pdTaint (decide i) \<and> prAdmissionReason r = pdAdmissionReason (decide i) \<and>
             prScheduled r = pdScheduled (decide i) \<and> prNextWindow r = pdNextWindow (decide i) \<and>
             prNextTransition r = pdNextTransition (decide i)"
proof -
  let ?w = "pick (stronger (\<lambda>i. protectionRank p now i (decide i))) None (liveItems nm items)"
  have "protectItems p decide nm now (liveItems nm items) noProtection (- 1) =
      summarize decide (liveItems nm items) ?w noProtection"
    by (rule protectItems_pick) auto
  then have run: "protectItems p decide nm now (sort_key enrollmentKey items) noProtection (- 1) =
      summarize decide (liveItems nm items) ?w noProtection"
    by (metis liveItems_def protectItems_skip)
  define q where "q = summarize decide (liveItems nm items) ?w noProtection"
  have r: "r = q \<or> (\<exists>m. r = q\<lparr>prReason := m\<rparr>)"
    using assms(1,2) run unfolding decide_def q_def by (auto simp: protectionForNode_def Let_def split: if_splits)
  have q: "prSource q = ?w" "prCount q = int (length (liveItems nm items))"
    "prRequeueAfter q = foldl minWait 0 (map (\<lambda>i. pdRequeueAfter (decide i)) (liveItems nm items))"
    "case prSource q of None \<Rightarrow> prTaint q = None \<and> prAdmissionReason q = NoReason \<and> \<not> prScheduled q
         | Some i \<Rightarrow> prTaint q = pdTaint (decide i) \<and> prAdmissionReason q = pdAdmissionReason (decide i) \<and>
             prScheduled q = pdScheduled (decide i) \<and> prNextWindow q = pdNextWindow (decide i) \<and>
             prNextTransition q = pdNextTransition (decide i)"
    by (auto simp: q_def summarize_def adopt_def noProtection_def split: option.split)
  show "prSource r = ?w" "prCount r = int (length (liveItems nm items))"
    "prRequeueAfter r = foldl minWait 0 (map (\<lambda>i. pdRequeueAfter (decide i)) (liveItems nm items))"
    "case prSource r of None \<Rightarrow> prTaint r = None \<and> prAdmissionReason r = NoReason \<and> \<not> prScheduled r
         | Some i \<Rightarrow> prTaint r = pdTaint (decide i) \<and> prAdmissionReason r = pdAdmissionReason (decide i) \<and>
             prScheduled r = pdScheduled (decide i) \<and> prNextWindow r = pdNextWindow (decide i) \<and>
             prNextTransition r = pdNextTransition (decide i)"
    using r q by (auto split: option.splits)
qed

lemma protectionForNode_winner:
  assumes "listed nm = Inr items" "protectionForNode l p pt listed nm now = Inr r"
  defines "decide \<equiv> \<lambda>item. decidePolicy l p pt item now"
  shows "prSource r = None \<longleftrightarrow> (\<forall>i \<in> set items. \<not> liveFor nm i)"
    and "prSource r = Some s \<Longrightarrow> s \<in> set items \<and> liveFor nm s \<and> prTaint r = pdTaint (decide s)"
    and "prSource r = Some s \<Longrightarrow> i \<in> set items \<Longrightarrow> liveFor nm i \<Longrightarrow>
           protectionRank p now i (decide i) \<le> protectionRank p now s (decide s)"
proof -
  note pk = protectionForNode_pick [OF assms(1,2), folded decide_def]
  show "prSource r = None \<longleftrightarrow> (\<forall>i \<in> set items. \<not> liveFor nm i)"
    unfolding pk(1) pick_None_iff by (metis (mono_tags, lifting) empty_filter_conv length_0_conv length_liveItems)
  note win = pk(1) [symmetric]
  show "s \<in> set items \<and> liveFor nm s \<and> prTaint r = pdTaint (decide s)" if "prSource r = Some s"
    using enrolled.pick_maximal(1) [OF win [unfolded that]] pk(4) that by (auto simp: decide_def)
  show "protectionRank p now i (decide i) \<le> protectionRank p now s (decide s)"
    if "prSource r = Some s" "i \<in> set items" "liveFor nm i"
    using enrolled.pick_maximal(2) [OF win [unfolded that(1)], of i] that(2,3) by (simp add: stronger_def decide_def)
qed

text \<open>With one live enrollment the protection is its decision.\<close>

lemma protectionForNode_sole:
  assumes "protectionForNode l p pt listed nm now = Inr r" "prCount r = 1" "prTaint r \<noteq> None"
  shows "\<exists>items e. listed nm = Inr items \<and> filter (liveFor nm) items = [e] \<and> pdTaint (decidePolicy l p pt e now) \<noteq> None"
proof -
  obtain items where items: "listed nm = Inr items"
    using assms(1) by (auto simp: protectionForNode_def split: sum.splits)
  note pick = protectionForNode_pick [OF items assms(1)] and win = protectionForNode_winner [OF items assms(1)]
  have "length (filter (liveFor nm) items) = 1" using pick(2) assms(2) length_liveItems by simp
  then obtain e where e: "filter (liveFor nm) items = [e]" by (auto simp: length_Suc_conv)
  obtain s where s: "prSource r = Some s" using pick(4) assms(3) by (cases "prSource r") auto
  have "s \<in> set (filter (liveFor nm) items)" using win(2) [OF s] by simp
  then have "s = e" unfolding e by simp
  then show ?thesis using items e win(2) [OF s] assms(3) by auto
qed

lemma sort_key_permuted:
  assumes "mset xs = mset ys" "distinct (map f xs)"
  shows "sort_key f xs = sort_key f ys"
proof -
  have set: "set xs = set ys" by (metis assms(1) set_mset_mset)
  have inj: "inj_on f (set xs)" using assms(2) by (simp add: distinct_map)
  have "distinct (map f ys)"
    using assms by (metis mset_map mset_eq_imp_distinct_iff)
  then show ?thesis
    using set inj assms
    by (intro map_sorted_distinct_set_unique [of f])
       (auto simp: distinct_map)
qed

end
