(* ===== verification/Metrics.thy ===== *)
theory Metrics
  imports Eviction Enrollment
begin

text \<open>
  \<open>internal/controller/metrics.go\<close>: the controller's gauges as a store of series, and the
  operations that keep at most one series of a node for each labelled gauge.  A gauge vector maps
  label values to a number; a gauge set from a 64-bit count keeps the count (the source converts
  it to a float64).
\<close>

section \<open>Gauges\<close>

text \<open>
  A vector labelled by the node and by what is currently true of it, with the map that remembers
  the labels last set for each node (\<open>lastActivity\<close>, \<open>lastTaint\<close> and the others).
\<close>

record 'l labelSeries =
  svGauge :: "string \<times> 'l \<rightharpoonup> int"
  svLast :: "string \<rightharpoonup> 'l"

record metricsState =
  mActivity :: "(string \<times> string) labelSeries"
  mTaint :: "(string \<times> string \<times> TaintEffect) labelSeries"
  mAdmission :: "string labelSeries"
  mEvictionOutcome :: "string labelSeries"
  mEvictionBlocked :: "string labelSeries"
  mSchedulable :: "string \<rightharpoonup> int"
  mHeartbeatAge :: "string \<rightharpoonup> int"
  mHeartbeatValid :: "string \<rightharpoonup> int"
  mBurstTaint :: "string \<rightharpoonup> int"
  mNextTransition :: "string \<rightharpoonup> int"
  mConfigInvalid :: "string \<times> string \<rightharpoonup> int"
  mWindowActive :: "string \<rightharpoonup> int"
  mNextWindow :: "string \<rightharpoonup> int"

definition noSeries :: "'l labelSeries" where
  "noSeries = \<lparr>svGauge = (\<lambda>_. None), svLast = (\<lambda>_. None)\<rparr>"

definition resetMetrics :: metricsState where
  "resetMetrics =
     \<lparr>mActivity = noSeries, mTaint = noSeries, mAdmission = noSeries, mEvictionOutcome = noSeries,
      mEvictionBlocked = noSeries, mSchedulable = (\<lambda>_. None), mHeartbeatAge = (\<lambda>_. None),
      mHeartbeatValid = (\<lambda>_. None), mBurstTaint = (\<lambda>_. None), mNextTransition = (\<lambda>_. None),
      mConfigInvalid = (\<lambda>_. None), mWindowActive = (\<lambda>_. None), mNextWindow = (\<lambda>_. None)\<rparr>"

text \<open>Delete the series last set for the node when its labels differ, then set the new one.\<close>

definition moveSeries :: "string \<Rightarrow> 'l \<Rightarrow> 'l labelSeries \<Rightarrow> 'l labelSeries" where
  "moveSeries node l s =
     (let gauge = (case svLast s node of
                     None \<Rightarrow> svGauge s
                   | Some old \<Rightarrow> if old \<noteq> l then (svGauge s)((node, old) := None) else svGauge s)
      in \<lparr>svGauge = gauge((node, l) \<mapsto> 1), svLast = (svLast s)(node \<mapsto> l)\<rparr>)"

definition dropSeries :: "string \<Rightarrow> 'l labelSeries \<Rightarrow> 'l labelSeries" where
  "dropSeries node s =
     (case svLast s node of
        None \<Rightarrow> s
      | Some old \<Rightarrow> \<lparr>svGauge = (svGauge s)((node, old) := None), svLast = (svLast s)(node := None)\<rparr>)"

definition boolGauge :: "bool \<Rightarrow> int" where
  "boolGauge b = (if b then 1 else 0)"

text \<open>\<open>time.Time.Unix\<close>: whole seconds since 1970, of an instant counted from year 1.\<close>

definition unixSeconds :: "time \<Rightarrow> int" where
  "unixSeconds t = t div second - 62135596800"

section \<open>Observations\<close>

definition observeWindowMetrics :: "string \<Rightarrow> bool \<Rightarrow> time \<Rightarrow> metricsState \<Rightarrow> metricsState" where
  "observeWindowMetrics node active nxt m =
     (if trimSpace node = [] then m
      else
        let m1 = m\<lparr>mWindowActive := (mWindowActive m)(node \<mapsto> boolGauge active)\<rparr>
        in if isZero nxt then m1\<lparr>mNextWindow := (mNextWindow m1)(node := None)\<rparr>
           else m1\<lparr>mNextWindow := (mNextWindow m1)(node \<mapsto> unixSeconds nxt)\<rparr>)"

definition observeActivityAndTaint ::
    "string \<Rightarrow> State \<Rightarrow> Activity \<Rightarrow> Taint option \<Rightarrow> bool \<Rightarrow> metricsState \<Rightarrow> metricsState" where
  "observeActivityAndTaint node0 st act desired fresh m =
     (let node = trimSpace node0
      in if node = [] then m
         else
           let stateStr = (if st = [] then StateUnknown else st);
               activityStr = (if act = [] then ActivityUnknown else act);
               m1 = m\<lparr>mActivity := moveSeries node (stateStr, activityStr) (mActivity m)\<rparr>;
               m2 = (case desired of
                       None \<Rightarrow> m1\<lparr>mTaint := dropSeries node (mTaint m1)\<rparr>
                     | Some t \<Rightarrow> m1\<lparr>mTaint := moveSeries node (tKey t, tValue t, tEffect t) (mTaint m1)\<rparr>)
           in m2\<lparr>mSchedulable := (mSchedulable m2)(node \<mapsto> boolGauge (controllerAdmitted fresh st act desired))\<rparr>)"

definition observeAdmission ::
    "string \<Rightarrow> time \<Rightarrow> time \<Rightarrow> duration \<Rightarrow> duration \<Rightarrow> string \<Rightarrow> bool \<Rightarrow> bool \<Rightarrow> time \<Rightarrow> metricsState \<Rightarrow> metricsState"
where
  "observeAdmission node0 heartbeatAt now staleAfter skew reason burstConfigured burstApplied nextTransition m =
     (let node = trimSpace node0
      in if node = [] \<or> reason = [] then m
         else
           let v = heartbeatFreshness heartbeatAt now staleAfter skew;
               m1 = m\<lparr>mAdmission := moveSeries node reason (mAdmission m)\<rparr>;
               m2 = m1\<lparr>mHeartbeatValid := (mHeartbeatValid m1)(node \<mapsto> boolGauge (hvFresh v))\<rparr>;
               m3 = (if hvMissing v then m2\<lparr>mHeartbeatAge := (mHeartbeatAge m2)(node := None)\<rparr>
                     else if hvFuture v
                     then m2\<lparr>mHeartbeatAge := (mHeartbeatAge m2)(node \<mapsto> futureAgeSeconds (hvLead v))\<rparr>
                     else m2\<lparr>mHeartbeatAge := (mHeartbeatAge m2)(node \<mapsto> the (hvAgeSeconds v))\<rparr>);
               m4 = (if burstConfigured
                     then m3\<lparr>mBurstTaint := (mBurstTaint m3)(node \<mapsto> boolGauge burstApplied)\<rparr>
                     else m3\<lparr>mBurstTaint := (mBurstTaint m3)(node := None)\<rparr>)
           in if isZero nextTransition
              then m4\<lparr>mNextTransition := (mNextTransition m4)(node := None)\<rparr>
              else m4\<lparr>mNextTransition := (mNextTransition m4)(node \<mapsto> unixSeconds nextTransition)\<rparr>)"

definition dropBlocker :: "string \<Rightarrow> string \<Rightarrow> string \<Rightarrow> string labelSeries \<Rightarrow> string labelSeries" where
  "dropBlocker node outcome blocker s =
     (case svLast s node of
        None \<Rightarrow> s
      | Some old \<Rightarrow>
          if outcome \<noteq> ''blocked'' \<or> old \<noteq> blocker
          then \<lparr>svGauge = (svGauge s)((node, old) := None), svLast = (svLast s)(node := None)\<rparr>
          else s)"

definition setBlocker :: "string \<Rightarrow> string \<Rightarrow> string labelSeries \<Rightarrow> string labelSeries" where
  "setBlocker node blocker s =
     \<lparr>svGauge = (svGauge s)((node, boundedBlockerReason blocker) \<mapsto> 1),
      svLast = (svLast s)(node \<mapsto> boundedBlockerReason blocker)\<rparr>"

definition observeEvictionStatus :: "string \<Rightarrow> string \<Rightarrow> string \<Rightarrow> metricsState \<Rightarrow> metricsState" where
  "observeEvictionStatus node0 outcome0 blocker m =
     (let node = trimSpace node0; outcome = trimSpace outcome0
      in if node = [] \<or> outcome = [] then m
         else
           let m1 = m\<lparr>mEvictionOutcome := moveSeries node outcome (mEvictionOutcome m)\<rparr>;
               m2 = m1\<lparr>mEvictionBlocked := dropBlocker node outcome blocker (mEvictionBlocked m1)\<rparr>
           in if outcome = ''blocked''
              then m2\<lparr>mEvictionBlocked := setBlocker node blocker (mEvictionBlocked m2)\<rparr>
              else m2)"

definition configInvalidReason :: string where
  "configInvalidReason = ''schedule''"

definition observeConfigInvalid :: "string \<Rightarrow> bool \<Rightarrow> metricsState \<Rightarrow> metricsState" where
  "observeConfigInvalid node0 invalid m =
     (let node = trimSpace node0
      in if node = [] then m
         else if invalid
         then m\<lparr>mConfigInvalid := (mConfigInvalid m)((node, configInvalidReason) \<mapsto> 1)\<rparr>
         else m\<lparr>mConfigInvalid := (mConfigInvalid m)((node, configInvalidReason) := None)\<rparr>)"

definition clearNodeMetrics :: "string \<Rightarrow> metricsState \<Rightarrow> metricsState" where
  "clearNodeMetrics node0 m =
     (let node = trimSpace node0
      in if node = [] then m
         else
           m\<lparr>mActivity := dropSeries node (mActivity m),
             mTaint := dropSeries node (mTaint m),
             mSchedulable := (mSchedulable m)(node := None),
             mWindowActive := (mWindowActive m)(node := None),
             mNextWindow := (mNextWindow m)(node := None),
             mAdmission := dropSeries node (mAdmission m),
             mHeartbeatValid := (mHeartbeatValid m)(node := None),
             mHeartbeatAge := (mHeartbeatAge m)(node := None),
             mBurstTaint := (mBurstTaint m)(node := None),
             mNextTransition := (mNextTransition m)(node := None),
             mEvictionOutcome := dropSeries node (mEvictionOutcome m),
             mEvictionBlocked := dropSeries node (mEvictionBlocked m),
             mConfigInvalid := (mConfigInvalid m)((node, configInvalidReason) := None)\<rparr>)"

section \<open>Tracked series\<close>

text \<open>The series of a vector are exactly the labels last set, each with value 1.\<close>

definition tracked :: "'l labelSeries \<Rightarrow> bool" where
  "tracked s \<longleftrightarrow> (\<forall>node l. svGauge s (node, l) = (if svLast s node = Some l then Some 1 else None))"

lemma tracked_noSeries [simp]: "tracked noSeries"
  by (simp add: tracked_def noSeries_def)

lemma tracked_move [simp]: "tracked s \<Longrightarrow> tracked (moveSeries node l s)"
  by (auto simp: tracked_def moveSeries_def Let_def split: option.split)

lemma tracked_drop [simp]: "tracked s \<Longrightarrow> tracked (dropSeries node s)"
  by (auto simp: tracked_def dropSeries_def split: option.split)

lemma tracked_one:
  "tracked s \<Longrightarrow> svGauge s (node, l) \<noteq> None \<Longrightarrow> svGauge s (node, l') \<noteq> None \<Longrightarrow> l = l'"
  by (auto simp: tracked_def split: if_splits)

lemma move_last [simp]: "svLast (moveSeries node l s) = (svLast s)(node \<mapsto> l)"
  by (simp add: moveSeries_def Let_def)

lemma drop_last [simp]: "svLast (dropSeries node s) = (svLast s)(node := None)"
  by (auto simp: dropSeries_def fun_eq_iff split: option.split)

text \<open>The blocker series also keeps its labels bounded.\<close>

lemma boundedBlockerReason_idem [simp]:
  "boundedBlockerReason (boundedBlockerReason b) = boundedBlockerReason b"
  by (simp add: boundedBlockerReason_def)

definition blockersOk :: "string labelSeries \<Rightarrow> bool" where
  "blockersOk s \<longleftrightarrow> tracked s \<and> (\<forall>node b. svLast s node = Some b \<longrightarrow> boundedBlockerReason b = b)"

lemma blockersOk_tracked: "blockersOk s \<Longrightarrow> tracked s"
  by (simp add: blockersOk_def)

lemma blockersOk_drop: "blockersOk s \<Longrightarrow> blockersOk (dropSeries node s)"
  by (simp add: blockersOk_def)

lemma blockersOk_dropBlocker: "blockersOk s \<Longrightarrow> blockersOk (dropBlocker node outcome blocker s)"
  by (auto simp: blockersOk_def tracked_def dropBlocker_def split: option.split)

lemma blockersOk_set:
  assumes "blockersOk s"
  shows "blockersOk (setBlocker node blocker (dropBlocker node ''blocked'' blocker s))"
proof (cases "svLast s node")
  case None
  then show ?thesis
    using assms by (auto simp: blockersOk_def tracked_def dropBlocker_def setBlocker_def)
next
  case (Some old)
  then have "boundedBlockerReason old = old" using assms by (simp add: blockersOk_def)
  then show ?thesis
    using assms Some by (auto simp: blockersOk_def tracked_def dropBlocker_def setBlocker_def)
qed

section \<open>The invariant of the store\<close>

definition metricsOk :: "metricsState \<Rightarrow> bool" where
  "metricsOk m \<longleftrightarrow>
     tracked (mActivity m) \<and> tracked (mTaint m) \<and> tracked (mAdmission m) \<and>
     tracked (mEvictionOutcome m) \<and> blockersOk (mEvictionBlocked m) \<and>
     (\<forall>node r. mConfigInvalid m (node, r) \<noteq> None \<longrightarrow> r = configInvalidReason) \<and>
     (\<forall>node. (\<exists>b. svLast (mEvictionBlocked m) node = Some b) \<longleftrightarrow> svLast (mEvictionOutcome m) node = Some ''blocked'') \<and>
     (\<forall>node. mSchedulable m node = Some 1 \<longrightarrow> svLast (mTaint m) node = None)"

lemma metricsOk_reset [simp]: "metricsOk resetMetrics"
  by (simp add: metricsOk_def resetMetrics_def blockersOk_def noSeries_def tracked_def)

lemma metricsOk_window [simp]: "metricsOk m \<Longrightarrow> metricsOk (observeWindowMetrics node active nxt m)"
  by (simp add: metricsOk_def observeWindowMetrics_def Let_def)

lemma metricsOk_activity [simp]:
  "metricsOk m \<Longrightarrow> metricsOk (observeActivityAndTaint node st act desired fresh m)"
  by (simp add: metricsOk_def observeActivityAndTaint_def Let_def boolGauge_def controllerAdmitted_def split: option.split)

lemma metricsOk_admission [simp]:
  "metricsOk m \<Longrightarrow> metricsOk (observeAdmission node hb now stale skew reason cfg applied nxt m)"
  by (simp add: metricsOk_def observeAdmission_def Let_def)

lemma metricsOk_config [simp]: "metricsOk m \<Longrightarrow> metricsOk (observeConfigInvalid node invalid m)"
  by (simp add: metricsOk_def observeConfigInvalid_def Let_def)

lemma metricsOk_clear [simp]: "metricsOk m \<Longrightarrow> metricsOk (clearNodeMetrics node m)"
  by (simp add: metricsOk_def clearNodeMetrics_def Let_def blockersOk_drop)

lemma dropBlocker_last:
  "svLast (dropBlocker node outcome blocker s) n =
     (if n = node \<and> (outcome \<noteq> ''blocked'' \<or> svLast s node \<noteq> Some blocker) then None else svLast s n)"
  by (auto simp: dropBlocker_def split: option.split)

lemma metricsOk_eviction [simp]:
  assumes "metricsOk m"
  shows "metricsOk (observeEvictionStatus node outcome blocker m)"
proof -
  have b: "blockersOk (mEvictionBlocked m)" and t: "tracked (mEvictionOutcome m)"
    using assms by (simp_all add: metricsOk_def)
  have iff: "(\<exists>x. svLast (mEvictionBlocked m) n = Some x) \<longleftrightarrow> svLast (mEvictionOutcome m) n = Some ''blocked''" for n
    using assms by (simp add: metricsOk_def)
  show ?thesis
  proof (cases "trimSpace node = [] \<or> trimSpace outcome = []")
    case True
    then show ?thesis using assms by (simp add: observeEvictionStatus_def)
  next
    case False
    show ?thesis
    proof (cases "trimSpace outcome = ''blocked''")
      case True
      then show ?thesis
        using assms False b iff
        by (simp add: observeEvictionStatus_def metricsOk_def blockersOk_set setBlocker_def [where s = "dropBlocker _ _ _ _"]
            blockersOk_set [unfolded setBlocker_def] dropBlocker_last Let_def)
    next
      case other: False
      then show ?thesis
        using assms False b iff
        by (simp add: observeEvictionStatus_def metricsOk_def blockersOk_dropBlocker dropBlocker_last Let_def)
    qed
  qed
qed

text \<open>What is exported for a node: some series of some gauge has its name.\<close>

definition exported :: "string \<Rightarrow> metricsState \<Rightarrow> bool" where
  "exported node m \<longleftrightarrow>
     (\<exists>l. svGauge (mActivity m) (node, l) \<noteq> None) \<or> (\<exists>l. svGauge (mTaint m) (node, l) \<noteq> None) \<or>
     (\<exists>l. svGauge (mAdmission m) (node, l) \<noteq> None) \<or> (\<exists>l. svGauge (mEvictionOutcome m) (node, l) \<noteq> None) \<or>
     (\<exists>l. svGauge (mEvictionBlocked m) (node, l) \<noteq> None) \<or> mSchedulable m node \<noteq> None \<or>
     mHeartbeatAge m node \<noteq> None \<or> mHeartbeatValid m node \<noteq> None \<or> mBurstTaint m node \<noteq> None \<or>
     mNextTransition m node \<noteq> None \<or> (\<exists>r. mConfigInvalid m (node, r) \<noteq> None) \<or>
     mWindowActive m node \<noteq> None \<or> mNextWindow m node \<noteq> None"

lemma tracked_dropped: "tracked s \<Longrightarrow> svGauge (dropSeries node s) (node, l) = None"
  using tracked_drop [of s node] by (simp add: tracked_def)

lemma clear_exported:
  assumes "metricsOk m" "trimSpace node \<noteq> []"
  shows "\<not> exported (trimSpace node) (clearNodeMetrics node m)"
proof -
  have t: "tracked (mActivity m)" "tracked (mTaint m)" "tracked (mAdmission m)" "tracked (mEvictionOutcome m)"
    "tracked (mEvictionBlocked m)"
    using assms(1) by (simp_all add: metricsOk_def blockersOk_def)
  have c: "r \<noteq> configInvalidReason \<Longrightarrow> mConfigInvalid m (n, r) = None" for n r
    using assms(1) unfolding metricsOk_def by blast
  show ?thesis
    using assms(2) c unfolding exported_def clearNodeMetrics_def Let_def
    by (simp add: tracked_dropped [OF t(1)] tracked_dropped [OF t(2)] tracked_dropped [OF t(3)]
        tracked_dropped [OF t(4)] tracked_dropped [OF t(5)])
qed

end
