(* ===== verification/Reconcile.thy ===== *)
theory Reconcile
  imports Metrics
begin

text \<open>
  The reconciler of \<open>nodeactivity_controller.go\<close>: one whole pass of \<open>Reconcile\<close> with its
  finalizer, its conditions, the node update, the gauges and the eviction pass, as a function of
  the state of the process and of the world around it.

  The world is a parameter: what the API server answers to each read and write, the clock at each
  reading, and the helpers of the API machinery on conditions and finalizers.  A write returns
  the object the server stored, which replaces the local copy, as the client does.  A pass is a
  state transformer that ends with a result or with the error that stopped it.
\<close>

section \<open>The world\<close>

datatype ('e, 'a) lookup = NotFound | Failed 'e | Found 'a

datatype apiWrite = PatchObject NodeActivity | PatchStatus NodeActivity | UpdateNode Node

datatype 'e failure = Api 'e | Own msg

record 'e world =
  wClock :: "nat \<Rightarrow> time"
  wGetActivity :: "('e, NodeActivity) lookup"
  wGetNode :: "string \<Rightarrow> ('e, Node) lookup"
  wList :: "string \<Rightarrow> 'e + NodeActivity list"
  wPods :: "string \<Rightarrow> 'e + Pod list"
  wPVC :: "string \<times> string \<Rightarrow> PersistentVolumeClaim option"
  wPV :: "string \<Rightarrow> PersistentVolume option"
  wPatch :: "apiWrite list \<Rightarrow> apiWrite \<Rightarrow> 'e + NodeActivity"
  wUpdate :: "apiWrite list \<Rightarrow> Node \<Rightarrow> 'e + Node"
  wLib :: lib
  wParseTime :: "string \<Rightarrow> time option"
  wFormatTime :: "time \<Rightarrow> string"
  wQualified :: "string \<Rightarrow> string list"
  wSetCondition :: "Condition list \<Rightarrow> Condition \<Rightarrow> Condition list"
  wFindCondition :: "Condition list \<Rightarrow> string \<Rightarrow> Condition option"
  wHasFinalizer :: "string list \<Rightarrow> string \<Rightarrow> bool"
  wAddFinalizer :: "string list \<Rightarrow> string \<Rightarrow> string list"
  wRemoveFinalizer :: "string list \<Rightarrow> string \<Rightarrow> string list"

text \<open>The fields of \<open>NodeActivityReconciler\<close> that a pass only reads; it changes the retries and budgets,
  which are in the state.\<close>

record reconciler =
  rrPolicy :: TaintPolicy
  rrEviction :: EvictionPolicy
  rrEvictor :: "evictor option"

record passState =
  psClock :: nat
  psActivity :: NodeActivity
  psWrites :: "apiWrite list"
  psMetrics :: metricsState
  psEvict :: evictState

type_synonym ('e, 'a) pass = "passState \<Rightarrow> ('e failure + 'a) \<times> passState"

definition ret :: "'a \<Rightarrow> ('e, 'a) pass" where
  "ret x s = (Inr x, s)"

definition fail :: "'e failure \<Rightarrow> ('e, 'a) pass" where
  "fail err s = (Inl err, s)"

definition andThen :: "('e, 'a) pass \<Rightarrow> ('a \<Rightarrow> ('e, 'b) pass) \<Rightarrow> ('e, 'b) pass" where
  "andThen m f s = (case m s of (Inl err, s') \<Rightarrow> (Inl err, s') | (Inr x, s') \<Rightarrow> f x s')"

definition before :: "('e, unit) pass \<Rightarrow> ('e, 'b) pass \<Rightarrow> ('e, 'b) pass" where
  "before m n = andThen m (\<lambda>_. n)"

definition clockNow :: "'e world \<Rightarrow> ('e, time) pass" where
  "clockNow w s = (Inr (wClock w (psClock s)), s\<lparr>psClock := Suc (psClock s)\<rparr>)"

text \<open>The local copy of the enrollment.\<close>

definition getActivity :: "('e, NodeActivity) pass" where
  "getActivity s = (Inr (psActivity s), s)"

definition onMetrics :: "(metricsState \<Rightarrow> metricsState) \<Rightarrow> ('e, unit) pass" where
  "onMetrics f s = (Inr (), s\<lparr>psMetrics := f (psMetrics s)\<rparr>)"

text \<open>\<open>Patch\<close> and \<open>Status().Patch\<close> of the local copy, already changed.\<close>

definition patch :: "'e world \<Rightarrow> (NodeActivity \<Rightarrow> apiWrite) \<Rightarrow> NodeActivity \<Rightarrow> ('e, unit) pass" where
  "patch w kind a s =
     (let s' = s\<lparr>psActivity := a, psWrites := psWrites s @ [kind a]\<rparr>
      in case wPatch w (psWrites s) (kind a) of
           Inl err \<Rightarrow> (Inl (Api err), s')
         | Inr stored \<Rightarrow> (Inr (), s'\<lparr>psActivity := stored\<rparr>))"

definition updateNode :: "'e world \<Rightarrow> Node \<Rightarrow> ('e, Node) pass" where
  "updateNode w node s =
     (let s' = s\<lparr>psWrites := psWrites s @ [UpdateNode node]\<rparr>
      in case wUpdate w (psWrites s) node of
           Inl err \<Rightarrow> (Inl (Api err), s')
         | Inr stored \<Rightarrow> (Inr stored, s'))"

section \<open>Conditions\<close>

definition TaintAppliedCondition :: string where
  "TaintAppliedCondition = ''TaintApplied''"

definition InvalidScheduleCondition :: string where
  "InvalidScheduleCondition = ''InvalidSchedule''"

definition InvalidHeartbeatCondition :: string where
  "InvalidHeartbeatCondition = ''InvalidHeartbeat''"

definition NodeActivityFinalizer :: string where
  "NodeActivityFinalizer = ''availability.interactive-node.io/cleanup''"

text \<open>The status is patched only when it changed (\<open>reflect.DeepEqual\<close>).\<close>

definition setStatus :: "'e world \<Rightarrow> (NodeActivityStatus \<Rightarrow> NodeActivityStatus) \<Rightarrow> ('e, unit) pass" where
  "setStatus w f s =
     (let a = psActivity s; st = f (naStatus a)
      in if st = naStatus a then ret () s else patch w PatchStatus (a\<lparr>naStatus := st\<rparr>) s)"

definition withCondition :: "'e world \<Rightarrow> Condition \<Rightarrow> NodeActivityStatus \<Rightarrow> NodeActivityStatus" where
  "withCondition w c st = st\<lparr>stConditions := wSetCondition w (stConditions st) c\<rparr>"

definition setCondition ::
    "'e world \<Rightarrow> ConditionStatus \<Rightarrow> string \<Rightarrow> msg \<Rightarrow> Taint option \<Rightarrow> ('e, unit) pass" where
  "setCondition w status reason message taint =
     andThen getActivity (\<lambda>a. andThen (clockNow w) (\<lambda>now.
       setStatus w (\<lambda>st.
         (withCondition w
            \<lparr>cType = TaintAppliedCondition, cStatus = status, cReason = reason, cMessage = message,
             cObservedGeneration = naGeneration a, cLastTransitionTime = now\<rparr> st)
         \<lparr>stManagedTaint :=
            map_option (\<lambda>t. \<lparr>mtKey = tKey t, mtValue = tValue t, mtEffect = tEffect t\<rparr>) taint\<rparr>)))"

text \<open>There is no condition of the kind, or it is False.\<close>

definition conditionClear :: "'e world \<Rightarrow> string \<Rightarrow> NodeActivity \<Rightarrow> bool" where
  "conditionClear w kind a \<longleftrightarrow>
     (case wFindCondition w (stConditions (naStatus a)) kind of
        None \<Rightarrow> True
      | Some c \<Rightarrow> cStatus c = ConditionFalse)"

definition scheduleCondition :: "msg option \<Rightarrow> NodeActivity \<Rightarrow> time \<Rightarrow> Condition" where
  "scheduleCondition scheduleErr a now =
     (case scheduleErr of
        None \<Rightarrow>
          \<lparr>cType = InvalidScheduleCondition, cStatus = ConditionFalse, cReason = ''ScheduleValid'',
           cMessage = [Lit ''availability schedule is valid''],
           cObservedGeneration = naGeneration a, cLastTransitionTime = now\<rparr>
      | Some err \<Rightarrow>
          \<lparr>cType = InvalidScheduleCondition, cStatus = ConditionTrue, cReason = ''InvalidSchedule'',
           cMessage = err @ [Lit ''; scheduled windows were not applied; live activity and heartbeat protection still apply''],
           cObservedGeneration = naGeneration a, cLastTransitionTime = now\<rparr>)"

definition setScheduleCondition :: "'e world \<Rightarrow> msg option \<Rightarrow> ('e, unit) pass" where
  "setScheduleCondition w scheduleErr =
     andThen getActivity (\<lambda>a.
       if scheduleErr = None \<and> conditionClear w InvalidScheduleCondition a then ret ()
       else andThen (clockNow w) (\<lambda>now. setStatus w (withCondition w (scheduleCondition scheduleErr a now))))"

definition heartbeatCondition :: "TaintPolicy \<Rightarrow> bool \<Rightarrow> NodeActivity \<Rightarrow> time \<Rightarrow> Condition" where
  "heartbeatCondition p future a now =
     (if future
      then \<lparr>cType = InvalidHeartbeatCondition, cStatus = ConditionTrue, cReason = ''FutureHeartbeat'',
            cMessage = futureHeartbeatMessage (stHeartbeatAt (naStatus a)) (effectiveHeartbeatSkew p) @
              [Lit ''; node stays fail-closed and this timestamp does not authorize eviction''],
            cObservedGeneration = naGeneration a, cLastTransitionTime = now\<rparr>
      else \<lparr>cType = InvalidHeartbeatCondition, cStatus = ConditionFalse, cReason = ''HeartbeatTimeValid'',
            cMessage = [Lit ''heartbeat timestamp is not further ahead than heartbeat-skew''],
            cObservedGeneration = naGeneration a, cLastTransitionTime = now\<rparr>)"

definition setHeartbeatCondition :: "'e world \<Rightarrow> TaintPolicy \<Rightarrow> ('e, unit) pass" where
  "setHeartbeatCondition w p =
     andThen getActivity (\<lambda>a. andThen (clockNow w) (\<lambda>t.
       let future = hvFuture (heartbeatFreshness (stHeartbeatAt (naStatus a)) t (polStaleAfter p) (effectiveHeartbeatSkew p))
       in if \<not> future \<and> conditionClear w InvalidHeartbeatCondition a then ret ()
          else andThen (clockNow w) (\<lambda>now. setStatus w (withCondition w (heartbeatCondition p future a now)))))"

definition setAdmission :: "'e world \<Rightarrow> AdmissionStatus \<Rightarrow> ('e, unit) pass" where
  "setAdmission w admission = setStatus w (\<lambda>st. st\<lparr>stAdmission := Some admission\<rparr>)"

definition setEvictionCondition :: "'e world \<Rightarrow> evictionSummary \<Rightarrow> ('e, unit) pass" where
  "setEvictionCondition w summary =
     andThen getActivity (\<lambda>a. andThen (clockNow w) (\<lambda>now.
       setStatus w (withCondition w (summaryCondition now (naGeneration a) summary))))"

section \<open>Holds and finalizers\<close>

definition reconcileHold :: "'e world \<Rightarrow> time \<Rightarrow> ('e, unit) pass" where
  "reconcileHold w now =
     andThen getActivity (\<lambda>a.
       let notes = naAnnotations a;
           value = mapGet notes HoldAnnotation
       in if value = ''''
          then if mapGet notes holdStartAnnotation = '''' then ret ()
               else patch w PatchObject (a\<lparr>naAnnotations := notes(holdStartAnnotation := None)\<rparr>)
          else if (case parseDuration value of None \<Rightarrow> True | Some d \<Rightarrow> d \<le> 0)
          then fail (Own [Lit ''annotation '', FStr HoldAnnotation, Lit '' must be a positive duration''])
          else if mapGet notes holdStartAnnotation = ''''
          then patch w PatchObject (a\<lparr>naAnnotations := notes(holdStartAnnotation \<mapsto> wFormatTime w now)\<rparr>)
          else if \<not> now < holdExpiry (wParseTime w) a
          then patch w PatchObject
                 (a\<lparr>naAnnotations := notes(HoldAnnotation := None, holdStartAnnotation := None)\<rparr>)
          else ret ())"

definition ensureFinalizer :: "'e world \<Rightarrow> ('e, unit) pass" where
  "ensureFinalizer w =
     andThen getActivity (\<lambda>a.
       if wHasFinalizer w (naFinalizers a) NodeActivityFinalizer then ret ()
       else patch w PatchObject (a\<lparr>naFinalizers := wAddFinalizer w (naFinalizers a) NodeActivityFinalizer\<rparr>))"

definition dropFinalizer :: "'e world \<Rightarrow> ('e, unit) pass" where
  "dropFinalizer w =
     andThen getActivity (\<lambda>a.
       patch w PatchObject (a\<lparr>naFinalizers := wRemoveFinalizer w (naFinalizers a) NodeActivityFinalizer\<rparr>))"

section \<open>Admission\<close>

definition policyAdmitted :: "TaintPolicy \<Rightarrow> enrollmentProtection \<Rightarrow> time \<Rightarrow> bool" where
  "policyAdmitted p protection now =
     (case prSource protection of
        None \<Rightarrow> False
      | Some src \<Rightarrow>
          controllerAdmitted
            (hvFresh (heartbeatFreshness (stHeartbeatAt (naStatus src)) now (polStaleAfter p) (effectiveHeartbeatSkew p)))
            (stState (naStatus src)) (stActivity (naStatus src)) (prTaint protection))"

definition evictionWithoutPods :: "EvictionPolicy \<Rightarrow> bool \<Rightarrow> evictionSummary" where
  "evictionWithoutPods eviction nodeMissing =
     (if \<not> epEnabled (normalized eviction) \<and> \<not> epAudit (normalized eviction)
      then zeroSummary\<lparr>smOutcome := ''disabled'', smMessage := [Lit ''eviction is disabled'']\<rparr>
      else if nodeMissing
      then zeroSummary\<lparr>smOutcome := ''inactive'',
             smMessage := [Lit ''eviction policy is inactive because the enrolled node does not exist'']\<rparr>
      else zeroSummary\<lparr>smOutcome := ''inactive'',
             smMessage := [Lit ''eviction suppressed while enrollment is ambiguous'']\<rparr>)"

definition admissionStatus ::
    "TaintPolicy \<Rightarrow> enrollmentProtection \<Rightarrow> bool \<Rightarrow> bool \<Rightarrow> AdmissionReason \<Rightarrow> time \<Rightarrow> AdmissionStatus" where
  "admissionStatus p protection admitted burstApplied reasonOverride now =
     (let heartbeatAt = (case prSource protection of None \<Rightarrow> 0 | Some src \<Rightarrow> stHeartbeatAt (naStatus src));
          verdict = heartbeatFreshness heartbeatAt now (polStaleAfter p) (effectiveHeartbeatSkew p);
          missing = (reasonOverride = NodeNotFoundReason);
          reason = (if missing then NodeNotFoundReason else prAdmissionReason protection)
      in \<lparr>adAdmitted = (if missing then False else admitted),
          adReason = reasonString (if reason = NoReason then UnsupportedState else reason),
          adMessage = (if missing then [Lit ''enrolled node does not exist''] else prReason protection),
          adHeartbeatValid = hvFresh verdict,
          adHeartbeatAgeSeconds = hvAgeSeconds verdict,
          adBurstTaint =
            \<lparr>btConfigured = (polBurstTaintKey p \<noteq> ''''),
             btDesired = (polBurstTaintKey p \<noteq> '''' \<and> \<not> policyAdmitted p protection now),
             btApplied = (if missing then False else burstApplied)\<rparr>,
          adNextTransition =
            (if isZero (prNextTransition protection) then None else Some (prNextTransition protection)),
          adNextTransitionReason =
            (if isZero (prNextTransition protection) then '''' else transitionString (prTransitionReason protection))\<rparr>)"

definition observeNodeSignals ::
    "'e world \<Rightarrow> TaintPolicy \<Rightarrow> string \<Rightarrow> enrollmentProtection \<Rightarrow> bool \<Rightarrow> bool \<Rightarrow> ('e, unit) pass" where
  "observeNodeSignals w p node protection burstApplied scheduleInvalid =
     (case prSource protection of
        None \<Rightarrow> onMetrics (clearNodeMetrics node)
      | Some src \<Rightarrow>
          if trimSpace node = '''' then onMetrics (clearNodeMetrics node)
          else andThen (clockNow w) (\<lambda>now.
            let verdict = heartbeatFreshness (stHeartbeatAt (naStatus src)) now (polStaleAfter p) (effectiveHeartbeatSkew p);
                reason = (if prAdmissionReason protection = NoReason then UnsupportedState
                          else prAdmissionReason protection)
            in onMetrics (\<lambda>m.
                 observeConfigInvalid node scheduleInvalid
                   (observeAdmission node (stHeartbeatAt (naStatus src)) now (polStaleAfter p) (effectiveHeartbeatSkew p)
                      (reasonString reason) (polBurstTaintKey p \<noteq> '''') burstApplied (prNextTransition protection)
                     (observeActivityAndTaint node (stState (naStatus src)) (stActivity (naStatus src))
                        (prTaint protection) (hvFresh verdict)
                       (observeWindowMetrics node (prScheduled protection) (prNextWindow protection) m))))))"

section \<open>The node\<close>

text \<open>The label and the taints of the node, written when something was changed.\<close>

definition protectNode ::
    "'e world \<Rightarrow> TaintPolicy \<Rightarrow> bool \<Rightarrow> Taint option \<Rightarrow> bool \<Rightarrow> Node \<Rightarrow> ('e, Node) pass" where
  "protectNode w p admitted desired fenced node =
     (let (changed, node') = applyProtection p admitted desired fenced node
      in if changed then updateNode w node' else ret node')"

definition burstAppliedOn :: "TaintPolicy \<Rightarrow> Node \<Rightarrow> bool" where
  "burstAppliedOn p node \<longleftrightarrow>
     polBurstTaintKey p \<noteq> '''' \<and> hasTaint node (polBurstTaintKey p) (polFailClosedValue p) NoSchedule"

definition protect :: "'e world \<Rightarrow> TaintPolicy \<Rightarrow> string \<Rightarrow> time \<Rightarrow> ('e, enrollmentProtection) pass" where
  "protect w p node now s =
     (case protectionForNode (wLib w) p (wParseTime w) (wList w) node now of
        Inl err \<Rightarrow> (Inl (Api err), s)
      | Inr protection \<Rightarrow> (Inr protection, s))"

definition evictionDisabled :: "EvictionPolicy \<Rightarrow> bool" where
  "evictionDisabled e \<longleftrightarrow> \<not> epEnabled (normalized e) \<and> \<not> epAudit (normalized e)"

text \<open>The burst taint of a node being released is kept for the other enrollments that want it.\<close>

definition releaseFence :: "'e world \<Rightarrow> TaintPolicy \<Rightarrow> enrollmentProtection \<Rightarrow> ('e, bool) pass" where
  "releaseFence w p protection =
     (if polBurstTaintKey p \<noteq> '''' \<and> prSource protection \<noteq> None
      then andThen (clockNow w) (\<lambda>t. ret (\<not> policyAdmitted p protection t))
      else ret False)"

definition releaseNode :: "'e world \<Rightarrow> reconciler \<Rightarrow> string \<Rightarrow> Node \<Rightarrow> ('e, unit) pass" where
  "releaseNode w r nm node =
     (let p = rrPolicy r
      in andThen (clockNow w) (\<lambda>now.
         andThen (protect w p nm now) (\<lambda>protection.
         andThen (releaseFence w p protection) (\<lambda>fenced.
         andThen (protectNode w p False (prTaint protection) fenced node) (\<lambda>node'.
           if prSource protection = None then onMetrics (clearNodeMetrics nm)
           else before (observeNodeSignals w p nm protection (burstAppliedOn p node') False)
             (if evictionDisabled (rrEviction r) then onMetrics (observeEvictionStatus nm ''disabled'' '''')
              else if prCount protection \<noteq> 1 then onMetrics (observeEvictionStatus nm ''inactive'' '''')
              else ret ()))))))"

definition finalize :: "'e world \<Rightarrow> reconciler \<Rightarrow> ('e, unit) pass" where
  "finalize w r =
     andThen getActivity (\<lambda>a.
       let nm = trimSpace (specNodeName (naSpec a))
       in if nm = '''' then ret ()
          else case wGetNode w nm of
            NotFound \<Rightarrow> onMetrics (clearNodeMetrics nm)
          | Failed err \<Rightarrow> fail (Api err)
          | Found node \<Rightarrow> releaseNode w r nm node)"

section \<open>One pass\<close>

definition reconcileDeleted :: "'e world \<Rightarrow> reconciler \<Rightarrow> ('e, duration) pass" where
  "reconcileDeleted w r =
     andThen getActivity (\<lambda>a.
       if \<not> wHasFinalizer w (naFinalizers a) NodeActivityFinalizer then ret 0
       else before (finalize w r) (before (dropFinalizer w) (ret 0)))"

text \<open>An enrollment without a node name.\<close>

definition unnamedAdmission :: "heartbeatVerdict \<Rightarrow> AdmissionStatus" where
  "unnamedAdmission v =
     \<lparr>adAdmitted = False, adReason = reasonString InvalidEnrollment,
      adMessage = [Lit ''spec.nodeName is required''], adHeartbeatValid = hvFresh v,
      adHeartbeatAgeSeconds = hvAgeSeconds v,
      adBurstTaint = \<lparr>btConfigured = False, btDesired = False, btApplied = False\<rparr>,
      adNextTransition = None, adNextTransitionReason = ''''\<rparr>"

definition reconcileUnnamed :: "'e world \<Rightarrow> reconciler \<Rightarrow> msg option \<Rightarrow> ('e, duration) pass" where
  "reconcileUnnamed w r scheduleErr =
     before (setCondition w ConditionFalse ''InvalidEnrollment'' [Lit ''spec.nodeName is required''] None)
    (before (setScheduleCondition w scheduleErr)
    (andThen getActivity (\<lambda>a. andThen (clockNow w) (\<lambda>now.
     before (setHeartbeatCondition w (rrPolicy r))
    (before (setAdmission w (unnamedAdmission
        (heartbeatFreshness (stHeartbeatAt (naStatus a)) now (polStaleAfter (rrPolicy r))
           (effectiveHeartbeatSkew (rrPolicy r)))))
    (ret 0))))))"

text \<open>An enrolled node that does not exist.\<close>

definition reconcileNodeMissing ::
    "'e world \<Rightarrow> reconciler \<Rightarrow> msg option \<Rightarrow> string \<Rightarrow> enrollmentProtection \<Rightarrow> ('e, duration) pass" where
  "reconcileNodeMissing w r scheduleErr nm protection =
     before (onMetrics (clearNodeMetrics nm))
    (before (setCondition w ConditionFalse ''NodeNotFound'' [Lit ''enrolled node does not exist''] (prTaint protection))
    (before (setScheduleCondition w scheduleErr)
    (before (setHeartbeatCondition w (rrPolicy r))
    (before (andThen (clockNow w) (\<lambda>now.
               setAdmission w (admissionStatus (rrPolicy r) protection False False NodeNotFoundReason now)))
    (before (setEvictionCondition w (evictionWithoutPods (rrEviction r) True))
    (ret (prRequeueAfter protection)))))))"

definition runEvictions1 ::
    "'e world \<Rightarrow> reconciler \<Rightarrow> Node \<Rightarrow> Taint option \<Rightarrow> ('e, evictionSummary) pass" where
  "runEvictions1 w r node desired =
     andThen (clockNow w) (\<lambda>now s.
       let (result, ev) = reconcileEvictions (rrPolicy r) (rrEviction r) (wPVC w) (wPV w) (wPods w)
                            (rrEvictor r) now (psActivity s) node desired (psEvict s);
           s' = s\<lparr>psEvict := ev\<rparr>
       in case result of Inl err \<Rightarrow> (Inl (Api err), s') | Inr summary \<Rightarrow> (Inr summary, s'))"

definition earlierRequeue :: "duration \<Rightarrow> duration \<Rightarrow> duration" where
  "earlierRequeue requeue evictRequeue =
     (if evictRequeue > 0 \<and> (requeue \<le> 0 \<or> evictRequeue < requeue) then evictRequeue else requeue)"

definition reconcileNode ::
    "'e world \<Rightarrow> reconciler \<Rightarrow> msg option \<Rightarrow> string \<Rightarrow> enrollmentProtection \<Rightarrow> bool \<Rightarrow> Node \<Rightarrow> ('e, duration) pass"
where
  "reconcileNode w r scheduleErr nm protection admitted node0 =
     (let p = rrPolicy r; desired = prTaint protection
      in andThen (protectNode w p admitted desired (\<not> admitted) node0) (\<lambda>node.
         before (setCondition w
                   (if prCount protection > 1 then ConditionFalse else ConditionTrue)
                   (if prCount protection > 1 then ''DuplicateEnrollment''
                    else if prScheduled protection then ''ScheduledWindow'' else ''TaintReconciled'')
                   (prReason protection) desired)
        (before (setScheduleCondition w scheduleErr)
        (before (setHeartbeatCondition w p)
        (before (andThen (clockNow w) (\<lambda>now.
                   setAdmission w (admissionStatus p protection admitted (burstAppliedOn p node) NoReason now)))
        (before (observeNodeSignals w p nm protection (burstAppliedOn p node) (scheduleErr \<noteq> None))
        (andThen (if prCount protection = 1 then runEvictions1 w r node desired
                  else ret (evictionWithoutPods (rrEviction r) False)) (\<lambda>summary.
         before (setEvictionCondition w summary)
        (before (onMetrics (observeEvictionStatus nm (smOutcome summary) (smBlockerReason summary)))
        (ret (earlierRequeue (prRequeueAfter protection) (smRequeueAfter summary))))))))))))"

definition reconcileEnrolled :: "'e world \<Rightarrow> reconciler \<Rightarrow> msg option \<Rightarrow> ('e, duration) pass" where
  "reconcileEnrolled w r scheduleErr =
     before (ensureFinalizer w)
    (andThen (clockNow w) (\<lambda>now.
     before (reconcileHold w now)
    (andThen getActivity (\<lambda>a.
     let nm = specNodeName (naSpec a)
     in andThen (protect w (rrPolicy r) nm now) (\<lambda>protection.
        case wGetNode w nm of
          NotFound \<Rightarrow> reconcileNodeMissing w r scheduleErr nm protection
        | Failed err \<Rightarrow> fail (Api err)
        | Found node \<Rightarrow>
            reconcileNode w r scheduleErr nm protection (policyAdmitted (rrPolicy r) protection now) node)))))"

definition Reconcile :: "'e world \<Rightarrow> reconciler \<Rightarrow> ('e, duration) pass" where
  "Reconcile w r s0 =
     (case wGetActivity w of
        NotFound \<Rightarrow> ret 0 s0
      | Failed err \<Rightarrow> fail (Api err) s0
      | Found activity \<Rightarrow>
          (case validatePolicy (wQualified w) (rrPolicy r) of
             Some err \<Rightarrow> fail (Own err) s0
           | None \<Rightarrow>
               let s = s0\<lparr>psActivity := activity\<rparr>;
                   scheduleErr = validateSchedule (wLib w) (naSpec activity)
               in if \<not> deletionIsZero activity then reconcileDeleted w r s
                  else if trimSpace (specNodeName (naSpec activity)) = ''''
                  then reconcileUnnamed w r scheduleErr s
                  else reconcileEnrolled w r scheduleErr s))"

section \<open>Indexes\<close>

text \<open>The index functions get an object of any kind: None is one of another kind.\<close>

definition IndexPodNodeName :: "Pod option \<Rightarrow> string list" where
  "IndexPodNodeName obj =
     (case obj of None \<Rightarrow> [] | Some pod \<Rightarrow> if podNodeName pod = '''' then [] else [podNodeName pod])"

definition IndexNodeActivityNodeName :: "NodeActivity option \<Rightarrow> string list" where
  "IndexNodeActivityNodeName obj =
     (case obj of
        None \<Rightarrow> []
      | Some a \<Rightarrow> if specNodeName (naSpec a) = '''' then [] else [specNodeName (naSpec a)])"

section \<open>Invariants of a pass\<close>

text \<open>
  A step keeps an assertion on the state whether it ends or stops with an error.  The steps and
  the combinators keep an assertion when the primitive effects do, which the locale asks for.
\<close>

definition keeps :: "(passState \<Rightarrow> bool) \<Rightarrow> ('e, 'a) pass \<Rightarrow> bool" where
  "keeps I m \<longleftrightarrow> (\<forall>s. I s \<longrightarrow> I (snd (m s)))"

lemma keepsI: "(\<And>s. I s \<Longrightarrow> I (snd (m s))) \<Longrightarrow> keeps I m"
  by (simp add: keeps_def)

lemma keepsD: "keeps I m \<Longrightarrow> I s \<Longrightarrow> I (snd (m s))"
  by (simp add: keeps_def)

lemma keeps_ret: "keeps I (ret x)"
  by (simp add: keeps_def ret_def)

lemma keeps_fail: "keeps I (fail e)"
  by (simp add: keeps_def fail_def)

lemma keeps_andThen:
  assumes "keeps I m" "\<And>x. keeps I (f x)"
  shows "keeps I (andThen m f)"
proof (rule keepsI)
  fix s assume "I s"
  obtain r s' where m: "m s = (r, s')" by (cases "m s")
  then have "I s'" using keepsD [OF assms(1) \<open>I s\<close>] by simp
  then show "I (snd (andThen m f s))"
    using m keepsD [OF assms(2)] by (cases r) (simp_all add: andThen_def)
qed

lemma keeps_before: "keeps I m \<Longrightarrow> keeps I n \<Longrightarrow> keeps I (before m n)"
  unfolding before_def by (rule keeps_andThen)

lemma keeps_if: "keeps I m \<Longrightarrow> keeps I n \<Longrightarrow> keeps I (if b then m else n)"
  by simp

lemma keeps_activity: "(\<And>a. keeps I (f a)) \<Longrightarrow> keeps I (andThen getActivity f)"
  by (intro keepsI) (simp add: andThen_def getActivity_def keepsD)

locale pass_frame =
  fixes w :: "'e world" and I :: "passState \<Rightarrow> bool"
  assumes I_clock: "I s \<Longrightarrow> I (s\<lparr>psClock := n\<rparr>)"
    and I_activity: "I s \<Longrightarrow> I (s\<lparr>psActivity := a\<rparr>)"
    and I_object: "I s \<Longrightarrow> I (s\<lparr>psWrites := psWrites s @ [PatchObject a]\<rparr>)"
    and I_status: "I s \<Longrightarrow> I (s\<lparr>psWrites := psWrites s @ [PatchStatus a]\<rparr>)"
begin

lemma clock: "keeps I (clockNow w)"
  by (intro keepsI) (simp add: clockNow_def I_clock)

lemma patches: "k = PatchObject \<or> k = PatchStatus \<Longrightarrow> keeps I (patch w k a)"
proof (rule keepsI)
  fix s assume k: "k = PatchObject \<or> k = PatchStatus" and "I s"
  have "I (s\<lparr>psWrites := psWrites s @ [k a]\<rparr>)"
    using k I_object [OF \<open>I s\<close>] I_status [OF \<open>I s\<close>] by auto
  then have stored: "I (s\<lparr>psWrites := psWrites s @ [k a], psActivity := b\<rparr>)" for b
    by (rule I_activity)
  have swap: "s\<lparr>psActivity := b, psWrites := v\<rparr> = s\<lparr>psWrites := v, psActivity := b\<rparr>" for b v
    by (cases s) simp
  show "I (snd (patch w k a s))"
    unfolding patch_def Let_def swap using stored by (simp split: sum.split)
qed

lemmas object_patch = patches [OF disjI1 [OF refl]]
lemmas status_patch = patches [OF disjI2 [OF refl]]

lemma status: "keeps I (setStatus w f)"
  by (intro keepsI) (simp add: setStatus_def Let_def ret_def keepsD [OF status_patch])

lemma condition: "keeps I (setCondition w st reason message taint)"
  unfolding setCondition_def by (intro keeps_activity keeps_andThen [OF clock] status)

lemma schedule: "keeps I (setScheduleCondition w err)"
  unfolding setScheduleCondition_def by (intro keeps_activity keeps_if keeps_ret keeps_andThen [OF clock] status)

lemma heartbeat: "keeps I (setHeartbeatCondition w p)"
  unfolding setHeartbeatCondition_def Let_def
  by (intro keeps_activity keeps_andThen [OF clock] keeps_if keeps_ret status)

lemma admission: "keeps I (setAdmission w adm)"
  unfolding setAdmission_def by (rule status)

lemma eviction_condition: "keeps I (setEvictionCondition w summary)"
  unfolding setEvictionCondition_def by (intro keeps_activity keeps_andThen [OF clock] status)

lemma hold: "keeps I (reconcileHold w now)"
  unfolding reconcileHold_def Let_def
  by (intro keeps_activity keeps_if keeps_ret keeps_fail object_patch)

lemma finalizer: "keeps I (ensureFinalizer w)"
  unfolding ensureFinalizer_def by (intro keeps_activity keeps_if keeps_ret object_patch)

lemma finalizer_gone: "keeps I (dropFinalizer w)"
  unfolding dropFinalizer_def by (intro keeps_activity object_patch)

lemmas frame_rules = clock condition schedule heartbeat admission eviction_condition hold finalizer finalizer_gone

end

text \<open>
  The steps of a whole pass also change the gauges, the node and the eviction state; each locale adds one
  of these effects, so that an assertion is only asked to survive what a group of steps does.
\<close>

definition metricsStep :: "(metricsState \<Rightarrow> metricsState) \<Rightarrow> bool" where
  "metricsStep f \<longleftrightarrow> (\<forall>m. metricsOk m \<longrightarrow> metricsOk (f m))"

definition protectionAt :: "'e world \<Rightarrow> reconciler \<Rightarrow> string \<Rightarrow> enrollmentProtection \<Rightarrow> bool" where
  "protectionAt w r nm pr \<longleftrightarrow>
     (\<exists>n. protectionForNode (wLib w) (rrPolicy r) (wParseTime w) (wList w) nm (wClock w n) = Inr pr)"

definition accepted :: "'e world \<Rightarrow> reconciler \<Rightarrow> bool" where
  "accepted w r \<longleftrightarrow> validatePolicy (wQualified w) (rrPolicy r) = None"

locale metrics_frame = pass_frame w I for w :: "'e world" and I +
  assumes I_metrics: "I s \<Longrightarrow> metricsStep f \<Longrightarrow> I (s\<lparr>psMetrics := f (psMetrics s)\<rparr>)"
begin

lemma gauges: "metricsStep f \<Longrightarrow> keeps I (onMetrics f)"
  by (intro keepsI) (simp add: onMetrics_def I_metrics)

lemma clearing: "keeps I (onMetrics (clearNodeMetrics nm))"
  by (rule gauges) (simp add: metricsStep_def)

lemma observing: "keeps I (onMetrics (observeEvictionStatus nm outcome blocker))"
  by (rule gauges) (simp add: metricsStep_def)

lemma signals: "keeps I (observeNodeSignals w p nm pr applied invalid)"
  unfolding observeNodeSignals_def Let_def
  by (auto split: option.split intro!: clearing keeps_andThen [OF clock] gauges simp: metricsStep_def)

lemma protect_then:
  assumes "\<And>pr. protectionForNode (wLib w) p (wParseTime w) (wList w) nm now = Inr pr \<Longrightarrow> keeps I (f pr)"
  shows "keeps I (andThen (protect w p nm now) f)"
  using assms by (intro keepsI) (auto simp: protect_def andThen_def split: sum.split dest: keepsD)

lemma clock_then:
  assumes "\<And>n. keeps I (f (wClock w n))"
  shows "keeps I (andThen (clockNow w) f)"
  using assms by (intro keepsI) (simp add: andThen_def clockNow_def I_clock keepsD)

lemmas step_rules = keeps_before keeps_activity keeps_andThen [OF clock] keeps_ret keeps_fail frame_rules
  clearing observing signals

lemma missing: "keeps I (reconcileNodeMissing w r err nm pr)"
  unfolding reconcileNodeMissing_def by (intro step_rules)

lemma unnamed: "keeps I (reconcileUnnamed w r err)"
  unfolding reconcileUnnamed_def by (intro step_rules)

lemma fence: "keeps I (releaseFence w p pr)"
  unfolding releaseFence_def by (intro keeps_if step_rules)

end

locale node_frame = metrics_frame w I for w :: "'e world" and I +
  fixes r :: reconciler
  assumes I_update: "I s \<Longrightarrow> accepted w r \<Longrightarrow> wGetNode w nm = Found node \<Longrightarrow> protectionAt w r nm pr \<Longrightarrow>
      I (s\<lparr>psWrites := psWrites s @ [UpdateNode (snd (applyProtection (rrPolicy r) admitted (prTaint pr) fenced node))]\<rparr>)"
begin

lemma protecting_node:
  assumes "accepted w r" "wGetNode w nm = Found node" "protectionAt w r nm pr"
  shows "keeps I (protectNode w (rrPolicy r) admitted (prTaint pr) fenced node)"
proof (rule keepsI)
  fix s assume "I s"
  then show "I (snd (protectNode w (rrPolicy r) admitted (prTaint pr) fenced node s))"
    using I_update [OF \<open>I s\<close> assms, of admitted fenced]
    by (simp add: protectNode_def updateNode_def ret_def split_beta Let_def split: sum.split)
qed

lemma releasing:
  assumes "accepted w r" "wGetNode w nm = Found node"
  shows "keeps I (releaseNode w r nm node)"
  unfolding releaseNode_def Let_def
proof (rule clock_then, rule protect_then)
  fix n pr
  assume "protectionForNode (wLib w) (rrPolicy r) (wParseTime w) (wList w) nm (wClock w n) = Inr pr"
  then have "protectionAt w r nm pr" by (auto simp: protectionAt_def)
  note node = protecting_node [OF assms this]
  show "keeps I (andThen (releaseFence w (rrPolicy r) pr) (\<lambda>fenced.
      andThen (protectNode w (rrPolicy r) False (prTaint pr) fenced node) (\<lambda>node'.
        if prSource pr = None then onMetrics (clearNodeMetrics nm)
        else before (observeNodeSignals w (rrPolicy r) nm pr (burstAppliedOn (rrPolicy r) node') False)
          (if evictionDisabled (rrEviction r) then onMetrics (observeEvictionStatus nm ''disabled'' '''')
           else if prCount pr \<noteq> 1 then onMetrics (observeEvictionStatus nm ''inactive'' '''')
           else ret ()))))"
    by (intro keeps_andThen [OF fence] keeps_andThen [OF node] keeps_if step_rules)
qed

lemma deleting: "accepted w r \<Longrightarrow> keeps I (reconcileDeleted w r)"
  unfolding reconcileDeleted_def finalize_def Let_def
  by (intro keeps_activity keeps_if step_rules) (auto split: lookup.split intro: clearing keeps_fail releasing)

end

locale whole_pass = node_frame w I r for w :: "'e world" and I and r +
  assumes I_evict: "I s \<Longrightarrow> accepted w r \<Longrightarrow> protectionAt w r nm pr \<Longrightarrow> prCount pr = 1 \<Longrightarrow>
      I (s\<lparr>psEvict := snd (reconcileEvictions (rrPolicy r) (rrEviction r) (wPVC w) (wPV w) (wPods w) (rrEvictor r)
             now activity node (prTaint pr) (psEvict s))\<rparr>)"
begin

lemma evicting:
  "accepted w r \<Longrightarrow> protectionAt w r nm pr \<Longrightarrow> prCount pr = 1 \<Longrightarrow> keeps I (runEvictions1 w r node (prTaint pr))"
  unfolding runEvictions1_def
proof (rule keeps_andThen [OF clock], rule keepsI)
  fix now s assume a: "accepted w r" "protectionAt w r nm pr" "prCount pr = 1" "I s"
  let ?e = "reconcileEvictions (rrPolicy r) (rrEviction r) (wPVC w) (wPV w) (wPods w) (rrEvictor r) now
      (psActivity s) node (prTaint pr) (psEvict s)"
  have "I (s\<lparr>psEvict := snd ?e\<rparr>)" by (rule I_evict [OF a(4,1,2,3)])
  then show "I (snd (let (result, ev) = ?e; s' = s\<lparr>psEvict := ev\<rparr>
      in case result of Inl err \<Rightarrow> (Inl (Api err), s') | Inr summary \<Rightarrow> (Inr summary, s')))"
    by (cases ?e) (simp add: Let_def split: sum.split)
qed

lemma noding:
  assumes "accepted w r" "wGetNode w nm = Found node" "protectionAt w r nm pr"
  shows "keeps I (reconcileNode w r err nm pr admitted node)"
  unfolding reconcileNode_def Let_def
proof (rule keeps_andThen [OF protecting_node [OF assms]], intro keeps_before keeps_andThen [OF clock] frame_rules signals)
  fix node'
  show "keeps I (andThen (if prCount pr = 1 then runEvictions1 w r node' (prTaint pr)
      else ret (evictionWithoutPods (rrEviction r) False)) (\<lambda>summary.
        before (setEvictionCondition w summary)
       (before (onMetrics (observeEvictionStatus nm (smOutcome summary) (smBlockerReason summary)))
       (ret (earlierRequeue (prRequeueAfter pr) (smRequeueAfter summary))))))"
    by (rule keeps_andThen) (auto intro: keeps_ret evicting [OF assms(1,3)] keeps_before eviction_condition observing)
qed

lemma enrolling: "accepted w r \<Longrightarrow> keeps I (reconcileEnrolled w r err)"
  unfolding reconcileEnrolled_def Let_def
proof (intro keeps_before finalizer clock_then hold keeps_activity protect_then)
  fix n a pr
  assume ok: "accepted w r"
    and pr: "protectionForNode (wLib w) (rrPolicy r) (wParseTime w) (wList w) (specNodeName (naSpec a)) (wClock w n) = Inr pr"
  then have "protectionAt w r (specNodeName (naSpec a)) pr" by (auto simp: protectionAt_def)
  then show "keeps I (case wGetNode w (specNodeName (naSpec a)) of
      NotFound \<Rightarrow> reconcileNodeMissing w r err (specNodeName (naSpec a)) pr
    | Failed e \<Rightarrow> fail (Api e)
    | Found node \<Rightarrow> reconcileNode w r err (specNodeName (naSpec a)) pr (policyAdmitted (rrPolicy r) pr (wClock w n)) node)"
    using ok by (auto split: lookup.split intro: missing keeps_fail noding)
qed

lemma reconciling: "keeps I (Reconcile w r)"
proof (rule keepsI)
  fix s assume "I s"
  show "I (snd (Reconcile w r s))"
  proof (cases "wGetActivity w")
    case (Found a)
    show ?thesis
    proof (cases "validatePolicy (wQualified w) (rrPolicy r)")
      case None
      then have "accepted w r" by (simp add: accepted_def)
      note k = keepsD [OF deleting [OF this]] keepsD [OF unnamed] keepsD [OF enrolling [OF this]]
      show ?thesis
        using I_activity [OF \<open>I s\<close>, of a] Found None by (simp add: Reconcile_def Let_def k)
    next
      case (Some err)
      then show ?thesis using Found \<open>I s\<close> by (simp add: Reconcile_def fail_def)
    qed
  qed (use \<open>I s\<close> in \<open>simp_all add: Reconcile_def ret_def fail_def\<close>)
qed

end

section \<open>What a pass may do\<close>

text \<open>The gauges stay in order.\<close>

interpretation gauges_ok: whole_pass w "\<lambda>s. metricsOk (psMetrics s)" r for w r
  by unfold_locales (simp_all add: metricsStep_def)

text \<open>
  A write of a Node that was read keeps its name, every label but the schedulable one and every
  taint of another owner, in order.
\<close>

definition ownedWrite :: "'e world \<Rightarrow> reconciler \<Rightarrow> apiWrite \<Rightarrow> bool" where
  "ownedWrite w r wr \<longleftrightarrow>
     (\<forall>n. wr = UpdateNode n \<longrightarrow>
        (\<exists>nm node. wGetNode w nm = Found node \<and> nodeName n = nodeName node \<and>
           filter (foreign (rrPolicy r)) (nodeTaints n) = filter (foreign (rrPolicy r)) (nodeTaints node) \<and>
           (\<forall>k. k \<noteq> SchedulableNodeLabel \<longrightarrow> nodeLabels n k = nodeLabels node k)))"

lemma taintTable_key: "taintTable p i = Some t \<Longrightarrow> tKey t = polKey p"
  by (auto simp: taintTable_def Let_def failClosedTaint_def activeTaint_def interactiveTaint_def split: if_splits)

lemma protectionAt_key:
  assumes "protectionAt w r nm pr" "prTaint pr = Some t" "\<forall>n. 0 < wClock w n"
  shows "tKey t = polKey (rrPolicy r)"
proof -
  obtain n where n: "protectionForNode (wLib w) (rrPolicy r) (wParseTime w) (wList w) nm (wClock w n) = Inr pr"
    using assms(1) by (auto simp: protectionAt_def)
  then obtain items where items: "wList w nm = Inr items"
    by (auto simp: protectionForNode_def split: sum.splits)
  note pick = protectionForNode_pick(4) [OF items n]
  obtain i where "prTaint pr = pdTaint (decidePolicy (wLib w) (rrPolicy r) (wParseTime w) i (wClock w n))"
    using pick assms(2) by (cases "prSource pr") auto
  then show ?thesis
    using assms(2,3) by (simp add: decidePolicy_taintTable taintTable_key)
qed

lemma accepted_keys: "accepted w r \<Longrightarrow> polKey (rrPolicy r) \<noteq> '''' \<and> polBurstTaintKey (rrPolicy r) \<noteq> polKey (rrPolicy r)"
  using validatePolicy_keys by (auto simp: accepted_def)

lemma ownedWrite_update:
  assumes "\<forall>n. 0 < wClock w n" "accepted w r" "wGetNode w nm = Found node" "protectionAt w r nm pr"
  shows "ownedWrite w r (UpdateNode (snd (applyProtection (rrPolicy r) admitted (prTaint pr) fenced node)))"
proof -
  have "keysOk (rrPolicy r) (prTaint pr)"
    using accepted_keys [OF assms(2)] protectionAt_key [OF assms(4) _ assms(1)] by (auto simp: keysOk_def)
  from fencedTaints_foreign [OF this] show ?thesis
    using assms(3) by (auto simp: ownedWrite_def applyProtection_node labelled_other intro!: exI [of _ nm])
qed

definition timely :: "'e world \<Rightarrow> bool" where
  "timely w \<longleftrightarrow> (\<forall>n. 0 < wClock w n)"

interpretation writes_owned: whole_pass w "\<lambda>s. timely w \<longrightarrow> list_all (ownedWrite w r) (psWrites s)" r for w r
proof unfold_locales
  show "timely w \<longrightarrow> list_all (ownedWrite w r)
      (psWrites (s\<lparr>psWrites := psWrites s @ [UpdateNode (snd (applyProtection (rrPolicy r) admitted (prTaint pr) fenced node))]\<rparr>))"
    if "timely w \<longrightarrow> list_all (ownedWrite w r) (psWrites s)" "accepted w r" "wGetNode w nm = Found node"
      "protectionAt w r nm pr"
    for s nm node pr admitted fenced
    using that(1) ownedWrite_update [OF _ that(2,3,4), of admitted fenced] by (simp add: timely_def)
qed (simp_all add: ownedWrite_def)

text \<open>When an eviction pass may call the Eviction API at all.\<close>

lemma evictPods_uncallable:
  assumes "\<not> (epEnabled policy \<and> \<not> epAudit policy \<and> evictor \<noteq> None)"
  shows "esCalls (evictPods getPVC getPV evictor policy c node now pods s) = esCalls s"
proof (induction pods arbitrary: s)
  case Nil
  then show ?case by simp
next
  case (Cons pod pods)
  have "esCalls (evictPod getPVC getPV evictor policy c node now pod s) = esCalls s"
    unfolding evictPod_def using assms
    by (simp add: split_beta Let_def observeEviction_def onSummary_def)
  then show ?case by (simp add: Cons.IH)
qed

lemma reconcileEvictions_authorized:
  assumes "esCalls (snd (reconcileEvictions p eviction getPVC getPV listPods evictor now a node desired s)) \<noteq> esCalls s"
  shows "epEnabled eviction \<and> \<not> epAudit eviction \<and> evictor \<noteq> None \<and> desired \<noteq> None"
proof -
  obtain pods where c: "classFor p a node desired now \<noteq> evictionClassNone"
    and e: "snd (reconcileEvictions p eviction getPVC getPV listPods evictor now a node desired s) =
      evictPods getPVC getPV evictor (normalized eviction) (classFor p a node desired now) (nodeName node) now pods
         (s\<lparr>esSummary := zeroSummary, esRetries := prune now (nodeName node) pods (esRetries s)\<rparr>)"
    using reconcileEvictions_pass [of p eviction getPVC getPV listPods evictor now a node desired s] assms by auto
  have "epEnabled (normalized eviction) \<and> \<not> epAudit (normalized eviction) \<and> evictor \<noteq> None"
  proof (rule ccontr)
    assume n: "\<not> (epEnabled (normalized eviction) \<and> \<not> epAudit (normalized eviction) \<and> evictor \<noteq> None)"
    show False using assms unfolding e evictPods_uncallable [OF n] by simp
  qed
  then show ?thesis using classFor_desired [OF c] unfolding normalized_facts(7,8) by blast
qed

section \<open>A pass that ends well\<close>

text \<open>A step that cannot fail.\<close>

definition succeeds :: "('e, 'a) pass \<Rightarrow> bool" where
  "succeeds m \<longleftrightarrow> (\<forall>s. \<exists>x s'. m s = (Inr x, s'))"

lemma succeeds_ret: "succeeds (ret x)"
  by (simp add: succeeds_def ret_def)

lemma succeeds_andThen: "succeeds m \<Longrightarrow> (\<And>x. succeeds (f x)) \<Longrightarrow> succeeds (andThen m f)"
  unfolding succeeds_def andThen_def by (metis (mono_tags, lifting) case_prod_conv sum.case(2))

lemma succeeds_before: "succeeds m \<Longrightarrow> succeeds n \<Longrightarrow> succeeds (before m n)"
  unfolding before_def by (rule succeeds_andThen)

lemma succeeds_clock: "succeeds (clockNow w)"
  by (simp add: succeeds_def clockNow_def)

lemma succeeds_activity: "succeeds getActivity"
  by (simp add: succeeds_def getActivity_def)

lemma succeeds_metrics: "succeeds (onMetrics f)"
  by (simp add: succeeds_def onMetrics_def)

lemma succeeds_if: "succeeds m \<Longrightarrow> succeeds n \<Longrightarrow> succeeds (if b then m else n)"
  by simp

text \<open>An API server that stores what it is sent.\<close>

definition obliging :: "'e world \<Rightarrow> bool" where
  "obliging w \<longleftrightarrow>
     (\<forall>h a. wPatch w h (PatchObject a) = Inr a \<and> wPatch w h (PatchStatus a) = Inr a) \<and>
     (\<forall>h n. wUpdate w h n = Inr n) \<and> (\<forall>nm. \<exists>pods. wPods w nm = Inr pods)"

lemma succeeds_patch: "obliging w \<Longrightarrow> k = PatchObject \<or> k = PatchStatus \<Longrightarrow> succeeds (patch w k a)"
  by (auto simp: obliging_def succeeds_def patch_def)

lemma succeeds_status: "obliging w \<Longrightarrow> succeeds (setStatus w f)"
  using succeeds_patch [of w PatchStatus] by (auto simp: succeeds_def setStatus_def Let_def ret_def)

lemma succeeds_node: "obliging w \<Longrightarrow> succeeds (protectNode w p admitted desired fenced node)"
  by (auto simp: obliging_def succeeds_def protectNode_def updateNode_def ret_def split_beta Let_def)

lemma succeeds_evictions: "obliging w \<Longrightarrow> succeeds (runEvictions1 w r node desired)"
proof -
  assume o: "obliging w"
  show ?thesis
    unfolding runEvictions1_def
  proof (intro succeeds_andThen succeeds_clock)
    fix now
    have "\<exists>m ev. reconcileEvictions (rrPolicy r) (rrEviction r) (wPVC w) (wPV w) (wPods w) (rrEvictor r) now
        (psActivity s) node desired (psEvict s) = (Inr m, ev)" for s
    proof -
      obtain pods where "wPods w (nodeName node) = Inr pods" using o unfolding obliging_def by blast
      then show ?thesis by (simp add: reconcileEvictions_def Let_def)
    qed
    note ev = this
    show "succeeds (\<lambda>s. let (result, ev) = reconcileEvictions (rrPolicy r) (rrEviction r) (wPVC w) (wPV w) (wPods w)
            (rrEvictor r) now (psActivity s) node desired (psEvict s); s' = s\<lparr>psEvict := ev\<rparr>
        in case result of Inl err \<Rightarrow> (Inl (Api err), s') | Inr summary \<Rightarrow> (Inr summary, s'))"
      unfolding succeeds_def
    proof
      fix s
      obtain m e where "reconcileEvictions (rrPolicy r) (rrEviction r) (wPVC w) (wPV w) (wPods w) (rrEvictor r) now
        (psActivity s) node desired (psEvict s) = (Inr m, e)" using ev by blast
      then show "\<exists>x s'. (let (result, ev) = reconcileEvictions (rrPolicy r) (rrEviction r) (wPVC w) (wPV w) (wPods w)
            (rrEvictor r) now (psActivity s) node desired (psEvict s); s' = s\<lparr>psEvict := ev\<rparr>
        in case result of Inl err \<Rightarrow> (Inl (Api err), s') | Inr summary \<Rightarrow> (Inr summary, s')) = (Inr x, s')"
        by (simp add: Let_def)
    qed
  qed
qed

lemma succeeds_signals: "succeeds (observeNodeSignals w p nm pr applied invalid)"
  unfolding observeNodeSignals_def Let_def
  by (auto split: option.split intro!: succeeds_metrics succeeds_andThen succeeds_clock)

lemmas succeeds_rules = succeeds_ret succeeds_andThen succeeds_before succeeds_clock succeeds_activity succeeds_metrics
  succeeds_if succeeds_status succeeds_node succeeds_evictions succeeds_signals

lemma succeeds_conditions:
  assumes "obliging w"
  shows "succeeds (setCondition w st reason message taint)" "succeeds (setScheduleCondition w err)"
    "succeeds (setHeartbeatCondition w p)" "succeeds (setAdmission w adm)" "succeeds (setEvictionCondition w summary)"
  unfolding setCondition_def setScheduleCondition_def setHeartbeatCondition_def setAdmission_def setEvictionCondition_def
    Let_def
  by (intro succeeds_rules assms)+

text \<open>The value a step returns, when it returns one.\<close>

definition returns :: "('a \<Rightarrow> bool) \<Rightarrow> ('e, 'a) pass \<Rightarrow> bool" where
  "returns Q m \<longleftrightarrow> (\<forall>s x s'. m s = (Inr x, s') \<longrightarrow> Q x)"

lemma returns_ret: "Q x \<Longrightarrow> returns Q (ret x)"
  by (simp add: returns_def ret_def)

lemma returns_andThen: "(\<And>x. returns Q (f x)) \<Longrightarrow> returns Q (andThen m f)"
  by (auto simp: returns_def andThen_def split: prod.splits sum.splits)

lemma returns_before: "returns Q n \<Longrightarrow> returns Q (before m n)"
  unfolding before_def by (rule returns_andThen)

lemma earlierRequeue_bounds: "0 < d \<Longrightarrow> 0 < earlierRequeue d e \<and> earlierRequeue d e \<le> d"
  by (auto simp: earlierRequeue_def)

lemma reconcileNode_ends:
  assumes "obliging w" "0 < prRequeueAfter pr"
  shows "succeeds (reconcileNode w r err nm pr admitted node)"
    and "returns (\<lambda>d. 0 < d \<and> d \<le> prRequeueAfter pr) (reconcileNode w r err nm pr admitted node)"
proof -
  show "succeeds (reconcileNode w r err nm pr admitted node)"
    unfolding reconcileNode_def Let_def by (intro succeeds_rules succeeds_conditions assms(1))
  show "returns (\<lambda>d. 0 < d \<and> d \<le> prRequeueAfter pr) (reconcileNode w r err nm pr admitted node)"
    unfolding reconcileNode_def Let_def
    by (intro returns_andThen returns_before returns_ret earlierRequeue_bounds assms(2))
qed

lemma reconcileNodeMissing_ends:
  assumes "obliging w"
  shows "succeeds (reconcileNodeMissing w r err nm pr)"
    and "returns (\<lambda>d. d = prRequeueAfter pr) (reconcileNodeMissing w r err nm pr)"
proof -
  show "succeeds (reconcileNodeMissing w r err nm pr)"
    unfolding reconcileNodeMissing_def by (intro succeeds_rules succeeds_conditions assms)
  show "returns (\<lambda>d. d = prRequeueAfter pr) (reconcileNodeMissing w r err nm pr)"
    unfolding reconcileNodeMissing_def by (intro returns_before returns_ret refl)
qed

text \<open>The finalizer and the hold leave the spec alone, and a hold that parses never stops the pass.\<close>

definition holdOk :: "NodeActivity \<Rightarrow> bool" where
  "holdOk a \<longleftrightarrow>
     (let v = mapGet (naAnnotations a) HoldAnnotation in v = '''' \<or> (\<exists>d. parseDuration v = Some d \<and> 0 < d))"

lemma patch_obliging:
  "obliging w \<Longrightarrow> patch w PatchObject a s = (Inr (), s\<lparr>psActivity := a, psWrites := psWrites s @ [PatchObject a]\<rparr>)"
  by (simp add: obliging_def patch_def Let_def)

lemma protection_requeue:
  assumes items: "wList w nm = Inr items" and live: "\<exists>i \<in> set items. liveFor nm i"
    and pr: "protectionForNode l p pt (wList w) nm now = Inr pr" and p: "policyOk p" "0 < now"
  shows "0 < prRequeueAfter pr \<and> prRequeueAfter pr \<le> polStaleAfter p + effectiveHeartbeatSkew p"
proof -
  let ?ds = "map (\<lambda>i. pdRequeueAfter (decidePolicy l p pt i now)) (liveItems nm items)"
  have req: "prRequeueAfter pr = foldl minWait 0 ?ds"
    using protectionForNode_pick(3) [OF items pr] by simp
  have pos: "\<forall>d \<in> set ?ds. 0 < d \<and> d \<le> polStaleAfter p + effectiveHeartbeatSkew p"
    using requeue_bounds [OF p] by auto
  have "set (liveItems nm items) \<noteq> {}" using live by auto
  then obtain d where "d \<in> set ?ds" by (cases "liveItems nm items") auto
  then show ?thesis
    using foldl_minWait [of 0 ?ds] pos unfolding req by force
qed

section \<open>The effect of a pass\<close>

text \<open>What the host reported and the spec asks for, which no step of a pass changes.\<close>

definition hostPart :: "NodeActivity \<Rightarrow> NodeActivitySpec \<times> State \<times> Activity \<times> time" where
  "hostPart a = (naSpec a, stState (naStatus a), stActivity (naStatus a), stHeartbeatAt (naStatus a))"

definition nodeWrites :: "apiWrite list \<Rightarrow> Node list" where
  "nodeWrites ws = List.map_filter (\<lambda>wr. case wr of UpdateNode n \<Rightarrow> Some n | _ \<Rightarrow> None) ws"

lemma nodeWrites_append [simp]: "nodeWrites (xs @ ys) = nodeWrites xs @ nodeWrites ys"
  by (induction xs) (simp_all add: nodeWrites_def List.map_filter_simps split: option.split)

lemma nodeWrites_simps [simp]:
  "nodeWrites [] = []" "nodeWrites [PatchObject a] = []" "nodeWrites [PatchStatus a] = []" "nodeWrites [UpdateNode n] = [n]"
  by (simp_all add: nodeWrites_def List.map_filter_simps)

text \<open>A step that ends well and touches neither the node nor the evictions nor the host's part.\<close>

definition sameEffect :: "passState \<Rightarrow> passState \<Rightarrow> bool" where
  "sameEffect s s' \<longleftrightarrow>
     hostPart (psActivity s') = hostPart (psActivity s) \<and> psEvict s' = psEvict s \<and>
     nodeWrites (psWrites s') = nodeWrites (psWrites s)"

definition quiet :: "('e, 'a) pass \<Rightarrow> bool" where
  "quiet m \<longleftrightarrow> (\<forall>s. \<exists>x s'. m s = (Inr x, s') \<and> sameEffect s s')"

lemma sameEffect_refl [simp]: "sameEffect s s"
  by (simp add: sameEffect_def)

lemma sameEffect_trans: "sameEffect s t \<Longrightarrow> sameEffect t u \<Longrightarrow> sameEffect s u"
  by (simp add: sameEffect_def)

lemma quiet_ret: "quiet (ret x)"
  by (simp add: quiet_def ret_def)

lemma quiet_andThen:
  assumes "quiet m" "\<And>x. quiet (f x)"
  shows "quiet (andThen m f)"
  unfolding quiet_def
proof
  fix s
  obtain x t where 1: "m s = (Inr x, t)" "sameEffect s t" using assms(1) unfolding quiet_def by blast
  obtain y u where 2: "f x t = (Inr y, u)" "sameEffect t u" using assms(2) unfolding quiet_def by blast
  show "\<exists>y u. andThen m f s = (Inr y, u) \<and> sameEffect s u"
    using 1 2 sameEffect_trans by (auto simp: andThen_def)
qed

lemma quiet_before: "quiet m \<Longrightarrow> quiet n \<Longrightarrow> quiet (before m n)"
  unfolding before_def by (rule quiet_andThen)

lemma quiet_clock: "quiet (clockNow w)"
  by (simp add: quiet_def clockNow_def sameEffect_def)

lemma quiet_activity: "quiet getActivity"
  by (simp add: quiet_def getActivity_def)

lemma quiet_metrics: "quiet (onMetrics f)"
  by (simp add: quiet_def onMetrics_def sameEffect_def)

lemma quiet_if: "quiet m \<Longrightarrow> quiet n \<Longrightarrow> quiet (if b then m else n)"
  by simp

text \<open>A change of the status that only writes what the controller owns.\<close>

definition ownedStatus :: "(NodeActivityStatus \<Rightarrow> NodeActivityStatus) \<Rightarrow> bool" where
  "ownedStatus f \<longleftrightarrow>
     (\<forall>st. stState (f st) = stState st \<and> stActivity (f st) = stActivity st \<and> stReason (f st) = stReason st \<and>
        stObservedAt (f st) = stObservedAt st \<and> stHeartbeatAt (f st) = stHeartbeatAt st \<and>
        stGeneration (f st) = stGeneration st \<and> stFailClosed (f st) = stFailClosed st)"

lemma ownedStatus_steps [simp]:
  "ownedStatus (withCondition w c)" "ownedStatus (\<lambda>st. withCondition w c st\<lparr>stManagedTaint := t\<rparr>)"
  "ownedStatus (\<lambda>st. st\<lparr>stAdmission := adm\<rparr>)"
  by (simp_all add: ownedStatus_def withCondition_def)

lemma quiet_status:
  assumes "obliging w" "ownedStatus f"
  shows "quiet (setStatus w f)"
  using assms
  by (simp add: quiet_def setStatus_def Let_def ret_def patch_def obliging_def sameEffect_def hostPart_def ownedStatus_def)

lemma quiet_conditions:
  assumes "obliging w"
  shows "quiet (setCondition w st reason message taint)" "quiet (setScheduleCondition w err)"
    "quiet (setHeartbeatCondition w p)" "quiet (setAdmission w adm)" "quiet (setEvictionCondition w summary)"
  unfolding setCondition_def setScheduleCondition_def setHeartbeatCondition_def setAdmission_def setEvictionCondition_def
    Let_def
  by (intro quiet_andThen quiet_clock quiet_activity quiet_if quiet_ret quiet_status assms ownedStatus_steps)+

lemma quiet_signals: "quiet (observeNodeSignals w p nm pr applied invalid)"
  unfolding observeNodeSignals_def Let_def
  by (auto split: option.split intro!: quiet_metrics quiet_andThen quiet_clock)

lemmas quiet_rules = quiet_before quiet_andThen quiet_clock quiet_activity quiet_metrics quiet_ret quiet_signals

lemma classFor_host:
  "hostPart a = hostPart b \<Longrightarrow> classFor p a node desired now = classFor p b node desired now"
  by (simp add: hostPart_def classFor_def)

lemma reconcileEvictions_host:
  assumes "hostPart a = hostPart b"
  shows "reconcileEvictions p e getPVC getPV listPods evictor now a node desired s =
     reconcileEvictions p e getPVC getPV listPods evictor now b node desired s"
  unfolding reconcileEvictions_def classFor_host [OF assms] ..

lemma quiet_then:
  assumes "quiet m"
  shows "\<exists>x t. sameEffect s t \<and> andThen m f s = f x t"
proof -
  obtain x t where "m s = (Inr x, t)" "sameEffect s t" using assms unfolding quiet_def by blast
  then show ?thesis by (auto simp: andThen_def)
qed

lemma quiet_first:
  assumes "quiet m"
  shows "\<exists>t. sameEffect s t \<and> before m n s = n t"
  using quiet_then [OF assms, of s "\<lambda>_. n"] unfolding before_def by blast

lemma runEvictions1_effect:
  assumes "obliging w"
  shows "\<exists>summary now s'. runEvictions1 w r node desired s = (Inr summary, s') \<and>
    psEvict s' = snd (reconcileEvictions (rrPolicy r) (rrEviction r) (wPVC w) (wPV w) (wPods w) (rrEvictor r)
       (wClock w now) (psActivity s) node desired (psEvict s)) \<and>
    nodeWrites (psWrites s') = nodeWrites (psWrites s)"
proof -
  obtain pods where pods: "wPods w (nodeName node) = Inr pods" using assms unfolding obliging_def by blast
  let ?e = "reconcileEvictions (rrPolicy r) (rrEviction r) (wPVC w) (wPV w) (wPods w) (rrEvictor r)
       (wClock w (psClock s)) (psActivity s) node desired (psEvict s)"
  obtain m ev where "?e = (Inr m, ev)"
    using pods by (cases ?e) (auto simp: reconcileEvictions_def Let_def split: if_splits)
  then show ?thesis
    unfolding runEvictions1_def andThen_def clockNow_def
    by (intro exI [of _ m] exI [of _ "psClock s"]) auto
qed

text \<open>The node as the pass leaves it, and whether it was written.\<close>

lemma protectNode_effect:
  assumes "obliging w"
  shows "protectNode w p admitted desired fenced node s =
    (Inr (snd (applyProtection p admitted desired fenced node)),
     if fst (applyProtection p admitted desired fenced node)
     then s\<lparr>psWrites := psWrites s @ [UpdateNode (snd (applyProtection p admitted desired fenced node))]\<rparr> else s)"
  using assms by (simp add: protectNode_def updateNode_def ret_def obliging_def split_beta Let_def)

definition writtenNode :: "TaintPolicy \<Rightarrow> bool \<Rightarrow> Taint option \<Rightarrow> Node \<Rightarrow> Node list" where
  "writtenNode p admitted desired node =
     (if fst (applyProtection p admitted desired (\<not> admitted) node)
      then [snd (applyProtection p admitted desired (\<not> admitted) node)] else [])"

lemma reconcileNode_effect:
  assumes ob: "obliging w" and one: "prCount pr = 1"
  shows "\<exists>d now s'. reconcileNode w r err nm pr admitted node s = (Inr d, s') \<and>
    nodeWrites (psWrites s') = nodeWrites (psWrites s) @ writtenNode (rrPolicy r) admitted (prTaint pr) node \<and>
    psEvict s' = snd (reconcileEvictions (rrPolicy r) (rrEviction r) (wPVC w) (wPV w) (wPods w) (rrEvictor r)
      (wClock w now) (psActivity s) (snd (applyProtection (rrPolicy r) admitted (prTaint pr) (\<not> admitted) node))
      (prTaint pr) (psEvict s))"
proof -
  let ?p = "rrPolicy r"
  define node' where "node' = snd (applyProtection ?p admitted (prTaint pr) (\<not> admitted) node)"
  define s1 where "s1 = snd (protectNode w ?p admitted (prTaint pr) (\<not> admitted) node s)"
  have s1: "protectNode w ?p admitted (prTaint pr) (\<not> admitted) node s = (Inr node', s1)"
    "psActivity s1 = psActivity s" "psEvict s1 = psEvict s"
    "nodeWrites (psWrites s1) = nodeWrites (psWrites s) @ writtenNode ?p admitted (prTaint pr) node"
    unfolding s1_def protectNode_effect [OF ob] by (simp_all add: node'_def writtenNode_def)
  define tail where "tail = (\<lambda>summary. before (setEvictionCondition w summary)
        (before (onMetrics (observeEvictionStatus nm (smOutcome summary) (smBlockerReason summary)))
        (ret (earlierRequeue (prRequeueAfter pr) (smRequeueAfter summary)))))"
  define ev where "ev = andThen (runEvictions1 w r node' (prTaint pr)) tail"
  define e4 where "e4 = before (observeNodeSignals w ?p nm pr (burstAppliedOn ?p node') (err \<noteq> None)) ev"
  define adm where "adm = andThen (clockNow w) (\<lambda>now.
                   setAdmission w (admissionStatus ?p pr admitted (burstAppliedOn ?p node') NoReason now))"
  define e3 where "e3 = before adm e4"
  define e2 where "e2 = before (setHeartbeatCondition w ?p) e3"
  define e1 where "e1 = before (setScheduleCondition w err) e2"
  define cond where "cond = setCondition w (if prCount pr > 1 then ConditionFalse else ConditionTrue)
                   (if prCount pr > 1 then ''DuplicateEnrollment''
                    else if prScheduled pr then ''ScheduledWindow'' else ''TaintReconciled'')
                   (prReason pr) (prTaint pr)"
  have run: "reconcileNode w r err nm pr admitted node s = before cond e1 s1"
    using one unfolding reconcileNode_def Let_def andThen_def [of "protectNode _ _ _ _ _ _"] s1(1)
      cond_def e1_def e2_def e3_def adm_def e4_def ev_def tail_def
    by simp
  note q = quiet_conditions [OF ob]
  have qadm: "quiet adm" unfolding adm_def by (intro quiet_andThen quiet_clock q)
  have qcond: "quiet cond" unfolding cond_def by (rule q)
  obtain s2 where s2: "sameEffect s1 s2" "before cond e1 s1 = e1 s2" using quiet_first [OF qcond] by blast
  obtain s3 where s3: "sameEffect s2 s3" "e1 s2 = e2 s3" using quiet_first [OF q(2)] unfolding e1_def by blast
  obtain s4 where s4: "sameEffect s3 s4" "e2 s3 = e3 s4" using quiet_first [OF q(3)] unfolding e2_def by blast
  obtain s5 where s5: "sameEffect s4 s5" "e3 s4 = e4 s5" using quiet_first [OF qadm] unfolding e3_def by blast
  obtain s6 where s6: "sameEffect s5 s6" "e4 s5 = ev s6" using quiet_first [OF quiet_signals] unfolding e4_def by blast
  have same: "sameEffect s1 s6" using s2(1) s3(1) s4(1) s5(1) s6(1) by (blast intro: sameEffect_trans)
  obtain summary now s7 where s7: "runEvictions1 w r node' (prTaint pr) s6 = (Inr summary, s7)"
    "psEvict s7 = snd (reconcileEvictions ?p (rrEviction r) (wPVC w) (wPV w) (wPods w) (rrEvictor r)
       (wClock w now) (psActivity s6) node' (prTaint pr) (psEvict s6))"
    "nodeWrites (psWrites s7) = nodeWrites (psWrites s6)"
    using runEvictions1_effect [OF ob] by blast
  have "quiet (tail summary)" unfolding tail_def by (intro quiet_before q quiet_metrics quiet_ret)
  then obtain d s' where s': "tail summary s7 = (Inr d, s')" "sameEffect s7 s'" unfolding quiet_def by blast
  have "reconcileNode w r err nm pr admitted node s = (Inr d, s')"
    unfolding run s2(2) s3(2) s4(2) s5(2) s6(2) ev_def andThen_def s7(1) using s'(1) by simp
  moreover have "nodeWrites (psWrites s') = nodeWrites (psWrites s) @ writtenNode ?p admitted (prTaint pr) node"
    using s'(2) s7(3) same s1(4) by (simp add: sameEffect_def)
  moreover have "psEvict s' = snd (reconcileEvictions ?p (rrEviction r) (wPVC w) (wPV w) (wPods w) (rrEvictor r)
       (wClock w now) (psActivity s) node' (prTaint pr) (psEvict s))"
  proof -
    have "hostPart (psActivity s6) = hostPart (psActivity s)" "psEvict s6 = psEvict s"
      using same s1(2,3) by (simp_all add: sameEffect_def)
    then show ?thesis
      using s'(2) s7(2) reconcileEvictions_host [OF \<open>hostPart (psActivity s6) = hostPart (psActivity s)\<close>, where 'a = 'a]
      by (simp add: sameEffect_def)
  qed
  ultimately show ?thesis unfolding node'_def by blast
qed


text \<open>The start of a pass over a live enrollment: finalizer, clock, hold, then the listing.\<close>

lemma reconcileHold_effect:
  assumes "obliging w" "holdOk (psActivity s)"
  shows "\<exists>s'. reconcileHold w now s = (Inr (), s') \<and> sameEffect s s'"
  using assms(2)
  by (auto simp: reconcileHold_def andThen_def getActivity_def ret_def patch_obliging [OF assms(1)] holdOk_def Let_def
      sameEffect_def hostPart_def)

lemma ensureFinalizer_frame:
  "obliging w \<Longrightarrow> \<exists>s'. ensureFinalizer w s = (Inr (), s') \<and> sameEffect s s' \<and> psClock s' = psClock s \<and>
     naAnnotations (psActivity s') = naAnnotations (psActivity s)"
  by (simp add: ensureFinalizer_def andThen_def getActivity_def ret_def patch_obliging sameEffect_def hostPart_def)

lemma Reconcile_run:
  assumes a: "wGetActivity w = Found a" "deletionIsZero a" "trimSpace (specNodeName (naSpec a)) \<noteq> ''''" "holdOk a"
    and w: "obliging w" and p: "accepted w r"
    and pr: "protectionForNode (wLib w) (rrPolicy r) (wParseTime w) (wList w) (specNodeName (naSpec a))
       (wClock w (psClock s)) = Inr pr"
  shows "\<exists>s'. sameEffect (s\<lparr>psActivity := a\<rparr>) s' \<and> Reconcile w r s =
     (case wGetNode w (specNodeName (naSpec a)) of
        NotFound \<Rightarrow> reconcileNodeMissing w r (validateSchedule (wLib w) (naSpec a)) (specNodeName (naSpec a)) pr s'
      | Failed e \<Rightarrow> (Inl (Api e), s')
      | Found n \<Rightarrow> reconcileNode w r (validateSchedule (wLib w) (naSpec a)) (specNodeName (naSpec a)) pr
          (policyAdmitted (rrPolicy r) pr (wClock w (psClock s))) n s')"
proof -
  let ?s = "s\<lparr>psActivity := a\<rparr>"
  obtain s1 where s1: "ensureFinalizer w ?s = (Inr (), s1)" "sameEffect ?s s1" "psClock s1 = psClock s"
    "naAnnotations (psActivity s1) = naAnnotations a"
    using ensureFinalizer_frame [OF w, of ?s] by auto
  define s2 where "s2 = s1\<lparr>psClock := Suc (psClock s)\<rparr>"
  have s2: "sameEffect ?s s2" using s1(2) by (simp add: s2_def sameEffect_def)
  have "holdOk (psActivity s2)" using a(4) s1(4) by (simp add: s2_def holdOk_def)
  then obtain s3 where s3: "reconcileHold w (wClock w (psClock s)) s2 = (Inr (), s3)" "sameEffect s2 s3"
    using reconcileHold_effect [OF w] by blast
  have same: "sameEffect ?s s3" by (rule sameEffect_trans [OF s2 s3(2)])
  then have "naSpec (psActivity s3) = naSpec a" by (simp add: sameEffect_def hostPart_def)
  then have "Reconcile w r s =
     (case wGetNode w (specNodeName (naSpec a)) of
        NotFound \<Rightarrow> reconcileNodeMissing w r (validateSchedule (wLib w) (naSpec a)) (specNodeName (naSpec a)) pr s3
      | Failed e \<Rightarrow> (Inl (Api e), s3)
      | Found n \<Rightarrow> reconcileNode w r (validateSchedule (wLib w) (naSpec a)) (specNodeName (naSpec a)) pr
          (policyAdmitted (rrPolicy r) pr (wClock w (psClock s))) n s3)"
    using a(1,2,3) p s1(1,3) s3(1) pr
    by (simp add: Reconcile_def accepted_def reconcileEnrolled_def before_def andThen_def clockNow_def getActivity_def
        protect_def fail_def Let_def s2_def [symmetric] split: lookup.split)
  with same show ?thesis by blast
qed

lemma Reconcile_requeues:
  assumes a: "wGetActivity w = Found a" "deletionIsZero a" "trimSpace (specNodeName (naSpec a)) \<noteq> ''''" "holdOk a"
    and w: "obliging w" "timely w" and p: "accepted w r" "policyOk (rrPolicy r)"
    and items: "wList w (specNodeName (naSpec a)) = Inr items" "\<exists>i \<in> set items. liveFor (specNodeName (naSpec a)) i"
    and node: "\<forall>err. wGetNode w (specNodeName (naSpec a)) \<noteq> Failed err"
  shows "\<exists>d s'. Reconcile w r s = (Inr d, s') \<and> 0 < d \<and>
    d \<le> polStaleAfter (rrPolicy r) + effectiveHeartbeatSkew (rrPolicy r)"
proof -
  let ?nm = "specNodeName (naSpec a)" and ?now = "wClock w (psClock s)"
  let ?err = "validateSchedule (wLib w) (naSpec a)"
  obtain pr where pr: "protectionForNode (wLib w) (rrPolicy r) (wParseTime w) (wList w) ?nm ?now = Inr pr"
    using items(1) by (auto simp: protectionForNode_def Let_def)
  have "0 < ?now" using w(2) by (simp add: timely_def)
  note req = protection_requeue [OF items pr p(2) this]
  obtain s3 where run: "Reconcile w r s =
     (case wGetNode w ?nm of
        NotFound \<Rightarrow> reconcileNodeMissing w r ?err ?nm pr s3
      | Failed e \<Rightarrow> (Inl (Api e), s3)
      | Found n \<Rightarrow> reconcileNode w r ?err ?nm pr (policyAdmitted (rrPolicy r) pr ?now) n s3)"
    using Reconcile_run [OF a w(1) p(1) pr] by blast
  show ?thesis
  proof (cases "wGetNode w ?nm")
    case NotFound
    then show ?thesis
      using run req reconcileNodeMissing_ends [OF w(1), where r = r and err = ?err and nm = ?nm and pr = pr]
      by (fastforce simp: succeeds_def returns_def)
  next
    case (Failed e)
    then show ?thesis using node by simp
  next
    case (Found n)
    then show ?thesis
      using run req reconcileNode_ends [OF w(1), where r = r and err = ?err and nm = ?nm and pr = pr and node = n
          and admitted = "policyAdmitted (rrPolicy r) pr ?now"]
      by (fastforce simp: succeeds_def returns_def)
  qed
qed

lemma Reconcile_effect:
  assumes a: "wGetActivity w = Found a" "deletionIsZero a" "trimSpace (specNodeName (naSpec a)) \<noteq> ''''" "holdOk a"
    and w: "obliging w" and p: "accepted w r"
    and pr: "protectionForNode (wLib w) (rrPolicy r) (wParseTime w) (wList w) (specNodeName (naSpec a))
       (wClock w (psClock s)) = Inr pr" "prCount pr = 1"
    and node: "wGetNode w (specNodeName (naSpec a)) = Found node"
  defines "admitted \<equiv> policyAdmitted (rrPolicy r) pr (wClock w (psClock s))"
  shows "\<exists>d k s'. Reconcile w r s = (Inr d, s') \<and>
    nodeWrites (psWrites s') = nodeWrites (psWrites s) @ writtenNode (rrPolicy r) admitted (prTaint pr) node \<and>
    psEvict s' = snd (reconcileEvictions (rrPolicy r) (rrEviction r) (wPVC w) (wPV w) (wPods w) (rrEvictor r)
      (wClock w k) a (snd (applyProtection (rrPolicy r) admitted (prTaint pr) (\<not> admitted) node))
      (prTaint pr) (psEvict s))"
proof -
  let ?nm = "specNodeName (naSpec a)" and ?err = "validateSchedule (wLib w) (naSpec a)"
  obtain s3 where s3: "sameEffect (s\<lparr>psActivity := a\<rparr>) s3"
    "Reconcile w r s = reconcileNode w r ?err ?nm pr admitted node s3"
    using Reconcile_run [OF a w p pr(1)] node unfolding admitted_def by auto
  have h: "hostPart (psActivity s3) = hostPart a" "psEvict s3 = psEvict s" "nodeWrites (psWrites s3) = nodeWrites (psWrites s)"
    using s3(1) by (simp_all add: sameEffect_def)
  show ?thesis
    using reconcileNode_effect [OF w pr(2), where r = r and err = ?err and nm = ?nm and admitted = admitted and node = node
        and s = s3]
    unfolding s3(2) h(2,3) reconcileEvictions_host [OF h(1)] by blast
qed

end
