(* ===== verification/PassEvictions.thy ===== *)
theory PassEvictions
  imports Reconcile
begin

text \<open>
  Which Eviction API calls a whole pass can make.  Before its only eviction pass, a pass over an
  enrollment neither changes the eviction state nor turns to another node, so what is evicted is of
  the node the enrollment was read with, and the listing that decides is one of that node.

  \<open>answersByName\<close> is what is relied on of the API server here: it answers with the Node it was asked
  for or sent, and nobody edits \<open>spec.nodeName\<close> of the enrollment during the pass.
\<close>

definition answersByName :: "'e world \<Rightarrow> bool" where
  "answersByName w \<longleftrightarrow>
     (\<forall>nm node. wGetNode w nm = Found node \<longrightarrow> nodeName node = nm) \<and>
     (\<forall>h n n'. wUpdate w h n = Inr n' \<longrightarrow> nodeName n' = nodeName n) \<and>
     (\<forall>h a a'. wPatch w h (PatchObject a) = Inr a' \<or> wPatch w h (PatchStatus a) = Inr a' \<longrightarrow>
        specNodeName (naSpec a') = specNodeName (naSpec a))"

section \<open>Steps that leave evictions alone\<close>

interpretation evictions_frame: node_frame w "\<lambda>s. psEvict s = e" r for w e r
  by unfold_locales simp_all

definition named :: "string \<Rightarrow> evictState \<Rightarrow> nat \<Rightarrow> passState \<Rightarrow> bool" where
  "named nm e k s \<longleftrightarrow> specNodeName (naSpec (psActivity s)) = nm \<and> psEvict s = e \<and> psClock s = k"

lemma named_patch:
  assumes "answersByName w" "specNodeName (naSpec a) = nm"
  shows "named nm e k s \<Longrightarrow> named nm e k (snd (patch w PatchObject a s))"
  using assms by (auto simp: named_def patch_def Let_def answersByName_def split: sum.split)

lemma named_finalizer: "answersByName w \<Longrightarrow> named nm e k s \<Longrightarrow> named nm e k (snd (ensureFinalizer w s))"
  using named_patch [of w "psActivity s\<lparr>naFinalizers := wAddFinalizer w (naFinalizers (psActivity s)) NodeActivityFinalizer\<rparr>" nm e k s]
  by (simp add: ensureFinalizer_def andThen_def getActivity_def ret_def) (simp add: named_def)

lemma named_hold: "answersByName w \<Longrightarrow> named nm e k s \<Longrightarrow> named nm e k (snd (reconcileHold w now s))"
  using named_patch [of w "psActivity s\<lparr>naAnnotations := m\<rparr>" nm e k s for m]
  by (simp add: reconcileHold_def andThen_def getActivity_def ret_def fail_def Let_def) (simp add: named_def)

section \<open>The eviction pass of a node\<close>

lemma evictPods_listed:
  "\<exists>called. esCalls (evictPods getPVC getPV evictor policy class node now pods s) =
     esCalls s @ map (callFor node now) called \<and> (\<forall>pod \<in> set called. pod \<in> set pods \<and> podNodeName pod = node)"
proof (induction pods arbitrary: s)
  case Nil
  show ?case by (rule exI [of _ "[]"]) simp
next
  case (Cons pod pods)
  define oc where "oc = outcomeOf getPVC getPV evictor policy class node now pod s"
  obtain called where c: "esCalls (evictPods getPVC getPV evictor policy class node now (pod # pods) s) =
      esCalls (applyOutcome policy node now pod s oc) @ map (callFor node now) called"
    "\<forall>q \<in> set called. q \<in> set pods \<and> podNodeName q = node"
    using Cons.IH [of "applyOutcome policy node now pod s oc"] by (auto simp: evictPod_outcome oc_def)
  show ?case
  proof (cases "\<exists>b evict. oc = Attempted b evict")
    case True
    then obtain b evict where oc: "oc = Attempted b evict" by blast
    have "podNodeName pod = node" using outcomeOf_Attempted(1) [OF oc [unfolded oc_def]] by (simp add: evictable_def)
    then show ?thesis
      using c by (intro exI [of _ "pod # called"]) (simp add: oc applyOutcome_calls)
  next
    case False
    then have "esCalls (applyOutcome policy node now pod s oc) = esCalls s" by (cases oc) (auto simp: applyOutcome_calls)
    then show ?thesis using c by (intro exI [of _ called]) simp
  qed
qed

definition ownCall :: "'e world \<Rightarrow> string \<Rightarrow> evictCall \<Rightarrow> bool" where
  "ownCall w nm c \<longleftrightarrow>
     (\<exists>pods pod t. wPods w nm = Inr pods \<and> pod \<in> set pods \<and> podNodeName pod = nm \<and> c = callFor nm t pod)"

text \<open>The calls since \<open>base\<close> are of Pods of the node, and there are any only if \<open>F\<close> holds.\<close>

definition evictedFrom :: "'e world \<Rightarrow> string \<Rightarrow> evictCall list \<Rightarrow> bool \<Rightarrow> passState \<Rightarrow> bool" where
  "evictedFrom w nm base F s \<longleftrightarrow>
     (\<exists>cs. esCalls (psEvict s) = base @ cs \<and> list_all (ownCall w nm) cs \<and> (cs \<noteq> [] \<longrightarrow> F))"

interpretation calls_frame: node_frame w "evictedFrom w nm base F" r for w nm base F r
  by unfold_locales (simp_all add: evictedFrom_def)

definition mayEvict :: "reconciler \<Rightarrow> enrollmentProtection \<Rightarrow> bool" where
  "mayEvict r pr \<longleftrightarrow>
     epEnabled (rrEviction r) \<and> \<not> epAudit (rrEviction r) \<and> rrEvictor r \<noteq> None \<and> prCount pr = 1 \<and> prTaint pr \<noteq> None"

lemma reconcileEvictions_own:
  fixes w :: "'e world" and p eviction evictor now activity node desired s
  defines "e \<equiv> snd (reconcileEvictions p eviction (wPVC w) (wPV w) (wPods w) evictor now activity node desired s)"
  shows "\<exists>cs. esCalls e = esCalls s @ cs \<and> list_all (ownCall w (nodeName node)) cs"
proof -
  have "esCalls e = esCalls s \<or> (\<exists>pods c s'. wPods w (nodeName node) = Inr pods \<and>
      e = evictPods (wPVC w) (wPV w) evictor (normalized eviction) c (nodeName node) now pods s' \<and> esCalls s' = esCalls s)"
    using reconcileEvictions_pass [of p eviction "wPVC w" "wPV w" "wPods w" evictor now activity node desired s]
    unfolding e_def
  proof (elim disjE exE conjE, goal_cases)
    case (2 pods)
    then show ?case by (intro disjI2 exI conjI) (assumption, assumption, simp)
  qed simp
  then consider "esCalls e = esCalls s"
    | pods c s' where "wPods w (nodeName node) = Inr pods" "esCalls s' = esCalls s"
      "e = evictPods (wPVC w) (wPV w) evictor (normalized eviction) c (nodeName node) now pods s'"
    by blast
  then show ?thesis
  proof cases
    case 1
    then show ?thesis by simp
  next
    case (2 pods c s')
    from evictPods_listed [of "wPVC w" "wPV w" evictor "normalized eviction" c "nodeName node" now pods s']
    obtain called where "esCalls e = esCalls s @ map (callFor (nodeName node) now) called"
      "\<forall>pod \<in> set called. pod \<in> set pods \<and> podNodeName pod = nodeName node"
      using 2(2,3) by auto
    then show ?thesis
      using 2(1) by (intro exI [of _ "map (callFor (nodeName node) now) called"]) (auto simp: list_all_iff ownCall_def)
  qed
qed

lemma evicting_own:
  assumes "prCount pr = 1"
  shows "keeps (evictedFrom w (nodeName node) base (mayEvict r pr)) (runEvictions1 w r node (prTaint pr))"
  unfolding runEvictions1_def
proof (rule keeps_andThen [OF calls_frame.clock], rule keepsI)
  fix now s assume "evictedFrom w (nodeName node) base (mayEvict r pr) s"
  then obtain cs where cs: "esCalls (psEvict s) = base @ cs" "list_all (ownCall w (nodeName node)) cs"
    "cs \<noteq> [] \<longrightarrow> mayEvict r pr" unfolding evictedFrom_def by blast
  let ?e = "reconcileEvictions (rrPolicy r) (rrEviction r) (wPVC w) (wPV w) (wPods w) (rrEvictor r) now
      (psActivity s) node (prTaint pr) (psEvict s)"
  obtain ds where ds: "esCalls (snd ?e) = esCalls (psEvict s) @ ds" "list_all (ownCall w (nodeName node)) ds"
    using reconcileEvictions_own by blast
  have "ds \<noteq> [] \<longrightarrow> mayEvict r pr"
    using reconcileEvictions_authorized [of "rrPolicy r" "rrEviction r" "wPVC w" "wPV w" "wPods w" "rrEvictor r" now
      "psActivity s" node "prTaint pr" "psEvict s"] ds(1) assms by (simp add: mayEvict_def)
  then have "evictedFrom w (nodeName node) base (mayEvict r pr) (s\<lparr>psEvict := snd ?e\<rparr>)"
    unfolding evictedFrom_def using cs ds by (intro exI [of _ "cs @ ds"]) auto
  then show "evictedFrom w (nodeName node) base (mayEvict r pr) (snd (let (result, ev) = ?e; s' = s\<lparr>psEvict := ev\<rparr>
      in case result of Inl err \<Rightarrow> (Inl (Api err), s') | Inr summary \<Rightarrow> (Inr summary, s')))"
    by (cases ?e) (simp add: Let_def split: sum.split)
qed

lemma keeps_returns:
  assumes "keeps I m" "returns Q m" "\<And>x. Q x \<Longrightarrow> keeps I (f x)"
  shows "keeps I (andThen m f)"
proof (rule keepsI)
  fix s assume "I s"
  obtain res s' where m: "m s = (res, s')" by (cases "m s")
  then have "I s'" using keepsD [OF assms(1) \<open>I s\<close>] by simp
  then show "I (snd (andThen m f s))"
    using m assms(2) keepsD [OF assms(3)] by (cases res) (auto simp: andThen_def returns_def)
qed

lemma protectNode_name:
  assumes "answersByName w"
  shows "returns (\<lambda>node'. nodeName node' = nodeName node) (protectNode w p admitted desired fenced node)"
proof -
  have "nodeName (snd (applyProtection p admitted desired fenced node)) = nodeName node"
    by (simp add: applyProtection_node)
  then show ?thesis
    using assms by (auto simp: returns_def protectNode_def updateNode_def ret_def split_beta Let_def answersByName_def
        split: sum.splits if_splits)
qed

lemma evicting_node:
  assumes "answersByName w" "accepted w r" "wGetNode w nm = Found node" "protectionAt w r nm pr"
  shows "keeps (evictedFrom w nm base (mayEvict r pr)) (reconcileNode w r err nm pr admitted node)"
  unfolding reconcileNode_def Let_def
proof (rule keeps_returns [OF calls_frame.protecting_node [OF assms(2-4)] protectNode_name [OF assms(1)]],
    intro keeps_before keeps_andThen [OF calls_frame.clock] calls_frame.frame_rules calls_frame.signals)
  fix node' :: Node assume "nodeName node' = nodeName node"
  then have nm: "nodeName node' = nm" using assms(1,3) by (simp add: answersByName_def)
  show "keeps (evictedFrom w nm base (mayEvict r pr)) (andThen (if prCount pr = 1 then runEvictions1 w r node' (prTaint pr)
      else ret (evictionWithoutPods (rrEviction r) False)) (\<lambda>summary.
        before (setEvictionCondition w summary)
       (before (onMetrics (observeEvictionStatus nm (smOutcome summary) (smBlockerReason summary)))
       (ret (earlierRequeue (prRequeueAfter pr) (smRequeueAfter summary))))))"
    by (rule keeps_andThen)
      (auto intro: keeps_ret evicting_own [of pr w node', unfolded nm] keeps_before calls_frame.eviction_condition
        calls_frame.observing)
qed

section \<open>The whole pass\<close>

lemma enrolled_evictions:
  assumes w: "answersByName w" and r: "accepted w r" and s: "named nm e k s"
    and calls: "esCalls (psEvict (snd (reconcileEnrolled w r err s))) \<noteq> esCalls e"
  shows "\<exists>pr. protectionForNode (wLib w) (rrPolicy r) (wParseTime w) (wList w) nm (wClock w k) = Inr pr \<and> mayEvict r pr \<and>
    (\<exists>cs. esCalls (psEvict (snd (reconcileEnrolled w r err s))) = esCalls e @ cs \<and> list_all (ownCall w nm) cs)"
proof -
  obtain r1 s1 where s1: "ensureFinalizer w s = (r1, s1)" "named nm e k s1"
    using named_finalizer [OF w s] by (cases "ensureFinalizer w s") auto
  define s2 where "s2 = s1\<lparr>psClock := Suc k\<rparr>"
  have "named nm e (Suc k) s2" using s1(2) by (simp add: named_def s2_def)
  then obtain r3 s3 where s3: "reconcileHold w (wClock w k) s2 = (r3, s3)" "named nm e (Suc k) s3"
    using named_hold [OF w] by (cases "reconcileHold w (wClock w k) s2") (metis snd_conv)
  define run where "run = reconcileEnrolled w r err s"
  have e: "psEvict s1 = e" "psEvict s3 = e" "specNodeName (naSpec (psActivity s3)) = nm" "psClock s1 = k"
    using s1(2) s3(2) by (simp_all add: named_def)
  obtain x y where xy: "r1 = Inr x" "r3 = Inr y"
    using calls s1(1) s3(1) e
    by (cases r1; cases r3) (auto simp: reconcileEnrolled_def before_def andThen_def clockNow_def s2_def)
  have unfolded: "run = (case protectionForNode (wLib w) (rrPolicy r) (wParseTime w) (wList w) nm (wClock w k) of
      Inl er \<Rightarrow> (Inl (Api er), s3)
    | Inr pr \<Rightarrow> (case wGetNode w nm of
          NotFound \<Rightarrow> reconcileNodeMissing w r err nm pr s3
        | Failed er \<Rightarrow> (Inl (Api er), s3)
        | Found node \<Rightarrow> reconcileNode w r err nm pr (policyAdmitted (rrPolicy r) pr (wClock w k)) node s3))"
    using s1(1) s3(1) e xy unfolding run_def
    by (simp add: reconcileEnrolled_def before_def andThen_def clockNow_def getActivity_def protect_def fail_def Let_def
        s2_def [symmetric] split: sum.split lookup.split)
  have changed: "psEvict (snd run) \<noteq> e" using calls by (auto simp: run_def)
  obtain pr where pr: "protectionForNode (wLib w) (rrPolicy r) (wParseTime w) (wList w) nm (wClock w k) = Inr pr"
    using changed unfolded e(2) by (cases "protectionForNode (wLib w) (rrPolicy r) (wParseTime w) (wList w) nm (wClock w k)") auto
  obtain node where node: "wGetNode w nm = Found node"
    "run = reconcileNode w r err nm pr (policyAdmitted (rrPolicy r) pr (wClock w k)) node s3"
    using changed unfolded pr e(2) keepsD [OF evictions_frame.missing, of s3 e w r err nm pr]
    by (cases "wGetNode w nm") auto
  have "protectionAt w r nm pr" using pr by (auto simp: protectionAt_def)
  moreover have "evictedFrom w nm (esCalls e) (mayEvict r pr) s3" using e(2) by (simp add: evictedFrom_def)
  ultimately have "evictedFrom w nm (esCalls e) (mayEvict r pr) (snd run)"
    unfolding node(2) using keepsD [OF evicting_node [OF w r node(1)]] by blast
  then show ?thesis using pr calls unfolding evictedFrom_def run_def [symmetric] by (intro exI [of _ pr]) auto
qed

lemma Reconcile_evictions:
  assumes w: "answersByName w" and calls: "esCalls (psEvict (snd (Reconcile w r s))) \<noteq> esCalls (psEvict s)"
  shows "\<exists>a pr. wGetActivity w = Found a \<and> deletionIsZero a \<and> accepted w r \<and>
    protectionForNode (wLib w) (rrPolicy r) (wParseTime w) (wList w) (specNodeName (naSpec a)) (wClock w (psClock s)) = Inr pr \<and>
    mayEvict r pr \<and>
    (\<exists>cs. esCalls (psEvict (snd (Reconcile w r s))) = esCalls (psEvict s) @ cs \<and>
       list_all (ownCall w (specNodeName (naSpec a))) cs)"
proof -
  obtain a where a: "wGetActivity w = Found a" "accepted w r"
    using calls by (auto simp: Reconcile_def ret_def fail_def accepted_def split: lookup.splits option.splits)
  let ?s = "s\<lparr>psActivity := a\<rparr>" and ?err = "validateSchedule (wLib w) (naSpec a)"
  have frame: "psEvict ?s = psEvict s" by simp
  note quiet = keepsD [OF evictions_frame.deleting [OF a(2)] frame]
    keepsD [OF evictions_frame.unnamed [where w = w and r = r and err = ?err] frame]
  have run: "deletionIsZero a" "Reconcile w r s = reconcileEnrolled w r ?err ?s"
    using calls a quiet by (auto simp: Reconcile_def accepted_def Let_def split: if_splits)
  have "named (specNodeName (naSpec a)) (psEvict s) (psClock s) ?s" by (simp add: named_def)
  from enrolled_evictions [OF w a(2) this calls [unfolded run(2)]] show ?thesis
    using a run by auto
qed

end
