(* ===== verification/Samples.thy ===== *)
theory Samples
  imports Eviction Enrollment
begin

text \<open>
  A small concrete cluster: one policy, a cron library with one hourly schedule, an enrollment, a
  node and two Pods.  The witnesses of the properties evaluate the model on it.
\<close>

definition hour :: duration where
  "hour = 3600000000000"

definition hourly :: "time \<Rightarrow> time" where
  "hourly t = (t div hour + 1) * hour"

definition sampleLib :: lib where
  "sampleLib =
     \<lparr>libCron = (\<lambda>e. if e = ''@hourly'' then Inr (\<lambda>loc. hourly) else Inl ''unknown descriptor''),
      libLocError = (\<lambda>z. if z = ''UTC'' then None else Some ''unknown time zone'')\<rparr>"

lemma hourly_next: "t < hourly t" "t \<le> u \<Longrightarrow> u < hourly t \<Longrightarrow> hourly u = hourly t"
proof -
  have h: "0 < hour" by (simp add: hour_def)
  show "t < hourly t"
    using idiv_less_iff [OF h, of t "t div hour + 1"] by (simp add: hourly_def)
  show "hourly u = hourly t" if "t \<le> u" "u < hourly t"
  proof -
    have "t div hour \<le> u div hour" using zdiv_mono1 [OF that(1) h] .
    moreover have "u div hour < t div hour + 1"
      using that(2) unfolding idiv_less_iff [OF h] hourly_def .
    ultimately show ?thesis by (simp add: hourly_def)
  qed
qed

lemma sampleLib_cronOk: "cronOk sampleLib"
  using hourly_next by (auto simp: cronOk_def sampleLib_def cronNext_def split: if_splits)

definition samplePolicy :: TaintPolicy where
  "samplePolicy =
     \<lparr>polKey = ''node/state'', polInteractiveValue = ''interactive'', polActiveValue = ''active'',
      polFailClosedValue = ''unknown'', polBurstTaintKey = ''node/burst'', polStaleAfter = 120 * second,
      polHeartbeatSkew = 0, polFailClosed = True\<rparr>"

lemma samplePolicy_ok: "policyOk samplePolicy"
  by (simp add: policyOk_def samplePolicy_def effectiveHeartbeatSkew_def second_def int64_bounds)

definition sampleWindow :: "string \<Rightarrow> AvailabilityWindow" where
  "sampleWindow st = \<lparr>awSchedule = ''@hourly'', awDuration = ''30m'', awTimeZone = '''', awState = st\<rparr>"

definition sampleSpec :: "AvailabilityWindow list \<Rightarrow> NodeActivitySpec" where
  "sampleSpec ws = \<lparr>specNodeName = ''node-a'', specWindows = ws, specLeadTime = ''5m''\<rparr>"

definition sampleStatus :: "State \<Rightarrow> Activity \<Rightarrow> time \<Rightarrow> NodeActivityStatus" where
  "sampleStatus st act hb =
     \<lparr>stState = st, stActivity = act, stReason = [], stObservedAt = hb, stHeartbeatAt = hb,
      stGeneration = 1, stFailClosed = False, stConditions = [], stManagedTaint = None,
      stAdmission = None\<rparr>"

definition sampleActivity :: "string \<Rightarrow> AvailabilityWindow list \<Rightarrow> NodeActivityStatus \<Rightarrow> NodeActivity" where
  "sampleActivity name ws status =
     \<lparr>naNamespace = ''games'', naName = name, naGeneration = 1, naDeletionTimestamp = None,
      naFinalizers = [], naAnnotations = Map.empty, naSpec = sampleSpec ws, naStatus = status\<rparr>"

definition sampleNow :: time where
  "sampleNow = 1000 * hour + 600 * second"

definition sampleNode :: "Taint list \<Rightarrow> Node" where
  "sampleNode ts = \<lparr>nodeName = ''node-a'', nodeLabels = Map.empty, nodeTaints = ts\<rparr>"

definition samplePod :: "string \<Rightarrow> Pod" where
  "samplePod name =
     \<lparr>podNamespace = ''apps'', podName = name, podUID = ''u-'' @ name, podResourceVersion = ''7'',
      podLabels = [EvictableLabel \<mapsto> ''true''], podAnnotations = Map.empty, podDeletionTimestamp = None,
      podOwnerReferences = [\<lparr>orKind = ''ReplicaSet''\<rparr>], podNodeName = ''node-a'', podNodeSelector = [],
      podAffinity = None, podPriority = None, podVolumes = [], podGracePeriod = Some 30, podPhase = PodRunning\<rparr>"

definition sampleEviction :: EvictionPolicy where
  "sampleEviction =
     \<lparr>epEnabled = True, epAudit = False, epProtectedNamespaces = {''kube-system''}, epMaxPerReconcile = 2,
      epBudgetInterval = minute, epRetryBackoff = 30 * second, epRetryJitter = 5 * second,
      epEvictableLabel = '''',
      epStandardBudget = \<lparr>ebPerNode = 0, ebGlobal = 0, ebInterval = 0, ebBurstPerNode = 0, ebBurstGlobal = 0\<rparr>,
      epLossyBudget = \<lparr>ebPerNode = 0, ebGlobal = 0, ebInterval = 0, ebBurstPerNode = 0, ebBurstGlobal = 0\<rparr>\<rparr>"

lemma sampleEviction_budgets: "policyBudgetsOk (normalized sampleEviction)"
proof -
  have "epStandardBudget (normalized sampleEviction) =
      \<lparr>ebPerNode = 2, ebGlobal = 2, ebInterval = minute, ebBurstPerNode = 2, ebBurstGlobal = 2\<rparr>"
    "epLossyBudget (normalized sampleEviction) =
      \<lparr>ebPerNode = 2, ebGlobal = 2, ebInterval = minute, ebBurstPerNode = 2, ebBurstGlobal = 2\<rparr>"
    by code_simp+
  then show ?thesis
    by (simp add: policyBudgetsOk_def budgetOk_def meterOk_def nodeMeter_def globalMeter_def minute_def maxInt64_def)
qed

text \<open>A run of the eviction pass on the sample node, with an active game and both Pods listed.\<close>

definition sampleGame :: NodeActivity where
  "sampleGame = sampleActivity ''a'' [] (sampleStatus StateActive ActivityGame (sampleNow - second))"

definition sampleRun :: "NodeActivity \<Rightarrow> unit evictionRun" where
  "sampleRun activity =
     \<lparr>erPVC = (\<lambda>_. None), erPV = (\<lambda>_. None),
      erPods = (\<lambda>n. if n = ''node-a'' then Inr [samplePod ''p'', samplePod ''q''] else Inl ()),
      erEvictor = Some (\<lambda>_ _. None), erNow = sampleNow, erActivity = activity,
      erNode = sampleNode [activeTaint samplePolicy], erDesired = Some (activeTaint samplePolicy)\<rparr>"

lemmas sample_defs = sampleActivity_def sampleSpec_def sampleWindow_def sampleStatus_def samplePolicy_def
lemmas sample_times = sampleNow_def hour_def second_def minute_def

end
