(* ===== verification/ControllerProperties.thy ===== *)
theory ControllerProperties
  imports PassEvictions Samples
begin

text \<open>
  The properties of the controller's components: the taint decision, the windows, the enrollments,
  the node, the budgets, the retries, the eviction gates, the gauges and the pass, each with a
  concrete instance.
\<close>

section \<open>The decision\<close>

text \<open>
  C9: The decision implements its table: the desired taint depends on the heartbeat's freshness, the
  reported state and activity, the hold, the preferred open window and the validity of the schedule
  only, in the order heartbeat, unknown state, live game, hold, game window, idle-allowed window,
  interactive session, interactive window, invalid schedule.
\<close>
theorem decision_refines_table:
  assumes "0 < now"
  shows "pdTaint (decidePolicy l p pt a now) =
    (let i = inputsOf l p pt a now;
         closed = (if polFailClosed p then Some (failClosedTaint p) else None)
     in if \<not> inFresh i then closed
        else if inState i \<noteq> StateIdle \<and> inState i \<noteq> StateActive then closed
        else if inState i = StateActive \<and> inActivity i = ActivityGame then Some (activeTaint p)
        else if inHold i then Some (interactiveTaint p)
        else if inWindow i = Some ''game'' then Some (activeTaint p)
        else if inWindow i = Some ''idle-allowed'' then None
        else if inState i = StateActive
        then (if inActivity i = ActivityInteractive then Some (interactiveTaint p) else closed)
        else if inWindow i \<noteq> None then Some (interactiveTaint p)
        else if inInvalid i then closed
        else None)"
  using decidePolicy_taintTable [OF assms] unfolding taintTable_def Let_def .

lemma decision_refines_table_witness:
  "pdTaint (decidePolicy sampleLib samplePolicy (\<lambda>_. None) sampleGame sampleNow) = Some (activeTaint samplePolicy)"
proof -
  let ?i = "inputsOf sampleLib samplePolicy (\<lambda>_. None) sampleGame sampleNow"
  have "hvFresh (verdict samplePolicy sampleGame sampleNow)"
    unfolding verdict_iffs [OF samplePolicy_ok]
    by (simp add: sampleGame_def sample_defs sample_times effectiveHeartbeatSkew_def)
  then have i: "inFresh ?i" "inState ?i = StateActive" "inActivity ?i = ActivityGame"
    by (simp_all add: inputsOf_def) (simp_all add: sampleGame_def sample_defs)
  have "0 < sampleNow" by (simp add: sample_times)
  from decision_refines_table [OF this, of sampleLib samplePolicy "\<lambda>_. None" sampleGame] show ?thesis
    using i by (simp add: Let_def)
qed

text \<open>
  C10: A host whose heartbeat says nothing of the present is fenced: when it never sent one, when the last is as old as the
  stale interval, or when it lies further ahead of the clock than the tolerance, the desired taint is the fail-closed
  NoSchedule taint, whatever else the status, the hold and the schedule say; with fail-closed switched off no taint is desired.
\<close>
theorem silent_host_fenced:
  assumes "policyOk p"
    and "stHeartbeatAt (naStatus a) = 0 \<or> polStaleAfter p \<le> now - stHeartbeatAt (naStatus a) \<or>
      effectiveHeartbeatSkew p < stHeartbeatAt (naStatus a) - now"
  shows "pdTaint (decidePolicy l p pt a now) =
    (if polFailClosed p then Some (mkTaint (polKey p) (polFailClosedValue p) NoSchedule) else None)"
proof -
  have "\<not> hvFresh (verdict p a now)"
    using assms(2) verdict_iffs(4) [OF assms(1)] by auto
  from decidePolicy_stale [OF this] show ?thesis by (simp add: failClosedTaint_def)
qed

lemma silent_host_fenced_witness:
  "pdTaint (decidePolicy sampleLib samplePolicy (\<lambda>_. None)
     (sampleActivity ''a'' [sampleWindow ''idle-allowed''] (sampleStatus StateIdle ActivityIdle (sampleNow - 120 * second)))
     sampleNow) = Some (mkTaint ''node/state'' ''unknown'' NoSchedule) \<and>
   pdTaint (decidePolicy sampleLib samplePolicy (\<lambda>_. None)
     (sampleActivity ''a'' [] (sampleStatus StateIdle ActivityIdle (sampleNow + 120 * second))) sampleNow) =
     Some (mkTaint ''node/state'' ''unknown'' NoSchedule)"
  using silent_host_fenced [OF samplePolicy_ok, of
      "sampleActivity ''a'' [sampleWindow ''idle-allowed''] (sampleStatus StateIdle ActivityIdle (sampleNow - 120 * second))"
      sampleNow sampleLib "\<lambda>_. None"]
    silent_host_fenced [OF samplePolicy_ok, of
      "sampleActivity ''a'' [] (sampleStatus StateIdle ActivityIdle (sampleNow + 120 * second))" sampleNow sampleLib "\<lambda>_. None"]
  by (simp add: sample_defs effectiveHeartbeatSkew_def sample_times)

text \<open>
  C24: No change is missed between two passes: until the requeue delay of a decision has passed, deciding again
  for the unchanged enrollment desires the same taint, as long as the schedule was invalid or could be evaluated.
\<close>
theorem taint_stable_until_requeue:
  assumes "policyOk p" "cronOk l" "0 < now" "now \<le> now'" "evaluable l a now"
    and "now' - now < pdRequeueAfter (decidePolicy l p pt a now)"
  shows "pdTaint (decidePolicy l p pt a now') = pdTaint (decidePolicy l p pt a now)"
  using assms by (rule decidePolicy_stable_until)

lemma taint_stable_until_requeue_witness:
  "pdTaint (decidePolicy sampleLib samplePolicy (\<lambda>_. None) sampleGame (sampleNow + 118 * second)) =
     Some (activeTaint samplePolicy)"
proof -
  have "pdRequeueAfter (decidePolicy sampleLib samplePolicy (\<lambda>_. None) sampleGame sampleNow) = 119 * second"
    "pdTaint (decidePolicy sampleLib samplePolicy (\<lambda>_. None) sampleGame sampleNow) = Some (activeTaint samplePolicy)"
    "evaluateWindows sampleLib (naSpec sampleGame) sampleNow = Inr (None, 0, 0)"
    by code_simp+
  then show ?thesis
    using taint_stable_until_requeue [OF samplePolicy_ok sampleLib_cronOk, of sampleNow "sampleNow + 118 * second" sampleGame
        "\<lambda>_. None"]
    by (simp add: evaluable_def sample_times)
qed

text \<open>
  C11: A node admitted for workloads is quiet: its heartbeat is fresh and reports an idle host, no hold is
  running, every window that is open or in its lead time allows idle workloads, and no eviction class applies.
\<close>
theorem admitted_node_quiet:
  assumes "policyOk p" "0 < now" "cronOk l"
    and adm: "controllerAdmitted (hvFresh (verdict p a now)) (stState (naStatus a)) (stActivity (naStatus a))
           (pdTaint (decidePolicy l p pt a now))"
  shows "stHeartbeatAt (naStatus a) \<noteq> 0 \<and> now - stHeartbeatAt (naStatus a) < polStaleAfter p \<and>
    stState (naStatus a) = StateIdle \<and> stActivity (naStatus a) = ActivityIdle \<and>
    \<not> now < holdExpiry pt a \<and>
    (\<forall>v nx wt lead ws w. evaluateWindows l (naSpec a) now = Inr (v, nx, wt) \<longrightarrow>
       parseSchedule l (naSpec a) = Inr (lead, ws) \<longrightarrow> w \<in> set ws \<longrightarrow> openOrLead lead now w \<longrightarrow>
       pwState w = ''idle-allowed'') \<and>
    classFor p a node (pdTaint (decidePolicy l p pt a now)) now = evictionClassNone"
proof -
  let ?i = "inputsOf l p pt a now"
  have t: "taintTable p ?i = None" and f: "hvFresh (verdict p a now)"
    and s: "stState (naStatus a) = StateIdle" "stActivity (naStatus a) = ActivityIdle"
    using adm decidePolicy_taintTable [OF assms(2)] by (auto simp: controllerAdmitted_def)
  have i: "inFresh ?i" "inState ?i = StateIdle" using f s by (simp_all add: inputsOf_def)
  note admits = taintTable_None_admits [OF t i]
  have w: "pwState w = ''idle-allowed''"
    if "evaluateWindows l (naSpec a) now = Inr (v, nx, wt)" "parseSchedule l (naSpec a) = Inr (lead, ws)"
      "w \<in> set ws" "openOrLead lead now w" for v nx wt lead ws w
  proof (rule idle_windows_only [OF that(1,2) assms(2,3) _ that(3,4)])
    show "map_option swState v = None \<or> map_option swState v = Some ''idle-allowed''"
      using admits(2) inputsOf_window(1) [OF that(1), of p pt] by simp
  qed
  have "classFor p a node (pdTaint (decidePolicy l p pt a now)) now = evictionClassNone"
    using classFor_desired t decidePolicy_taintTable [OF assms(2)] by metis
  then show ?thesis
    using admits(1) w s f verdict_iffs(4) [OF assms(1)] by (auto simp: inputsOf_def)
qed

lemma admitted_node_quiet_witness:
  "classFor samplePolicy (sampleActivity ''a'' [] (sampleStatus StateIdle ActivityIdle sampleNow)) (sampleNode [])
     (pdTaint (decidePolicy sampleLib samplePolicy (\<lambda>_. None)
        (sampleActivity ''a'' [] (sampleStatus StateIdle ActivityIdle sampleNow)) sampleNow)) sampleNow = evictionClassNone"
proof -
  let ?a = "sampleActivity ''a'' [] (sampleStatus StateIdle ActivityIdle sampleNow)"
  have now: "0 < sampleNow" by (simp add: sample_times)
  have "pdTaint (decidePolicy sampleLib samplePolicy (\<lambda>_. None) ?a sampleNow) = None" by code_simp
  then have "controllerAdmitted (hvFresh (verdict samplePolicy ?a sampleNow)) (stState (naStatus ?a)) (stActivity (naStatus ?a))
      (pdTaint (decidePolicy sampleLib samplePolicy (\<lambda>_. None) ?a sampleNow))"
    unfolding verdict_iffs [OF samplePolicy_ok] controllerAdmitted_def
    by (simp add: sample_defs sample_times effectiveHeartbeatSkew_def)
  from admitted_node_quiet [OF samplePolicy_ok now sampleLib_cronOk this, of "sampleNode []"] show ?thesis by blast
qed

section \<open>Windows\<close>

text \<open>
  C32: The window the decision uses is a strongest one: some window is chosen exactly when one is open
  or in its lead time, the chosen one is such a window of the schedule, and no other such window ranks higher.
\<close>
theorem strongest_window_wins:
  assumes "evaluateWindows l spec now = Inr (active, nxt, wait)" "parseSchedule l spec = Inr (lead, ws)"
    and "0 < now" "cronOk l"
  shows "(active = None \<longleftrightarrow> (\<forall>w \<in> set ws. \<not> openOrLead lead now w)) \<and>
    (\<forall>v. active = Some v \<longrightarrow>
       (\<exists>w \<in> set ws. openOrLead lead now w \<and> swState v = pwState w) \<and>
       (\<forall>w \<in> set ws. openOrLead lead now w \<longrightarrow> windowRank (pwState w) \<le> windowRank (swState v)))"
  using evaluateWindows_strongest [OF assms] by blast

lemma strongest_window_wins_witness:
  "\<exists>v. fst (projr (evaluateWindows sampleLib (sampleSpec [sampleWindow ''idle-allowed'', sampleWindow ''game'']) sampleNow)) =
     Some v \<and> swState v = ''game'' \<and>
   (\<forall>w \<in> set (snd (projr (parseSchedule sampleLib (sampleSpec [sampleWindow ''idle-allowed'', sampleWindow ''game''])))).
      openOrLead (fst (projr (parseSchedule sampleLib (sampleSpec [sampleWindow ''idle-allowed'', sampleWindow ''game''])))) sampleNow w
        \<longrightarrow> windowRank (pwState w) \<le> 3)"
proof -
  let ?spec = "sampleSpec [sampleWindow ''idle-allowed'', sampleWindow ''game'']"
  have e: "map_option swState (fst (projr (evaluateWindows sampleLib ?spec sampleNow))) = Some ''game''"
    "isl (evaluateWindows sampleLib ?spec sampleNow) = False" "isl (parseSchedule sampleLib ?spec) = False"
    by code_simp+
  obtain active nxt wait where ev: "evaluateWindows sampleLib ?spec sampleNow = Inr (active, nxt, wait)"
    using e(2) by (cases "evaluateWindows sampleLib ?spec sampleNow") auto
  obtain lead ws where ps: "parseSchedule sampleLib ?spec = Inr (lead, ws)"
    using e(3) by (cases "parseSchedule sampleLib ?spec") auto
  obtain v where v: "active = Some v" "swState v = ''game''" using e(1) ev by auto
  have "windowRank ''game'' = 3" by code_simp
  then show ?thesis
    using strongest_window_wins [OF ev ps _ sampleLib_cronOk] v ev ps by (simp add: sample_times)
qed

text \<open>
  C33: A schedule is accepted exactly when its lead time is empty or a duration that is not negative, and every
  window has a cron expression the library accepts, a positive duration, a known time zone and a known state.
\<close>
theorem schedule_accepted_iff:
  "validateSchedule l spec = None \<longleftrightarrow> leadOk spec \<and> list_all (windowFieldsOk l) (specWindows spec)"
  by (simp add: validateSchedule_None_iff list_all_iff)

section \<open>Enrollments\<close>

text \<open>
  C13: The protection of a node is the strongest any of its live enrollments asks for: nothing is applied
  exactly when none is live, otherwise the applied taint is the decision of a live enrollment that no other live one
  outranks; the count is the number of live ones, and the requeue delay is the smallest that one of the live ones needs,
  which is positive, and 0 if there is none.
\<close>
theorem strongest_enrollment_wins:
  assumes "listed nm = Inr items" "protectionForNode l p pt listed nm now = Inr pr" "policyOk p" "0 < now"
  defines "delays \<equiv> map (\<lambda>i. pdRequeueAfter (decidePolicy l p pt i now)) (filter (liveFor nm) items)"
  shows "(prSource pr = None \<longleftrightarrow> (\<forall>i \<in> set items. \<not> liveFor nm i)) \<and>
    (\<forall>s. prSource pr = Some s \<longrightarrow>
       s \<in> set items \<and> liveFor nm s \<and> prTaint pr = pdTaint (decidePolicy l p pt s now) \<and>
       (\<forall>i \<in> set items. liveFor nm i \<longrightarrow>
          protectionRank p now i (decidePolicy l p pt i now) \<le> protectionRank p now s (decidePolicy l p pt s now))) \<and>
    prCount pr = int (length (filter (liveFor nm) items)) \<and>
    prRequeueAfter pr = (if delays = [] then 0 else Min (set delays)) \<and> (\<forall>d \<in> set delays. 0 < d)"
proof -
  note w = protectionForNode_winner [OF assms(1,2)] and k = protectionForNode_pick [OF assms(1,2)]
  let ?ds = "map (\<lambda>i. pdRequeueAfter (decidePolicy l p pt i now)) (liveItems nm items)"
  have same: "set ?ds = set delays" by (auto simp: delays_def)
  have pos: "\<forall>d \<in> set ?ds. 0 < d" using requeue_bounds(1) [OF assms(3,4)] by auto
  have "prRequeueAfter pr = (if delays = [] then 0 else Min (set delays))"
    unfolding k(3) foldl_minWait_Min [OF pos] same [symmetric] using same by (metis set_empty)
  moreover have "prCount pr = int (length (filter (liveFor nm) items))"
    using k(2) length_liveItems by simp
  ultimately show ?thesis using w pos unfolding same by blast
qed

lemma strongest_enrollment_wins_witness:
  "let idle = sampleActivity ''a'' [] (sampleStatus StateIdle ActivityIdle sampleNow);
       game = sampleActivity ''b'' [] (sampleStatus StateActive ActivityGame sampleNow)
   in \<forall>pr. protectionForNode sampleLib samplePolicy (\<lambda>_. None) (\<lambda>_. Inr [idle, game] :: unit + NodeActivity list) ''node-a'' sampleNow = Inr pr \<longrightarrow>
        prCount pr = 2 \<and> 0 < prRequeueAfter pr"
proof -
  let ?idle = "sampleActivity ''a'' [] (sampleStatus StateIdle ActivityIdle sampleNow)"
  let ?game = "sampleActivity ''b'' [] (sampleStatus StateActive ActivityGame sampleNow)"
  have live: "liveFor ''node-a'' ?idle" "liveFor ''node-a'' ?game"
    by (simp_all add: liveFor_def sample_defs deletionIsZero_def)
  have now: "0 < sampleNow" by (simp add: sample_times)
  show ?thesis
    unfolding Let_def
  proof (intro allI impI)
    fix pr
    assume "protectionForNode sampleLib samplePolicy (\<lambda>_. None) (\<lambda>_. Inr [?idle, ?game] :: unit + NodeActivity list)
        ''node-a'' sampleNow = Inr pr"
    from strongest_enrollment_wins [OF refl this samplePolicy_ok now]
    show "prCount pr = 2 \<and> 0 < prRequeueAfter pr" using live by auto
  qed
qed

text \<open>
  The order in which the API server lists the enrollments does not matter: listing them in another order, each
  under its own name, gives the same protection.
\<close>
theorem enrollment_order_free:
  assumes "mset items = mset items'" "distinct (map enrollmentKey items)"
  shows "protectionForNode l p pt (\<lambda>_. Inr items) nm now = protectionForNode l p pt (\<lambda>_. Inr items') nm now"
  using sort_key_permuted [OF assms] by (simp add: protectionForNode_def)

lemma enrollment_order_free_witness:
  "protectionForNode sampleLib samplePolicy (\<lambda>_. None)
     (\<lambda>_. Inr [sampleActivity ''a'' [] (sampleStatus StateIdle ActivityIdle sampleNow), sampleGame\<lparr>naName := ''b''\<rparr>]) ''node-a'' sampleNow =
   protectionForNode sampleLib samplePolicy (\<lambda>_. None)
     (\<lambda>_. Inr [sampleGame\<lparr>naName := ''b''\<rparr>, sampleActivity ''a'' [] (sampleStatus StateIdle ActivityIdle sampleNow)]) ''node-a'' sampleNow"
  by (rule enrollment_order_free) (simp_all add: enrollmentKey_def sampleGame_def sample_defs add_mset_commute)

section \<open>The node\<close>

text \<open>
  C14: Protecting a node leaves it with the wanted taints and label and everything else as it was: the taints of other
  owners in order, then the primary taint if one is desired, then, if a burst key is configured and the node is fenced, the
  burst taint; without a burst key only the primary key is owned.  The schedulable label is set exactly when the node is
  admitted, and no other label or the name changes.  The primary key is not empty, differs from the burst key and is the
  key of the desired taint (\<open>keysOk\<close>), as validation and the decision make sure.
\<close>
theorem protected_node:
  assumes "keysOk p desired"
  shows "nodeTaints (snd (applyProtection p admitted desired fenced node)) =
      filter (\<lambda>t. tKey t \<noteq> polKey p \<and> (polBurstTaintKey p = '''' \<or> tKey t \<noteq> polBurstTaintKey p)) (nodeTaints node) @
      (case desired of None \<Rightarrow> [] | Some t \<Rightarrow> [t]) @
      (if fenced \<and> polBurstTaintKey p \<noteq> '''' then [mkTaint (polBurstTaintKey p) (polFailClosedValue p) NoSchedule] else []) \<and>
    nodeLabels (snd (applyProtection p admitted desired fenced node)) =
      (nodeLabels node)(SchedulableNodeLabel := (if admitted then Some ''true'' else None)) \<and>
    nodeName (snd (applyProtection p admitted desired fenced node)) = nodeName node"
  using fencedTaints_all [OF assms]
  by (simp add: applyProtection_node labelled_def burstFence_def foreign_def [abs_def])

lemma protected_node_witness:
  "nodeTaints (snd (applyProtection samplePolicy False (Some (activeTaint samplePolicy)) True
     (sampleNode [mkTaint ''node/burst'' ''old'' NoExecute, mkTaint ''other'' '''' NoSchedule]))) =
   [mkTaint ''other'' '''' NoSchedule, activeTaint samplePolicy, mkTaint ''node/burst'' ''unknown'' NoSchedule] \<and>
   nodeTaints (snd (applyProtection (samplePolicy\<lparr>polBurstTaintKey := ''''\<rparr>) False None True
     (sampleNode [mkTaint ''node/burst'' ''old'' NoExecute, mkTaint ''node/state'' ''active'' NoSchedule]))) =
   [mkTaint ''node/burst'' ''old'' NoExecute]"
  using protected_node [of samplePolicy "Some (activeTaint samplePolicy)" False True
      "sampleNode [mkTaint ''node/burst'' ''old'' NoExecute, mkTaint ''other'' '''' NoSchedule]"]
    protected_node [of "samplePolicy\<lparr>polBurstTaintKey := ''''\<rparr>" None False True
      "sampleNode [mkTaint ''node/burst'' ''old'' NoExecute, mkTaint ''node/state'' ''active'' NoSchedule]"]
  by (simp add: keysOk_def samplePolicy_def activeTaint_def sampleNode_def)

text \<open>
  The update flag is exact but for one case: a pass asks for an update exactly when the node changed, or when a
  burst key is configured and both taints are wanted; then each taint is moved to the end in turn, and the node
  is written on every pass although it already is as wanted.
\<close>
theorem update_flag:
  assumes "keysOk p desired"
  shows "fst (applyProtection p admitted desired fenced node) \<longleftrightarrow>
           snd (applyProtection p admitted desired fenced node) \<noteq> node \<or>
           (polBurstTaintKey p \<noteq> '''' \<and> desired \<noteq> None \<and> fenced)"
  using assms by (rule applyProtection_flag)

lemma update_flag_witness:
  "let node = snd (applyProtection samplePolicy False (Some (activeTaint samplePolicy)) True (sampleNode []))
   in fst (applyProtection samplePolicy False (Some (activeTaint samplePolicy)) True node) \<and>
      snd (applyProtection samplePolicy False (Some (activeTaint samplePolicy)) True node) = node"
proof -
  have k: "keysOk samplePolicy (Some (activeTaint samplePolicy))"
    by (simp add: keysOk_def samplePolicy_def activeTaint_def)
  have "polBurstTaintKey samplePolicy \<noteq> ''''" by (simp add: samplePolicy_def)
  then show ?thesis
    using update_flag [OF k, of False True] fencedTaints_idem [OF k]
    by (simp add: Let_def applyProtection_node sampleNode_def)
qed

text \<open>
  The watch misses nothing it should see: an update of a Node that does not enqueue its enrollments changed neither
  the value of the schedulable label nor the presence of any taint under the controller's keys.
\<close>
theorem ignored_update_harmless:
  assumes "\<not> nodeOwnedFieldsChanged p (NodeUpdated old new)" "k \<noteq> ''''" "k = polKey p \<or> k = polBurstTaintKey p"
  shows "(hasTaint new k v e \<longleftrightarrow> hasTaint old k v e) \<and> schedulableLabelValue new = schedulableLabelValue old"
  using unwatched_update [OF assms] by blast

lemma ignored_update_harmless_witness:
  "hasTaint (sampleNode [activeTaint samplePolicy, mkTaint ''x'' '''' NoExecute]) ''node/state'' ''active'' NoSchedule"
proof -
  have "\<not> nodeOwnedFieldsChanged samplePolicy (NodeUpdated (sampleNode [mkTaint ''x'' ''1'' NoExecute, activeTaint samplePolicy])
      (sampleNode [activeTaint samplePolicy, mkTaint ''x'' '''' NoExecute]))" by code_simp
  from ignored_update_harmless [OF this, of "''node/state''" "''active''" NoSchedule] show ?thesis
    by (simp add: samplePolicy_def) (simp add: hasTaint_def sampleNode_def activeTaint_def)
qed

section \<open>Budgets and retries\<close>

text \<open>
  C30: A refill earns exactly the tokens of the elapsed time: their number, computed in whole intervals and a rest, is the
  floor of elapsed time times count over interval, up to the room left, while that room times the count fits in 64 bits.
\<close>
theorem tokensEarned_is_floor:
  assumes "0 < n" "0 < interval" "0 < limit" "0 \<le> elapsed" "limit * n + n \<le> maxInt64"
  shows "tokensEarned elapsed n interval limit = min (elapsed * n div interval) limit"
  using assms by (rule tokensEarned_exact)

lemma tokensEarned_is_floor_witness:
  "tokensEarned 150000000000 7 60000000000 100 = 17"
  using tokensEarned_is_floor [of 7 60000000000 100 150000000000] by (simp add: maxInt64_def)

text \<open>
  C29: The wait of a refused token is exact: after any calls in time order, a refused call is granted when it is
  made again d later if and only if d is at least the wait it was given, which is positive.
\<close>
theorem refused_wait_exact:
  assumes p: "policyBudgetsOk policy" and t: "0 < t0" "t0 \<le> now" and d: "1 \<le> d"
    and h: "horizonOk policy (now - t0)" "horizonOk policy (now + d - t0)"
    and cs: "sorted (map takeAt cs)" "\<forall>c \<in> set cs. t0 \<le> takeAt c \<and> takeAt c \<le> now"
    and refused: "tryTake lossy node now policy (historyOf policy cs) = (False, w, b)"
  shows "1 \<le> w \<and> (fst (tryTake lossy node (now + d) policy b) \<longleftrightarrow> w \<le> d)"
  using tryTake_wait [OF p historyOf_onTime [OF p t h(1) cs] t h(2) d refused] by blast

lemma refused_wait_exact_witness:
  "\<exists>w b. tryTake False ''n'' 5000000000 (normalized sampleEviction)
       (historyOf (normalized sampleEviction) [(False, ''n'', 1000000000), (False, ''n'', 2000000000)]) = (False, w, b) \<and>
     w = 26000000000 \<and> fst (tryTake False ''n'' 31000000000 (normalized sampleEviction) b)"
proof -
  let ?p = "normalized sampleEviction" and ?cs = "[(False, ''n'', 1000000000), (False, ''n'', 2000000000)]"
  have e: "fst (tryTake False ''n'' 5000000000 ?p (historyOf ?p ?cs)) = False"
    "fst (snd (tryTake False ''n'' 5000000000 ?p (historyOf ?p ?cs))) = 26000000000" by code_simp+
  have i: "ebInterval (budgetOf ?p True) = 60000000000" "ebInterval (budgetOf ?p False) = 60000000000" by code_simp+
  obtain w b where r: "tryTake False ''n'' 5000000000 ?p (historyOf ?p ?cs) = (False, w, b)"
    using e(1) by (cases "tryTake False ''n'' 5000000000 ?p (historyOf ?p ?cs)") auto
  have h: "horizonOk ?p x" if "x \<le> 100000000000" for x
    using i that by (auto simp: horizonOk_def maxInt64_def all_bool_eq)
  have "1 \<le> w \<and> (fst (tryTake False ''n'' (5000000000 + 26000000000) ?p b) \<longleftrightarrow> w \<le> 26000000000)"
    by (rule refused_wait_exact [OF sampleEviction_budgets _ _ _ h h _ _ r, of 1]) (simp_all add: takeAt_def)
  then show ?thesis using r e by auto
qed

text \<open>
  C31: A blocked Pod waits at least the backoff and what the server asked for, and at most that and the jitter: the delay
  lies between the floor and the floor plus the capped jitter, and is positive.
\<close>
theorem blocked_delay_bounds:
  assumes "retryFloor (normalized e) err + jitterCap (normalized e) \<le> maxInt64"
  shows "retryFloor (normalized e) err \<le> blockedRetryDelay key (normalized e) err \<and>
    blockedRetryDelay key (normalized e) err \<le> retryFloor (normalized e) err + jitterCap (normalized e) \<and>
    0 < blockedRetryDelay key (normalized e) err"
  using blockedRetryDelay_bounds [OF normalized_facts(3) assms] by blast

lemma blocked_delay_bounds_witness:
  "45 * second \<le> blockedRetryDelay (retryKey ''n'' (samplePod ''p'')) (normalized sampleEviction)
     \<lparr>errTooManyRequests = True, errConflict = False, errNotFound = False, errClientDelay = Some 45\<rparr>"
proof -
  let ?err = "\<lparr>errTooManyRequests = True, errConflict = False, errNotFound = False, errClientDelay = Some 45\<rparr>"
  have "retryFloor (normalized sampleEviction) ?err = 45 * second" "jitterCap (normalized sampleEviction) = 5 * second"
    by code_simp+
  then show ?thesis
    using blocked_delay_bounds [of sampleEviction ?err "retryKey ''n'' (samplePod ''p'')"]
    by (simp add: second_def maxInt64_def)
qed

section \<open>Eviction\<close>

text \<open>
  C27: A Pod is eligible exactly when it passes every safety gate: opted in, not in a protected namespace, not
  terminating, not static, owned and not by a DaemonSet, not pinned, below system priority, not finished, free to go
  to another node unless it allows lossy eviction, and with no volume that would lose data or bind it.
\<close>
theorem eligible_iff_safe:
  "fst (evictionDecision getPVC getPV pod policy) \<longleftrightarrow> podSafe getPVC getPV pod policy"
  by (rule evictionDecision_iff)

text \<open>
  C28: The summary of a pass adds up.  Its attempts are the calls made and its evictions those of them that the Eviction API
  accepted, each judged after the calls before it.  Of the Pods of the node that the class permits, each is counted once, as
  audited, evicted, blocked or skipped: all that pass the gates are audited when eviction is only audited, disabled or
  without a client, and none otherwise; the skipped ones that do not wait for the budget are those that fail a gate and no
  others but Pods without an identity.  A pass that left a Pod blocked or waiting for budget asks to run again.
\<close>
theorem summary_adds_up:
  assumes "delaysOk (erEvictor r) (normalized eviction)" "fst (runEviction p eviction r s) = Inr m"
  defines "seen \<equiv> consideredPods p eviction r" and "safe \<equiv> \<lambda>q. podSafe (erPVC r) (erPV r) q (normalized eviction)"
  shows "(\<exists>calls. esCalls (snd (runEviction p eviction r s)) = esCalls s @ calls \<and> smAttempted m = int (length calls) \<and>
      smEvicted m = (case erEvictor r of None \<Rightarrow> 0 | Some evict \<Rightarrow> acceptedCalls evict (esCalls s) calls)) \<and>
    0 \<le> smEvicted m \<and> smEvicted m \<le> smAttempted m \<and> smAttempted m \<le> smEvicted m + smBlocked m \<and>
    smAudited m = (if epAudit eviction \<or> \<not> epEnabled eviction \<or> erEvictor r = None then countPods safe seen else 0) \<and>
    smAudited m + smEvicted m + smBlocked m + smSkipped m = int (length seen) \<and>
    0 \<le> smDeferred m \<and> countPods (\<lambda>q. \<not> safe q) seen \<le> smSkipped m - smDeferred m \<and>
    smSkipped m - smDeferred m \<le> countPods (\<lambda>q. \<not> safe q) seen + countPods (\<lambda>q. safe q \<and> anonymous q) seen \<and>
    (smOutcome m = ''blocked'' \<or> smOutcome m = ''budget-waiting'' \<longrightarrow> 0 < smRequeueAfter m)"
  using runEviction_tally [OF assms(2)] runEviction_summary [OF assms(1,2)] unfolding seen_def safe_def by blast

lemma summary_adds_up_witness:
  "let r = runEviction samplePolicy sampleEviction (sampleRun sampleGame) processStart
   in smAttempted (projr (fst r)) = 2 \<and> length (esCalls (snd r)) = 2"
proof -
  let ?r = "runEviction samplePolicy sampleEviction (sampleRun sampleGame) processStart"
  have e: "isl (fst ?r) = False" "length (esCalls (snd ?r)) = 2" by code_simp+
  obtain m where m: "fst ?r = Inr m" using e(1) by (cases "fst ?r") auto
  have "delaysOk (erEvictor (sampleRun sampleGame)) (normalized sampleEviction)"
    using normalized_facts(3) [of sampleEviction] by (simp add: delaysOk_def sampleRun_def)
  from summary_adds_up [OF this m] show ?thesis using m e by simp
qed

section \<open>The pass\<close>

text \<open>A world for the instances: one enrollment, its node, and an API server that stores what it is sent.\<close>

definition sampleWorld :: "NodeActivity \<Rightarrow> Node \<Rightarrow> unit world" where
  "sampleWorld a node =
     \<lparr>wClock = (\<lambda>_. sampleNow), wGetActivity = Found a,
      wGetNode = (\<lambda>nm. if nm = nodeName node then Found node else NotFound),
      wList = (\<lambda>_. Inr [a]), wPods = (\<lambda>_. Inr [samplePod ''p'']), wPVC = (\<lambda>_. None), wPV = (\<lambda>_. None),
      wPatch = (\<lambda>_ k. case k of PatchObject b \<Rightarrow> Inr b | PatchStatus b \<Rightarrow> Inr b | UpdateNode _ \<Rightarrow> Inl ()),
      wUpdate = (\<lambda>_ n. Inr n), wLib = sampleLib, wParseTime = (\<lambda>_. None), wFormatTime = (\<lambda>_. ''now''),
      wQualified = (\<lambda>_. []),
      wSetCondition = (\<lambda>cs c. filter (\<lambda>x. cType x \<noteq> cType c) cs @ [c]),
      wFindCondition = (\<lambda>cs k. find (\<lambda>x. cType x = k) cs),
      wHasFinalizer = (\<lambda>fs f. f \<in> set fs), wAddFinalizer = (\<lambda>fs f. fs @ [f]),
      wRemoveFinalizer = (\<lambda>fs f. filter (\<lambda>x. x \<noteq> f) fs)\<rparr>"

definition sampleReconciler :: reconciler where
  "sampleReconciler =
     \<lparr>rrPolicy = samplePolicy, rrEviction = sampleEviction, rrEvictor = Some (\<lambda>_ _. None)\<rparr>"

definition samplePass :: "NodeActivity \<Rightarrow> passState" where
  "samplePass a =
     \<lparr>psClock = 0, psActivity = a, psWrites = [], psMetrics = resetMetrics, psEvict = processStart\<rparr>"

lemma sampleReconciler_accepted: "accepted (sampleWorld a node) sampleReconciler"
  unfolding accepted_def sampleWorld_def sampleReconciler_def by code_simp

text \<open>The decision on the sample enrollment, and what it asks for.\<close>

definition sampleProtection :: enrollmentProtection where
  "sampleProtection =
     (case protectionForNode sampleLib samplePolicy (\<lambda>_. None) (\<lambda>_. Inr [sampleGame] :: unit + NodeActivity list)
             ''node-a'' sampleNow of Inr pr \<Rightarrow> pr)"

lemma sampleProtection_eval:
  "protectionForNode sampleLib samplePolicy (\<lambda>_. None) (\<lambda>_. Inr [sampleGame] :: unit + NodeActivity list) ''node-a'' sampleNow
     = Inr sampleProtection"
  by (simp add: sampleProtection_def protectionForNode_def Let_def)

lemma sampleProtection_facts:
  "prCount sampleProtection = 1"
  "prTaint sampleProtection = Some (mkTaint ''node/state'' ''active'' NoSchedule)"
  "\<not> policyAdmitted samplePolicy sampleProtection sampleNow"
  by code_simp+

lemma sampleWorld_facts:
  "wGetActivity (sampleWorld a node) = Found a" "obliging (sampleWorld a node)" "timely (sampleWorld a node)"
  "accepted (sampleWorld a node) sampleReconciler"
  "wGetNode (sampleWorld a node) (nodeName node) = Found node" "wList (sampleWorld a node) nm = Inr [a]"
  "wClock (sampleWorld a node) k = sampleNow"
proof -
  show "timely (sampleWorld a node)" by (simp add: timely_def sampleWorld_def sampleNow_def hour_def second_def)
qed (simp_all add: sampleWorld_def obliging_def sampleReconciler_accepted [unfolded sampleWorld_def])

lemma sampleGame_facts:
  "deletionIsZero sampleGame" "specNodeName (naSpec sampleGame) = ''node-a''" "trimSpace ''node-a'' \<noteq> ''''"
  "liveFor ''node-a'' sampleGame" "holdOk sampleGame"
proof -
  show "holdOk sampleGame" by (simp add: holdOk_def sampleGame_def sample_defs mapGet_def)
qed code_simp+

lemma nodeWrites_member: "nodeWrites ws \<noteq> [] \<Longrightarrow> \<exists>n. UpdateNode n \<in> set ws"
  by (induction ws) (auto simp: nodeWrites_def List.map_filter_simps split: apiWrite.splits)

lemma sampleGame_run:
  "\<exists>d s'. Reconcile (sampleWorld sampleGame (sampleNode [])) sampleReconciler (samplePass sampleGame) = (Inr d, s') \<and>
     nodeWrites (psWrites s') = writtenNode samplePolicy False (Some (mkTaint ''node/state'' ''active'' NoSchedule)) (sampleNode []) \<and>
     psEvict s' = snd (reconcileEvictions samplePolicy sampleEviction (\<lambda>_. None) (\<lambda>_. None)
       (\<lambda>_. Inr [samplePod ''p''] :: unit + Pod list) (Some (\<lambda>_ _. None))
       sampleNow sampleGame (snd (applyProtection samplePolicy False (Some (mkTaint ''node/state'' ''active'' NoSchedule)) True
         (sampleNode []))) (Some (mkTaint ''node/state'' ''active'' NoSchedule)) processStart)"
proof -
  let ?w = "sampleWorld sampleGame (sampleNode [])"
  note g = sampleGame_facts and f = sampleWorld_facts [where a = sampleGame and node = "sampleNode []"]
  have "wGetNode ?w (specNodeName (naSpec sampleGame)) = Found (sampleNode [])"
    using f(5) unfolding g(2) by (simp add: sampleNode_def)
  moreover have "protectionForNode (wLib ?w) (rrPolicy sampleReconciler) (wParseTime ?w) (wList ?w)
      (specNodeName (naSpec sampleGame)) (wClock ?w (psClock (samplePass sampleGame))) = Inr sampleProtection"
    using sampleProtection_eval by (simp add: g(2) sampleWorld_def sampleReconciler_def)
  ultimately show ?thesis
    using Reconcile_effect [of ?w sampleGame sampleReconciler "samplePass sampleGame" sampleProtection "sampleNode []",
        OF f(1) g(1) _ g(5) f(2,4)] g(2,3) sampleProtection_facts
    by (simp add: sampleReconciler_def samplePass_def sampleWorld_def)
qed

text \<open>
  C17: The gauges stay truthful: after any passes of any controllers in any worlds from fresh metrics, each of the five
  labelled gauges (activity, taint, admission, eviction outcome and blocked eviction) has at most one series for a node, the
  blocked gauge has one exactly while the outcome is blocked, and no node is exported schedulable while a managed taint is
  exported for it.
\<close>
theorem gauges_stay_truthful:
  fixes passes :: "('e world \<times> reconciler) list"
  defines "m \<equiv> \<lambda>s. psMetrics (fold (\<lambda>(w, r) s. snd (Reconcile w r s)) passes (s\<lparr>psMetrics := resetMetrics\<rparr>))"
  shows "\<not> (svGauge (mActivity (m s)) (node, l1) \<noteq> None \<and> svGauge (mActivity (m s)) (node, l2) \<noteq> None \<and> l1 \<noteq> l2) \<and>
    \<not> (svGauge (mTaint (m s)) (node, t1) \<noteq> None \<and> svGauge (mTaint (m s)) (node, t2) \<noteq> None \<and> t1 \<noteq> t2) \<and>
    \<not> (svGauge (mAdmission (m s)) (node, r1) \<noteq> None \<and> svGauge (mAdmission (m s)) (node, r2) \<noteq> None \<and> r1 \<noteq> r2) \<and>
    \<not> (svGauge (mEvictionOutcome (m s)) (node, o1) \<noteq> None \<and> svGauge (mEvictionOutcome (m s)) (node, o2) \<noteq> None \<and> o1 \<noteq> o2) \<and>
    \<not> (svGauge (mEvictionBlocked (m s)) (node, b1) \<noteq> None \<and> svGauge (mEvictionBlocked (m s)) (node, b2) \<noteq> None \<and> b1 \<noteq> b2) \<and>
    (\<exists>b. svGauge (mEvictionBlocked (m s)) (node, b) \<noteq> None) = (svGauge (mEvictionOutcome (m s)) (node, ''blocked'') \<noteq> None) \<and>
    \<not> (mSchedulable (m s) node = Some 1 \<and> svGauge (mTaint (m s)) (node, t1) \<noteq> None)"
proof -
  have "metricsOk (psMetrics s') \<Longrightarrow> metricsOk (psMetrics (fold (\<lambda>(w, r) s. snd (Reconcile w r s)) passes s'))" for s'
  proof (induction passes arbitrary: s')
    case (Cons x xs)
    obtain w r where x: "x = (w, r)" by (cases x)
    from keepsD [OF gauges_ok.reconciling Cons.prems, of w r] show ?case
      using Cons.IH x by simp
  qed simp
  then have ok: "metricsOk (m s)" unfolding m_def by simp
  have t: "tracked (mActivity (m s))" "tracked (mTaint (m s))" "tracked (mAdmission (m s))" "tracked (mEvictionOutcome (m s))"
    "tracked (mEvictionBlocked (m s))"
    using ok by (simp_all add: metricsOk_def blockersOk_def)
  have gauge: "svGauge v (n, l) \<noteq> None \<longleftrightarrow> svLast v n = Some l" if "tracked v" for v :: "'b labelSeries" and n l
    using that by (simp add: tracked_def)
  have b: "(\<exists>b. svLast (mEvictionBlocked (m s)) node = Some b) \<longleftrightarrow> svLast (mEvictionOutcome (m s)) node = Some ''blocked''"
    "mSchedulable (m s) node = Some 1 \<Longrightarrow> svLast (mTaint (m s)) node = None"
    using ok by (simp_all add: metricsOk_def)
  show ?thesis
    using tracked_one [OF t(1)] tracked_one [OF t(2)] tracked_one [OF t(3)] tracked_one [OF t(4)] tracked_one [OF t(5)] b
      gauge [OF t(2)] gauge [OF t(4)] gauge [OF t(5)]
    by (intro conjI) (blast | simp)+
qed

text \<open>
  A node that is no longer managed leaves nothing behind: after its gauges are cleared no series of any
  gauge carries its name.
\<close>
theorem cleared_node_exports_nothing:
  assumes "metricsOk m" "trimSpace node \<noteq> []"
  shows "\<not> exported (trimSpace node) (clearNodeMetrics node m)"
  using assms by (rule clear_exported)

lemma cleared_node_exports_nothing_witness:
  "\<not> exported ''n'' (clearNodeMetrics '' n'' (observeActivityAndTaint ''n'' StateIdle ActivityIdle None True resetMetrics))"
proof -
  have t: "trimSpace '' n'' = ''n''" by code_simp
  show ?thesis
    using cleared_node_exports_nothing [of "observeActivityAndTaint ''n'' StateIdle ActivityIdle None True resetMetrics" "'' n''"] t
    by simp
qed

text \<open>
  C15: The controller writes only what it owns: every Node a pass sends to the API server is the Node that was read with
  its name, every other label and every taint of another owner unchanged, in order.
\<close>
theorem node_writes_owned:
  assumes "\<forall>n. 0 < wClock w n" "psWrites s = []"
    and "UpdateNode n \<in> set (psWrites (snd (Reconcile w r s)))"
  shows "\<exists>nm node. wGetNode w nm = Found node \<and> nodeName n = nodeName node \<and>
    filter (\<lambda>t. tKey t \<noteq> polKey (rrPolicy r) \<and>
        (polBurstTaintKey (rrPolicy r) = '''' \<or> tKey t \<noteq> polBurstTaintKey (rrPolicy r))) (nodeTaints n) =
    filter (\<lambda>t. tKey t \<noteq> polKey (rrPolicy r) \<and>
        (polBurstTaintKey (rrPolicy r) = '''' \<or> tKey t \<noteq> polBurstTaintKey (rrPolicy r))) (nodeTaints node) \<and>
    (\<forall>k. k \<noteq> SchedulableNodeLabel \<longrightarrow> nodeLabels n k = nodeLabels node k)"
proof -
  have "timely w" using assms(1) by (simp add: timely_def)
  then have "list_all (ownedWrite w r) (psWrites (snd (Reconcile w r s)))"
    using keepsD [OF writes_owned.reconciling [of w r], of s] assms(2) by simp
  then have "ownedWrite w r (UpdateNode n)" using assms(3) by (auto simp: list_all_iff)
  then show ?thesis unfolding ownedWrite_def foreign_def [abs_def] by blast
qed

lemma node_writes_owned_witness:
  "\<exists>n. UpdateNode n \<in> set (psWrites (snd (Reconcile (sampleWorld sampleGame (sampleNode []))
      sampleReconciler (samplePass sampleGame)))) \<and> nodeName n = ''node-a''"
proof -
  let ?w = "sampleWorld sampleGame (sampleNode [])" and ?s = "samplePass sampleGame"
  obtain d s' where run: "Reconcile ?w sampleReconciler ?s = (Inr d, s')"
    "nodeWrites (psWrites s') = writtenNode samplePolicy False (Some (mkTaint ''node/state'' ''active'' NoSchedule)) (sampleNode [])"
    using sampleGame_run by blast
  have "writtenNode samplePolicy False (Some (mkTaint ''node/state'' ''active'' NoSchedule)) (sampleNode []) \<noteq> []" by code_simp
  then obtain n where n: "UpdateNode n \<in> set (psWrites (snd (Reconcile ?w sampleReconciler ?s)))"
    using run nodeWrites_member by fastforce
  have "nodeName n = ''node-a''"
    using node_writes_owned [OF _ _ n] sampleWorld_facts(3) [unfolded timely_def]
    by (fastforce simp: samplePass_def sampleWorld_def sampleNode_def split: if_splits)
  with n show ?thesis by blast
qed



text \<open>
  C18: A pass over a live enrollment always comes back: with an accepted policy, a hold that is absent or positive, a node that
  exists or does not, and an API server that stores what it is sent, it ends without error and asks to run again after a
  positive delay of at most the stale interval and the skew.
\<close>
theorem pass_requeues:
  assumes "wGetActivity w = Found a" "deletionIsZero a" "trimSpace (specNodeName (naSpec a)) \<noteq> ''''" "holdOk a"
    and "obliging w" "timely w" and "accepted w r" "policyOk (rrPolicy r)"
    and "wList w (specNodeName (naSpec a)) = Inr items" "\<exists>i \<in> set items. liveFor (specNodeName (naSpec a)) i"
    and "\<forall>err. wGetNode w (specNodeName (naSpec a)) \<noteq> Failed err"
  shows "\<exists>d s'. Reconcile w r s = (Inr d, s') \<and> 0 < d \<and>
    d \<le> polStaleAfter (rrPolicy r) + effectiveHeartbeatSkew (rrPolicy r)"
  using assms by (rule Reconcile_requeues)

lemma pass_requeues_witness:
  "\<exists>d s'. Reconcile (sampleWorld sampleGame (sampleNode [])) sampleReconciler (samplePass sampleGame) = (Inr d, s') \<and> 0 < d"
proof -
  let ?w = "sampleWorld sampleGame (sampleNode [])"
  note g = sampleGame_facts and f = sampleWorld_facts [where a = sampleGame and node = "sampleNode []"]
  have "wGetNode ?w (specNodeName (naSpec sampleGame)) = Found (sampleNode [])"
    using f(5) unfolding g(2) by (simp add: sampleNode_def)
  then have n: "\<forall>err. wGetNode ?w (specNodeName (naSpec sampleGame)) \<noteq> Failed err" by simp
  have l: "\<exists>i \<in> set [sampleGame]. liveFor (specNodeName (naSpec sampleGame)) i" using g(2,4) by simp
  have t: "trimSpace (specNodeName (naSpec sampleGame)) \<noteq> ''''" using g(2,3) by simp
  have p: "policyOk (rrPolicy sampleReconciler)" using samplePolicy_ok by (simp add: sampleReconciler_def)
  show ?thesis
    using pass_requeues [OF f(1) g(1) t g(5) f(2,3,4) p f(6) l n] by blast
qed

text \<open>
  C8: A whole pass does what the decisions say and nothing else: over one live enrollment, with an API server that stores what
  it is sent, it writes the Node at most once, exactly as the label and taint rules leave it for the admission verdict and
  the desired taint of the protection, and its evictions, calls and budgets are those of the eviction pass on that Node; the
  statuses, finalizer, holds and gauges it writes on the way change none of it.
\<close>
theorem pass_does_the_plan:
  assumes "wGetActivity w = Found a" "deletionIsZero a" "trimSpace (specNodeName (naSpec a)) \<noteq> ''''" "holdOk a"
    and "obliging w" "accepted w r"
    and "protectionForNode (wLib w) (rrPolicy r) (wParseTime w) (wList w) (specNodeName (naSpec a))
       (wClock w (psClock s)) = Inr pr" "prCount pr = 1"
    and "wGetNode w (specNodeName (naSpec a)) = Found node"
  defines "admitted \<equiv> policyAdmitted (rrPolicy r) pr (wClock w (psClock s))"
  shows "\<exists>d k s'. Reconcile w r s = (Inr d, s') \<and>
    nodeWrites (psWrites s') = nodeWrites (psWrites s) @ writtenNode (rrPolicy r) admitted (prTaint pr) node \<and>
    psEvict s' = snd (reconcileEvictions (rrPolicy r) (rrEviction r) (wPVC w) (wPV w) (wPods w) (rrEvictor r)
      (wClock w k) a (snd (applyProtection (rrPolicy r) admitted (prTaint pr) (\<not> admitted) node))
      (prTaint pr) (psEvict s))"
  unfolding admitted_def using assms(1-9) by (rule Reconcile_effect)

lemma pass_does_the_plan_witness:
  "\<exists>d s'. Reconcile (sampleWorld sampleGame (sampleNode [])) sampleReconciler (samplePass sampleGame) = (Inr d, s') \<and>
     length (nodeWrites (psWrites s')) = 1"
proof -
  let ?w = "sampleWorld sampleGame (sampleNode [])"
  note g = sampleGame_facts and f = sampleWorld_facts [where a = sampleGame and node = "sampleNode []"]
  have n: "wGetNode ?w (specNodeName (naSpec sampleGame)) = Found (sampleNode [])"
    using f(5) unfolding g(2) by (simp add: sampleNode_def)
  have p: "protectionForNode (wLib ?w) (rrPolicy sampleReconciler) (wParseTime ?w) (wList ?w)
      (specNodeName (naSpec sampleGame)) (wClock ?w (psClock (samplePass sampleGame))) = Inr sampleProtection"
    using sampleProtection_eval by (simp add: g(2) sampleWorld_def sampleReconciler_def)
  have t: "trimSpace (specNodeName (naSpec sampleGame)) \<noteq> ''''" using g(2,3) by simp
  have one: "length (writtenNode samplePolicy False (Some (mkTaint ''node/state'' ''active'' NoSchedule)) (sampleNode [])) = 1"
    by code_simp
  show ?thesis
    using pass_does_the_plan [OF f(1) g(1) t g(5) f(2,4) p sampleProtection_facts(1) n] sampleProtection_facts(2,3) one
    by (fastforce simp: f(7) sampleReconciler_def samplePass_def)
qed

end
