(* ===== verification/EndToEnd.thy ===== *)
theory EndToEnd
  imports HostProperties ControllerProperties
begin

text \<open>
  The two processes together: what the reporter samples on the host reaches the Node by way of the
  status of the enrollment.  The reporter and the controller share nothing but that object; the link
  between them is that the enrollment the controller reads carries the last status the reporter sent.
\<close>

section \<open>The enrollment carries the last report\<close>

text \<open>The fields of the status that the reporter writes and the controller's decision reads.\<close>

definition carries :: "NodeActivityStatus \<Rightarrow> NodeActivity \<Rightarrow> bool" where
  "carries reported a \<longleftrightarrow>
     stState (naStatus a) = stState reported \<and> stActivity (naStatus a) = stActivity reported \<and>
     stHeartbeatAt (naStatus a) = stHeartbeatAt reported"

definition lastReported :: "duration \<Rightarrow> duration \<Rightarrow> DebounceSamples \<Rightarrow> tick list \<Rightarrow> NodeActivityStatus" where
  "lastReported heartbeat staleAfter ds ticks =
     last (lsReported (runLoop heartbeat ticks (loopStart (New staleAfter ds))))"

text \<open>The activity of the host, from the history of its samples.\<close>

definition sampledActivity :: "DebounceSamples \<Rightarrow> tick list \<Rightarrow> Activity" where
  "sampledActivity ds ticks = specActivity ds (historyOfSamples (map (\<lambda>k. (tkObservations k, tkNow k)) ticks))"

text \<open>What a running reporter can rely on: its clock does not go back, and its settings are valid.\<close>

definition reporterOk :: "duration \<Rightarrow> DebounceSamples \<Rightarrow> tick list \<Rightarrow> bool" where
  "reporterOk heartbeat ds ticks \<longleftrightarrow>
     samplesOk ds \<and> ascendingTicks 0 ticks \<and> (\<forall>x \<in> set ticks. 0 < tkNow x) \<and>
     int (length ticks) \<le> maxInt64 \<and> 0 < heartbeat \<and> int64 heartbeat"

lemma specState_activity:
  "specActivity ds h = ActivityGame \<or> specActivity ds h = ActivityInteractive \<Longrightarrow> specState staleAfter ds h = StateActive"
  "specActivity ds h = ActivityIdle \<Longrightarrow> specState staleAfter ds h = StateIdle"
  "specActivity ds h = ActivityUnknown \<Longrightarrow> specState staleAfter ds h \<noteq> StateIdle \<and> specState staleAfter ds h \<noteq> StateActive"
  by (auto simp: specActivity_def specState_def stateFor_def split: if_splits)

text \<open>The last report has the state and the activity of the history, and its heartbeat is recent.\<close>

lemma lastReported_history:
  fixes staleAfter :: duration
  assumes "reporterOk heartbeat ds (ticks @ [k])" "\<forall>st. tkReport k st = None"
  defines "h \<equiv> historyOfSamples (map (\<lambda>k. (tkObservations k, tkNow k)) (ticks @ [k]))"
    and "reported \<equiv> lastReported heartbeat staleAfter ds (ticks @ [k])"
  shows "stState reported = specState staleAfter ds h" "stActivity reported = specActivity ds h"
    "stHeartbeatAt reported \<noteq> 0" "stHeartbeatAt reported \<le> tkNow k" "tkNow k - stHeartbeatAt reported < heartbeat"
proof -
  note ok = assms(1) [unfolded reporterOk_def]
  have l: "int (length ticks) < maxInt64" using ok by simp
  let ?s = "runLoop heartbeat (ticks @ [k]) (loopStart (New staleAfter ds))"
  have cur: "stState reported = evLastState (lsEvaluator ?s)" "stActivity reported = evLastActivity (lsEvaluator ?s)"
    "tkNow k - stHeartbeatAt reported < heartbeat" "stHeartbeatAt reported \<noteq> 0" "stHeartbeatAt reported \<le> tkNow k"
    using runLoop_current [of ticks k heartbeat staleAfter ds] ok l assms(2)
    unfolding reported_def lastReported_def Let_def by blast+
  then show "stHeartbeatAt reported \<noteq> 0" "stHeartbeatAt reported \<le> tkNow k" "tkNow k - stHeartbeatAt reported < heartbeat"
    by blast+
  let ?xs = "map (\<lambda>k. (tkObservations k, tkNow k)) ticks"
  have ev: "lsEvaluator ?s = snd (Next (tkObservations k) (tkNow k) (runNext ?xs (New staleAfter ds)))"
    by (simp add: runLoop_evaluator runNext_append loopStart_def) (simp add: runNext_def stepNext_def)
  have "\<forall>x \<in> set (?xs @ [(tkObservations k, tkNow k)]). snd x \<noteq> 0" using ok by auto
  from Next_refines [OF _ this] show "stState reported = specState staleAfter ds h" "stActivity reported = specActivity ds h"
    using ok cur(1,2) unfolding ev by (simp_all add: h_def)
qed

section \<open>The pass protects the node accordingly\<close>

text \<open>The protection of a node with one live enrollment is the decision on it.\<close>

lemma sole_protection:
  assumes "listed nm = Inr items" "filter (liveFor nm) items = [a]"
  shows "\<exists>pr. protectionForNode l p pt listed nm now = Inr pr \<and> prCount pr = 1 \<and> prSource pr = Some a \<and>
    prTaint pr = pdTaint (decidePolicy l p pt a now)"
proof -
  obtain pr where pr: "protectionForNode l p pt listed nm now = Inr pr"
    using assms(1) by (simp add: protectionForNode_def Let_def)
  note pick = protectionForNode_pick [OF assms(1) pr] and win = protectionForNode_winner [OF assms(1) pr]
  have live: "liveFor nm i \<and> i \<in> set items \<longleftrightarrow> i = a" for i
    using arg_cong [OF assms(2), of set] by auto
  have "prCount pr = 1" using pick(2) assms(2) by (simp add: length_liveItems)
  moreover have src: "prSource pr = Some a" using win(1,2) live by (cases "prSource pr") auto
  moreover have "prTaint pr = pdTaint (decidePolicy l p pt a now)" using win(2) [OF src] by blast
  ultimately show ?thesis using pr by blast
qed

text \<open>What the API server has of the node after the writes of a pass.\<close>

definition nodeAfter :: "Node \<Rightarrow> Node list \<Rightarrow> Node" where
  "nodeAfter node ws = last (node # ws)"

lemma writtenNode_after:
  assumes "keysOk p desired"
  shows "nodeAfter node (writtenNode p admitted desired node) = snd (applyProtection p admitted desired (\<not> admitted) node)"
  using applyProtection_flag [OF assms, of admitted "\<not> admitted" node] by (auto simp: nodeAfter_def writtenNode_def)

lemma protected_taint:
  fixes node :: Node and admitted fenced :: bool
  assumes "keysOk p desired"
  defines "n \<equiv> snd (applyProtection p admitted desired fenced node)"
  shows "desired = Some t \<Longrightarrow> hasTaint n (polKey p) (tValue t) (tEffect t)"
    "desired = None \<Longrightarrow> \<not> hasTaint n (polKey p) v e"
    "nodeLabels n SchedulableNodeLabel = (if admitted then Some ''true'' else None)"
proof -
  have f: "filter (\<lambda>t. tKey t = polKey p) (nodeTaints n) = (case desired of None \<Rightarrow> [] | Some t \<Rightarrow> [t])"
    unfolding n_def applyProtection_node using fencedTaints_primary [OF assms(1)] by simp
  show "hasTaint n (polKey p) (tValue t) (tEffect t)" if "desired = Some t"
  proof -
    have "t \<in> set (filter (\<lambda>t. tKey t = polKey p) (nodeTaints n))" unfolding f using that by simp
    then show ?thesis by (auto simp: hasTaint_def list_ex_iff)
  qed
  show "\<not> hasTaint n (polKey p) v e" if "desired = None"
    using f that by (auto simp: hasTaint_def list_ex_iff filter_empty_conv)
  show "nodeLabels n SchedulableNodeLabel = (if admitted then Some ''true'' else None)"
    unfolding n_def applyProtection_node by (simp add: labelled_key)
qed

text \<open>A pass over a sole live enrollment leaves the node with the taint the decision asks for, and the label.\<close>

lemma pass_protects:
  assumes "wGetActivity w = Found a" "deletionIsZero a" "trimSpace nm \<noteq> ''''" "holdOk a" "nm = specNodeName (naSpec a)"
    and "obliging w" "accepted w r" "wList w nm = Inr items" "filter (liveFor nm) items = [a]" "wGetNode w nm = Found node"
    and "0 < wClock w (psClock s)"
  defines "p \<equiv> rrPolicy r" and "now \<equiv> wClock w (psClock s)"
  defines "desired \<equiv> pdTaint (decidePolicy (wLib w) p (wParseTime w) a now)"
  shows "\<exists>d s' ws. Reconcile w r s = (Inr d, s') \<and> nodeWrites (psWrites s') = nodeWrites (psWrites s) @ ws \<and>
    (case desired of
       None \<Rightarrow> \<forall>v e. \<not> hasTaint (nodeAfter node ws) (polKey p) v e
     | Some t \<Rightarrow> hasTaint (nodeAfter node ws) (polKey p) (tValue t) (tEffect t)) \<and>
    nodeLabels (nodeAfter node ws) SchedulableNodeLabel =
      (if controllerAdmitted (hvFresh (verdict p a now)) (stState (naStatus a)) (stActivity (naStatus a)) desired
       then Some ''true'' else None)"
proof -
  obtain pr where pr: "protectionForNode (wLib w) p (wParseTime w) (wList w) nm now = Inr pr" "prCount pr = 1"
    "prSource pr = Some a" "prTaint pr = desired"
    using sole_protection [where listed = "wList w" and nm = nm, OF assms(8,9), of "wLib w" p "wParseTime w" now] unfolding desired_def by blast
  have adm: "policyAdmitted p pr now =
      controllerAdmitted (hvFresh (verdict p a now)) (stState (naStatus a)) (stActivity (naStatus a)) desired"
    using pr(3,4) by (simp add: policyAdmitted_def verdict_def)
  have keys: "keysOk p desired"
    using accepted_keys [OF assms(7)] taintTable_key decidePolicy_taintTable [of now] assms(11)
    by (auto simp: keysOk_def p_def now_def desired_def)
  note eff = Reconcile_effect [OF assms(1,2) _ assms(4,6,7), of s pr node, folded p_def now_def]
  obtain d s' where run: "Reconcile w r s = (Inr d, s')"
    "nodeWrites (psWrites s') = nodeWrites (psWrites s) @ writtenNode p (policyAdmitted p pr now) desired node"
    using eff assms(3,5,10) pr by blast
  show ?thesis
    using run protected_taint [OF keys, where admitted = "policyAdmitted p pr now" and fenced = "\<not> policyAdmitted p pr now" and node = node] adm
    unfolding writtenNode_after [OF keys, symmetric] by (auto split: option.split)
qed

section \<open>The node follows the host\<close>

text \<open>The heartbeat the last report carries is fresh for as long as the reporter was not silent for too long.\<close>

lemma carried_fresh:
  assumes "reporterOk heartbeat ds (ticks @ [k])" "\<forall>st. tkReport k st = None" "policyOk p"
    and "carries (lastReported heartbeat staleAfter ds (ticks @ [k])) a"
    and "tkNow k - now \<le> effectiveHeartbeatSkew p" "now - tkNow k \<le> polStaleAfter p - heartbeat"
  shows "hvFresh (verdict p a now)"
  using lastReported_history(3-5) [OF assms(1,2), of staleAfter] assms(4-6)
  unfolding verdict_iffs(4) [OF assms(3)] carries_def by auto

lemma decided_by_activity:
  fixes l :: lib and pt :: "string \<Rightarrow> time option"
  assumes "reporterOk heartbeat ds (ticks @ [k])" "\<forall>st. tkReport k st = None" "0 < now"
    and "carries (lastReported heartbeat staleAfter ds (ticks @ [k])) a" "hvFresh (verdict p a now)"
  defines "act \<equiv> sampledActivity ds (ticks @ [k])" and "d \<equiv> pdTaint (decidePolicy l p pt a now)"
  shows "act = ActivityGame \<Longrightarrow> d = Some (activeTaint p)"
    and "act = ActivityUnknown \<Longrightarrow> polFailClosed p \<Longrightarrow> d = Some (failClosedTaint p)"
    and "act = ActivityInteractive \<Longrightarrow> evaluateWindows l (naSpec a) now = Inr (None, nx, wt) \<Longrightarrow> d = Some (interactiveTaint p)"
    and "act = ActivityIdle \<Longrightarrow> evaluateWindows l (naSpec a) now = Inr (None, nx, wt) \<Longrightarrow> holdExpiry pt a \<le> now \<Longrightarrow>
      d = None \<and> controllerAdmitted (hvFresh (verdict p a now)) (stState (naStatus a)) (stActivity (naStatus a)) d"
proof -
  let ?h = "historyOfSamples (map (\<lambda>k. (tkObservations k, tkNow k)) (ticks @ [k]))"
  have st: "stState (naStatus a) = specState staleAfter ds ?h" "stActivity (naStatus a) = act"
    using lastReported_history(1,2) [OF assms(1,2), of staleAfter] assms(4)
    by (simp_all add: carries_def act_def sampledActivity_def)
  have act: "act = specActivity ds ?h" by (simp add: act_def sampledActivity_def)
  note spec = specState_activity [of ds ?h, folded act]
  note table = decidePolicy_taintTable [OF assms(3), of l p pt a, folded d_def, unfolded taintTable_def Let_def inputsOf_sel]
  show "act = ActivityGame \<Longrightarrow> d = Some (activeTaint p)"
    "act = ActivityUnknown \<Longrightarrow> polFailClosed p \<Longrightarrow> d = Some (failClosedTaint p)"
    using table assms(5) st spec by auto
  have none: "inWindow (inputsOf l p pt a now) = None" "\<not> inInvalid (inputsOf l p pt a now)"
    if "evaluateWindows l (naSpec a) now = Inr (None, nx, wt)"
    using that by (simp_all add: inputsOf_def)
  show "d = Some (interactiveTaint p)"
    if "act = ActivityInteractive" "evaluateWindows l (naSpec a) now = Inr (None, nx, wt)"
    using table assms(5) st spec none [OF that(2)] that(1) by auto
  show "d = None \<and> controllerAdmitted (hvFresh (verdict p a now)) (stState (naStatus a)) (stActivity (naStatus a)) d"
    if "act = ActivityIdle" "evaluateWindows l (naSpec a) now = Inr (None, nx, wt)" "holdExpiry pt a \<le> now"
    using table assms(5) st spec none [OF that(2)] that(1,3) by (auto simp: controllerAdmitted_def)
qed

text \<open>
  C2: The node follows the host: take any run of the reporter whose last report was accepted, an enrollment that carries
  that report and is the only live one of its node, and a pass of the controller that starts, by its own clock, not
  earlier than the last sample less the tolerated skew and not later than the stale interval less one heartbeat after it.  Then
  the pass ends without error and leaves the node, if the samples settled on a game, with the active NoSchedule taint, whatever hold and
  windows say; if the host is unknown, with the fail-closed one; if interactive and no window is open, with the
  interactive taint; and if idle, with no hold and no open window, without the controller's taint and labelled schedulable,
  which it is in no other of these cases.
\<close>
theorem node_follows_host:
  assumes "reporterOk heartbeat ds (ticks @ [k])" "\<forall>st. tkReport k st = None"
    and "carries (lastReported heartbeat staleAfter ds (ticks @ [k])) a"
    and "wGetActivity w = Found a" "deletionIsZero a" "trimSpace nm \<noteq> ''''" "holdOk a" "nm = specNodeName (naSpec a)"
    and "obliging w" "accepted w r" "policyOk (rrPolicy r)" "polFailClosed (rrPolicy r)"
    and "wList w nm = Inr items" "filter (liveFor nm) items = [a]" "wGetNode w nm = Found node"
    and "now = wClock w (psClock s)" "0 < now" "tkNow k - now \<le> effectiveHeartbeatSkew (rrPolicy r)"
    and "now - tkNow k \<le> polStaleAfter (rrPolicy r) - heartbeat"
  shows "\<exists>d s' ws. Reconcile w r s = (Inr d, s') \<and> nodeWrites (psWrites s') = nodeWrites (psWrites s) @ ws \<and>
    (let p = rrPolicy r; act = sampledActivity ds (ticks @ [k]); n = nodeAfter node ws;
         open = fst (projr (evaluateWindows (wLib w) (naSpec a) now));
         quiet = (\<not> isl (evaluateWindows (wLib w) (naSpec a) now) \<and> open = None)
     in (act = ActivityGame \<longrightarrow>
           hasTaint n (polKey p) (polActiveValue p) NoSchedule \<and> nodeLabels n SchedulableNodeLabel = None) \<and>
        (act = ActivityUnknown \<longrightarrow>
           hasTaint n (polKey p) (polFailClosedValue p) NoSchedule \<and> nodeLabels n SchedulableNodeLabel = None) \<and>
        (act = ActivityInteractive \<and> quiet \<longrightarrow>
           hasTaint n (polKey p) (polInteractiveValue p) PreferNoSchedule \<and> nodeLabels n SchedulableNodeLabel = None) \<and>
        (act = ActivityIdle \<and> quiet \<and> holdExpiry (wParseTime w) a \<le> now \<longrightarrow>
           (\<forall>v e. \<not> hasTaint n (polKey p) v e) \<and> nodeLabels n SchedulableNodeLabel = Some ''true''))"
proof -
  let ?p = "rrPolicy r" and ?e = "evaluateWindows (wLib w) (naSpec a) now"
  let ?d = "pdTaint (decidePolicy (wLib w) ?p (wParseTime w) a now)"
  have fresh: "hvFresh (verdict ?p a now)" by (rule carried_fresh [OF assms(1,2,11,3,18,19)])
  obtain d s' ws where run: "Reconcile w r s = (Inr d, s')" "nodeWrites (psWrites s') = nodeWrites (psWrites s) @ ws"
    and taint: "case ?d of
       None \<Rightarrow> \<forall>v e. \<not> hasTaint (nodeAfter node ws) (polKey ?p) v e
     | Some t \<Rightarrow> hasTaint (nodeAfter node ws) (polKey ?p) (tValue t) (tEffect t)"
    and label: "nodeLabels (nodeAfter node ws) SchedulableNodeLabel =
      (if controllerAdmitted (hvFresh (verdict ?p a now)) (stState (naStatus a)) (stActivity (naStatus a)) ?d
       then Some ''true'' else None)"
    using pass_protects [OF assms(4-10) assms(13-15), of s] assms(16,17) by blast
  have quiet: "\<exists>nx wt. ?e = Inr (None, nx, wt)" if "\<not> isl ?e" "fst (projr ?e) = None"
    using that by (cases ?e) auto
  note dec = decided_by_activity [OF assms(1,2,17,3) fresh, where l = "wLib w" and pt = "wParseTime w"]
  have closed: "nodeLabels (nodeAfter node ws) SchedulableNodeLabel = None" if "?d = Some t" for t
    using label that by (simp add: controllerAdmitted_def)
  have "?d = Some t \<Longrightarrow> hasTaint (nodeAfter node ws) (polKey ?p) (tValue t) (tEffect t)" for t
    using taint by simp
  moreover have "?d = None \<Longrightarrow> \<not> hasTaint (nodeAfter node ws) (polKey ?p) v e" for v e
    using taint by simp
  moreover note closed label dec(1) dec(2) [OF _ assms(12)] dec(3,4) quiet
  ultimately show ?thesis
    unfolding Let_def
    by (intro exI [of _ d] exI [of _ s'] exI [of _ ws] conjI run impI)
      (fastforce simp: activeTaint_def failClosedTaint_def interactiveTaint_def)+
qed

text \<open>One sample of a game, reported a second before the controller looks: the node gets the active taint.\<close>

lemma node_follows_host_witness:
  "\<exists>d s' ws. Reconcile (sampleWorld sampleGame (sampleNode [])) sampleReconciler (samplePass sampleGame) = (Inr d, s') \<and>
     nodeWrites (psWrites s') = ws \<and> hasTaint (nodeAfter (sampleNode []) ws) ''node/state'' ''active'' NoSchedule"
proof -
  let ?w = "sampleWorld sampleGame (sampleNode [])" and ?s = "samplePass sampleGame"
  let ?ds = "\<lparr>dsGame = 1, dsInteractive = 2, dsIdle = 3\<rparr>" and ?k = "sampleTick ActivityGame (sampleNow - second) True"
  let ?hb = "15 * second"
  note g = sampleGame_facts and f = sampleWorld_facts [where a = sampleGame and node = "sampleNode []"]
  have r: "rrPolicy sampleReconciler = samplePolicy" by (simp add: sampleReconciler_def)
  have ok: "reporterOk ?hb ?ds ([] @ [?k])"
    by (simp add: reporterOk_def samplesOk_def sampleTick_def sample_times int64_bounds)
  have rep: "\<forall>st. tkReport ?k st = None" by (simp add: sampleTick_def)
  have carry: "carries (lastReported ?hb (60 * second) ?ds ([] @ [?k])) sampleGame" by code_simp
  have act: "sampledActivity ?ds ([] @ [?k]) = ActivityGame" by code_simp
  have p: "policyOk (rrPolicy sampleReconciler)" "polFailClosed (rrPolicy sampleReconciler)"
    "polKey samplePolicy = ''node/state''" "polActiveValue samplePolicy = ''active''"
    using samplePolicy_ok by (simp_all add: r samplePolicy_def)
  have live: "filter (liveFor ''node-a'') [sampleGame] = [sampleGame]" using g(4) by simp
  have n: "wGetNode ?w ''node-a'' = Found (sampleNode [])" using f(5) by (simp add: sampleNode_def)
  have clock: "sampleNow = wClock ?w (psClock ?s)" "0 < sampleNow"
    "tkNow ?k - sampleNow \<le> effectiveHeartbeatSkew (rrPolicy sampleReconciler)"
    "sampleNow - tkNow ?k \<le> polStaleAfter (rrPolicy sampleReconciler) - ?hb"
    using effectiveHeartbeatSkew_pos [of samplePolicy] samplePolicy_ok
    by (simp_all add: f(7) r sampleTick_def sample_times) (simp_all add: samplePolicy_def effectiveHeartbeatSkew_def sample_times)
  have none: "nodeWrites (psWrites ?s) = []" by code_simp
  show ?thesis
    using node_follows_host [OF ok rep carry f(1) g(1,3,5) g(2) [symmetric] f(2,4) p(1,2) f(6) live n clock] act p(3,4)
    unfolding none Let_def r by auto
qed

end
