(* ===== verification/PassErrors.thy ===== *)
theory PassErrors
  imports Reconcile
begin

text \<open>
  What a pass does when the API server refuses a write.  \<open>refusal\<close> is the error of one write after the
  writes before it, and \<open>firstRefusal\<close> looks through a list of writes for the first refused one and
  returns its error with the writes made after it.  \<open>stopsOnRefusal\<close> is closed under the ways a pass
  is composed, so each step is one line of introduction rules.
\<close>

fun refusal :: "'e world \<Rightarrow> apiWrite list \<Rightarrow> apiWrite \<Rightarrow> 'e option" where
  "refusal w history (UpdateNode node) =
     (case wUpdate w history node of Inl err \<Rightarrow> Some err | Inr _ \<Rightarrow> None)"
| "refusal w history write =
     (case wPatch w history write of Inl err \<Rightarrow> Some err | Inr _ \<Rightarrow> None)"

fun firstRefusal :: "'e world \<Rightarrow> apiWrite list \<Rightarrow> apiWrite list \<Rightarrow> ('e \<times> apiWrite list) option" where
  "firstRefusal w history [] = None"
| "firstRefusal w history (write # rest) =
     (case refusal w history write of
        Some err \<Rightarrow> Some (err, rest)
      | None \<Rightarrow> firstRefusal w (history @ [write]) rest)"

lemma firstRefusal_append:
  "firstRefusal w history xs = None \<Longrightarrow> firstRefusal w history (xs @ ys) = firstRefusal w (history @ xs) ys"
  by (induction xs arbitrary: history) (simp_all split: option.splits)

text \<open>
  The writes of a step that ends are all accepted; those of one that stops are accepted too, or the
  last of them is the only refused one and the step stops with its error.
\<close>

definition refusedOnly :: "'e world \<Rightarrow> apiWrite list \<Rightarrow> apiWrite list \<Rightarrow> 'e failure + 'a \<Rightarrow> bool" where
  "refusedOnly w history writes result \<longleftrightarrow>
     firstRefusal w history writes = None \<or>
     (\<exists>err. firstRefusal w history writes = Some (err, []) \<and> result = Inl (Api err))"

definition stopsOnRefusal :: "'e world \<Rightarrow> ('e, 'a) pass \<Rightarrow> bool" where
  "stopsOnRefusal w m \<longleftrightarrow>
     (\<forall>s. \<exists>writes. psWrites (snd (m s)) = psWrites s @ writes \<and> refusedOnly w (psWrites s) writes (fst (m s)))"

lemma stops_silent: "(\<And>s. psWrites (snd (m s)) = psWrites s) \<Longrightarrow> stopsOnRefusal w m"
  by (simp add: stopsOnRefusal_def refusedOnly_def)

lemma stops_ret: "stopsOnRefusal w (ret x)"
  by (rule stops_silent) (simp add: ret_def)

lemma stops_fail: "stopsOnRefusal w (fail err)"
  by (rule stops_silent) (simp add: fail_def)

lemma stops_clock: "stopsOnRefusal w (clockNow w)"
  by (rule stops_silent) (simp add: clockNow_def)

lemma stops_activity: "stopsOnRefusal w getActivity"
  by (rule stops_silent) (simp add: getActivity_def)

lemma stops_metrics: "stopsOnRefusal w (onMetrics f)"
  by (rule stops_silent) (simp add: onMetrics_def)

lemma stops_protect: "stopsOnRefusal w (protect w p nm now)"
  by (rule stops_silent) (simp add: protect_def split: sum.split)

lemma stops_if: "stopsOnRefusal w m \<Longrightarrow> stopsOnRefusal w n \<Longrightarrow> stopsOnRefusal w (if b then m else n)"
  by simp

lemma stops_andThen:
  assumes "stopsOnRefusal w m" "\<And>x. stopsOnRefusal w (f x)"
  shows "stopsOnRefusal w (andThen m f)"
  unfolding stopsOnRefusal_def
proof
  fix s
  obtain result s' where m: "m s = (result, s')" by (cases "m s")
  obtain xs where xs: "psWrites s' = psWrites s @ xs" "refusedOnly w (psWrites s) xs result"
    using assms(1) m unfolding stopsOnRefusal_def by (metis fst_conv snd_conv)
  show "\<exists>writes. psWrites (snd (andThen m f s)) = psWrites s @ writes \<and>
      refusedOnly w (psWrites s) writes (fst (andThen m f s))"
  proof (cases result)
    case (Inl err)
    then show ?thesis using m xs by (auto simp: andThen_def refusedOnly_def)
  next
    case (Inr x)
    then have none: "firstRefusal w (psWrites s) xs = None" using xs(2) by (simp add: refusedOnly_def)
    obtain ys where "psWrites (snd (f x s')) = psWrites s' @ ys" "refusedOnly w (psWrites s') ys (fst (f x s'))"
      using assms(2) unfolding stopsOnRefusal_def by metis
    then show ?thesis
      using m Inr xs(1) firstRefusal_append [OF none]
      by (intro exI [of _ "xs @ ys"]) (simp add: andThen_def refusedOnly_def)
  qed
qed

lemma stops_before: "stopsOnRefusal w m \<Longrightarrow> stopsOnRefusal w n \<Longrightarrow> stopsOnRefusal w (before m n)"
  unfolding before_def by (rule stops_andThen)

lemma stops_patch:
  assumes "k = PatchObject \<or> k = PatchStatus"
  shows "stopsOnRefusal w (patch w k a)"
  unfolding stopsOnRefusal_def
proof
  fix s
  show "\<exists>writes. psWrites (snd (patch w k a s)) = psWrites s @ writes \<and>
      refusedOnly w (psWrites s) writes (fst (patch w k a s))"
    using assms by (intro exI [of _ "[k a]"]) (auto simp: patch_def Let_def refusedOnly_def split: sum.split)
qed

lemmas stops_patches = stops_patch [OF disjI1 [OF refl]] stops_patch [OF disjI2 [OF refl]]

lemma stops_update: "stopsOnRefusal w (updateNode w node)"
  unfolding stopsOnRefusal_def
proof
  fix s
  show "\<exists>writes. psWrites (snd (updateNode w node s)) = psWrites s @ writes \<and>
      refusedOnly w (psWrites s) writes (fst (updateNode w node s))"
    by (intro exI [of _ "[UpdateNode node]"]) (simp add: updateNode_def Let_def refusedOnly_def split: sum.split)
qed

lemma stops_status: "stopsOnRefusal w (setStatus w f)"
proof -
  have "setStatus w f = andThen getActivity (\<lambda>a.
      if f (naStatus a) = naStatus a then ret () else patch w PatchStatus (a\<lparr>naStatus := f (naStatus a)\<rparr>))"
    by (rule ext) (simp add: setStatus_def Let_def andThen_def getActivity_def)
  then show ?thesis by (simp only:) (intro stops_andThen stops_activity stops_if stops_ret stops_patches)
qed

lemma stops_node: "stopsOnRefusal w (protectNode w p admitted desired fenced node)"
  unfolding protectNode_def by (simp add: stops_ret stops_update split: prod.split)

lemma stops_evictions: "stopsOnRefusal w (runEvictions1 w r node desired)"
  unfolding runEvictions1_def
  by (intro stops_andThen stops_clock, rule stops_silent) (simp add: Let_def split: prod.split sum.split)

lemma stops_signals: "stopsOnRefusal w (observeNodeSignals w p nm pr applied invalid)"
  unfolding observeNodeSignals_def Let_def
  by (auto split: option.split intro!: stops_metrics stops_andThen stops_clock)

lemmas stops_rules = stops_before stops_andThen stops_clock stops_activity stops_metrics stops_protect stops_ret
  stops_fail stops_if stops_patches stops_status stops_node stops_evictions stops_signals

lemma stops_conditions:
  "stopsOnRefusal w (setCondition w st reason message taint)" "stopsOnRefusal w (setScheduleCondition w err)"
  "stopsOnRefusal w (setHeartbeatCondition w p)" "stopsOnRefusal w (setAdmission w adm)"
  "stopsOnRefusal w (setEvictionCondition w summary)" "stopsOnRefusal w (reconcileHold w now)"
  "stopsOnRefusal w (ensureFinalizer w)" "stopsOnRefusal w (dropFinalizer w)" "stopsOnRefusal w (releaseFence w p pr)"
  unfolding setCondition_def setScheduleCondition_def setHeartbeatCondition_def setAdmission_def setEvictionCondition_def
    reconcileHold_def ensureFinalizer_def dropFinalizer_def releaseFence_def Let_def
  by (intro stops_rules)+

lemma stops_release: "stopsOnRefusal w (releaseNode w r nm node)"
  unfolding releaseNode_def Let_def by (intro stops_rules stops_conditions)

lemma stops_deleted: "stopsOnRefusal w (reconcileDeleted w r)"
proof -
  have "stopsOnRefusal w (case wGetNode w nm of NotFound \<Rightarrow> onMetrics (clearNodeMetrics nm)
      | Failed err \<Rightarrow> fail (Api err) | Found node \<Rightarrow> releaseNode w r nm node)" for nm
    by (simp add: stops_metrics stops_fail stops_release split: lookup.split)
  then show ?thesis
    unfolding reconcileDeleted_def finalize_def Let_def by (intro stops_rules stops_conditions)
qed

lemma stops_unnamed: "stopsOnRefusal w (reconcileUnnamed w r err)"
  unfolding reconcileUnnamed_def by (intro stops_rules stops_conditions)

lemma stops_missing: "stopsOnRefusal w (reconcileNodeMissing w r err nm pr)"
  unfolding reconcileNodeMissing_def by (intro stops_rules stops_conditions)

lemma stops_named: "stopsOnRefusal w (reconcileNode w r err nm pr admitted node)"
  unfolding reconcileNode_def Let_def by (intro stops_rules stops_conditions)

lemma stops_enrolled: "stopsOnRefusal w (reconcileEnrolled w r err)"
proof -
  have "stopsOnRefusal w (case wGetNode w nm of NotFound \<Rightarrow> reconcileNodeMissing w r err nm pr
      | Failed e \<Rightarrow> fail (Api e) | Found node \<Rightarrow> reconcileNode w r err nm pr admitted node)" for nm pr admitted
    by (simp add: stops_fail stops_missing stops_named split: lookup.split)
  then show ?thesis
    unfolding reconcileEnrolled_def Let_def by (intro stops_rules stops_conditions)
qed

text \<open>
  C19: No refusal of the API server is swallowed, and none is written past: whatever a pass over an enrollment, live, deleted,
  unnamed or without a Node, sends to the API server, all of it is accepted, or only its last write is refused and the pass
  ends with exactly the error of that refusal.  In particular a pass that ends without error had every write accepted.
\<close>
theorem refused_write_ends_pass:
  "\<exists>writes. psWrites (snd (Reconcile w r s)) = psWrites s @ writes \<and>
     (firstRefusal w (psWrites s) writes = None \<or>
      (\<exists>err. firstRefusal w (psWrites s) writes = Some (err, []) \<and> fst (Reconcile w r s) = Inl (Api err)))"
proof (cases "wGetActivity w")
  case (Found a)
  let ?s = "s\<lparr>psActivity := a\<rparr>" and ?err = "validateSchedule (wLib w) (naSpec a)"
  show ?thesis
  proof (cases "validatePolicy (wQualified w) (rrPolicy r)")
    case None
    have "\<exists>writes. psWrites (snd (m ?s)) = psWrites s @ writes \<and> refusedOnly w (psWrites s) writes (fst (m ?s))"
      if "stopsOnRefusal w m" for m :: "('a, duration) pass"
      using that [unfolded stopsOnRefusal_def, rule_format, of ?s] by simp
    note run = this [OF stops_deleted, of r] this [OF stops_unnamed, of r ?err] this [OF stops_enrolled, of r ?err]
    show ?thesis
      using run [unfolded refusedOnly_def] Found None by (simp add: Reconcile_def Let_def)
  next
    case (Some err)
    then show ?thesis using Found by (simp add: Reconcile_def fail_def)
  qed
qed (simp_all add: Reconcile_def ret_def fail_def)

end
