(* ===== verification/DurationText.thy ===== *)
theory DurationText
  imports GoText
begin

text \<open>
  \<open>time.Duration.String\<close>, and that \<open>time.ParseDuration\<close> reads back exactly what it prints, for every
  64-bit duration.  The parser computes a fraction in float64; on what the printer writes, every
  intermediate value is an integer below \<open>2^53\<close>, so nothing is rounded.
\<close>

section \<open>Printing\<close>

text \<open>\<open>fmtFrac\<close> writes the fraction from its last digit to its first, without trailing zeros.\<close>

fun fmtFrac :: "nat \<Rightarrow> bool \<Rightarrow> nat \<Rightarrow> string \<Rightarrow> string \<times> nat" where
  "fmtFrac 0 started v buf = (if started then CHR ''.'' # buf else buf, v)"
| "fmtFrac (Suc prec) started v buf =
     (let digit = v mod 10; started' = (started \<or> digit \<noteq> 0)
      in fmtFrac prec started' (v div 10) (if started' then digitChar digit # buf else buf))"

definition microUnit :: string where
  "microUnit = [CHR 0xC2, CHR 0xB5, CHR ''s'']"

definition shortDuration :: "nat \<Rightarrow> string" where
  "shortDuration u =
     (if u = 0 then ''0s''
      else
        let (prec, unit) = (if u < 1000 then (0, ''ns'') else if u < 1000000 then (3, microUnit) else (6, ''ms''));
            (buf, n) = fmtFrac prec False u unit
        in decimal n @ buf)"

definition longDuration :: "nat \<Rightarrow> string" where
  "longDuration u =
     (let (buf, secs) = fmtFrac 9 False u ''s'';
          sec = decimal (secs mod 60) @ buf;
          mins = secs div 60
      in if mins = 0 then sec
         else let mn = decimal (mins mod 60) @ ''m'' @ sec; hours = mins div 60
              in if hours = 0 then mn else decimal hours @ ''h'' @ mn)"

definition durationString :: "duration \<Rightarrow> string" where
  "durationString d =
     (let u = nat \<bar>d\<bar>;
          text = (if u < 1000000000 then shortDuration u else longDuration u)
      in if d < 0 then CHR ''-'' # text else text)"

section \<open>The fraction of the printer\<close>

lemma fmtFrac_started:
  "fmtFrac prec True v buf = (CHR ''.'' # rev (map (\<lambda>i. digitChar (v div 10 ^ i)) [0..<prec]) @ buf, v div 10 ^ prec)"
proof (induction prec arbitrary: v buf)
  case (Suc prec)
  have d: "digitChar (v mod 10) = digitChar v" by (simp add: digitChar_def)
  have m: "map (\<lambda>i. digitChar (v div 10 div 10 ^ i)) [0..<prec] = map (\<lambda>i. digitChar (v div 10 ^ i)) [1..<Suc prec]"
  proof -
    have "map (\<lambda>i. digitChar (v div 10 ^ i)) [1..<Suc prec] = map ((\<lambda>i. digitChar (v div 10 ^ i)) \<circ> Suc) [0..<prec]"
      unfolding One_nat_def map_Suc_upt [symmetric] by (rule map_map)
    then show ?thesis unfolding comp_def power_Suc div_mult2_eq by (rule sym)
  qed
  have "[0..<Suc prec] = 0 # [1..<Suc prec]" by (simp add: upt_conv_Cons del: upt_Suc)
  then have e: "map (\<lambda>i. digitChar (v div 10 ^ i)) [0..<Suc prec] =
      digitChar v # map (\<lambda>i. digitChar (v div 10 div 10 ^ i)) [0..<prec]"
    unfolding m by simp
  have "fmtFrac (Suc prec) True v buf =
      (CHR ''.'' # rev (map (\<lambda>i. digitChar (v div 10 div 10 ^ i)) [0..<prec]) @ digitChar v # buf, v div 10 div 10 ^ prec)"
    using Suc.IH [of "v div 10" "digitChar v # buf"] d by simp
  then show ?case unfolding e by (simp add: div_mult2_eq)
qed simp

text \<open>What the printer writes of a fraction: nothing, or a point and digits that stand for it.\<close>

definition fracText :: "nat \<Rightarrow> nat \<Rightarrow> string \<Rightarrow> bool" where
  "fracText prec r frac \<longleftrightarrow>
     frac = [] \<and> r = 0 \<or>
     (\<exists>ds. frac = CHR ''.'' # ds \<and> ds \<noteq> [] \<and> list_all isDigit ds \<and> length ds \<le> prec \<and>
        0 < r \<and> digitsVal 0 ds * 10 ^ (prec - length ds) = int r)"

lemma fracText_Suc: "fracText prec r frac \<Longrightarrow> fracText (Suc prec) (10 * r) frac"
  by (auto simp: fracText_def Suc_diff_le)

lemma fmtFrac_parts:
  "\<exists>frac. fmtFrac prec False v buf = (frac @ buf, v div 10 ^ prec) \<and> fracText prec (v mod 10 ^ prec) frac"
proof (induction prec arbitrary: v buf)
  case 0
  then show ?case by (simp add: fracText_def)
next
  case (Suc prec)
  have split: "v mod 10 ^ Suc prec = v mod 10 + 10 * (v div 10 mod 10 ^ prec)"
    by (simp add: mod_mult2_eq)
  show ?case
  proof (cases "v mod 10 = 0")
    case True
    obtain frac where f: "fmtFrac prec False (v div 10) buf = (frac @ buf, v div 10 div 10 ^ prec)"
      "fracText prec (v div 10 mod 10 ^ prec) frac"
      using Suc.IH [of "v div 10" buf] by blast
    have "fmtFrac (Suc prec) False v buf = (frac @ buf, v div 10 ^ Suc prec)"
      using True f(1) by (simp add: div_mult2_eq [symmetric])
    moreover have "fracText (Suc prec) (v mod 10 ^ Suc prec) frac"
      using fracText_Suc [OF f(2)] unfolding split True by simp
    ultimately show ?thesis by blast
  next
    case False
    define ds where "ds = rev (map (\<lambda>i. digitChar (v div 10 ^ i)) [0..<Suc prec])"
    have e: "fmtFrac (Suc prec) False v buf = (CHR ''.'' # ds @ buf, v div 10 ^ Suc prec)"
    proof -
      have "fmtFrac (Suc prec) False v buf = fmtFrac (Suc prec) True v buf" using False by simp
      then show ?thesis unfolding fmtFrac_started ds_def .
    qed
    have val: "digitsVal 0 (rev (map (\<lambda>i. digitChar (v div 10 ^ i)) [0..<k])) = int (v mod 10 ^ k)" for k
    proof -
      have "digitsVal x (rev (map (\<lambda>i. digitChar (v div 10 ^ i)) [0..<k])) = x * 10 ^ k + int (v mod 10 ^ k)" for x
      proof (induction k arbitrary: x)
        case (Suc k)
        have "v mod 10 ^ Suc k = v mod 10 ^ k + 10 ^ k * (v div 10 ^ k mod 10)"
          using mod_mult2_eq [of v "10 ^ k" 10] by (simp add: mult.commute)
        then show ?case by (simp add: Suc.IH algebra_simps)
      qed simp
      from this [of 0] show ?thesis by simp
    qed
    have "0 < v mod 10 ^ Suc prec" using False unfolding split by simp
    moreover have "digitsVal 0 ds = int (v mod 10 ^ Suc prec)" unfolding ds_def by (rule val)
    moreover have "list_all isDigit ds" "length ds = Suc prec" by (simp_all add: ds_def list_all_iff del: upt_Suc)
    ultimately have "fracText (Suc prec) (v mod 10 ^ Suc prec) (CHR ''.'' # ds)"
      by (auto simp: fracText_def)
    with e show ?thesis by auto
  qed
qed

section \<open>Reading digits\<close>

lemma digitVal_range: "isDigit c \<Longrightarrow> 0 \<le> digitVal c \<and> digitVal c \<le> 9"
proof -
  assume "isDigit c"
  moreover have "(of_char c :: int) = int (of_char c :: nat)" by (simp add: of_char_def of_nat_of_bool)
  ultimately show ?thesis by (simp add: digitVal_def isDigit_def Let_def)
qed

lemma digitsVal_ge: "list_all isDigit ds \<Longrightarrow> 0 \<le> x \<Longrightarrow> x \<le> digitsVal x ds"
proof (induction ds arbitrary: x)
  case (Cons c ds)
  have c: "0 \<le> digitVal c" using Cons.prems(1) digitVal_range [of c] by simp
  have "x \<le> x * 10 + digitVal c" using c Cons.prems(2) by simp
  also have "\<dots> \<le> digitsVal (x * 10 + digitVal c) ds" using Cons.IH Cons.prems c by simp
  finally show ?case by simp
qed simp

text \<open>The text that follows a number does not start with a digit.\<close>

definition noDigit :: "string \<Rightarrow> bool" where
  "noDigit t \<longleftrightarrow> t = [] \<or> \<not> isDigit (hd t)"

lemma leadingInt_digits:
  assumes "list_all isDigit ds" "noDigit t" "0 \<le> x" "digitsVal x ds \<le> twoTo63"
  shows "leadingInt x (ds @ t) = Some (digitsVal x ds, t)"
  using assms
proof (induction ds arbitrary: x)
  case Nil
  then show ?case by (cases t) (auto simp: noDigit_def)
next
  case (Cons c ds)
  have c: "isDigit c" "0 \<le> digitVal c" using Cons.prems(1) digitVal_range [of c] by auto
  have le: "x * 10 + digitVal c \<le> digitsVal (x * 10 + digitVal c) ds"
    using Cons.prems c by (intro digitsVal_ge) auto
  then have "x * 10 + digitVal c \<le> twoTo63" using Cons.prems(4) by simp
  moreover from this have "x \<le> twoTo63 div 10" using c(2) by (simp add: twoTo63_def)
  ultimately show ?case using Cons c by simp
qed

lemma leadingFraction_digits:
  assumes "list_all isDigit ds" "noDigit t" "0 \<le> x" "digitsVal x ds \<le> 1000000000"
  shows "leadingFraction x scale False (ds @ t) = (digitsVal x ds, scale * 10 ^ length ds, t)"
  using assms
proof (induction ds arbitrary: x scale)
  case Nil
  then show ?case by (cases t) (auto simp: noDigit_def)
next
  case (Cons c ds)
  have c: "isDigit c" "0 \<le> digitVal c" using Cons.prems(1) digitVal_range [of c] by auto
  have le: "x * 10 + digitVal c \<le> digitsVal (x * 10 + digitVal c) ds"
    using Cons.prems c by (intro digitsVal_ge) auto
  then have v: "x * 10 + digitVal c \<le> 1000000000" using Cons.prems(4) by simp
  then have "\<not> x > (twoTo63 - 1) div 10" "\<not> x * 10 + digitVal c > twoTo63"
    using c(2) by (simp_all add: twoTo63_def)
  then show ?case using Cons c by (simp add: algebra_simps)
qed

section \<open>Exact float64\<close>

lemma bitLen_bounds: "0 < n \<Longrightarrow> \<exists>k. bitLen n = int (Suc k) \<and> 2 ^ k \<le> n \<and> n < 2 ^ Suc k"
proof (induction n rule: bitLen.induct)
  case (1 n)
  show ?case
  proof (cases "n = 1")
    case True
    have "bitLen 0 = 0" by (subst bitLen.simps) simp
    then have "bitLen 1 = 1" by (subst bitLen.simps) simp
    then show ?thesis using True by (intro exI [of _ 0]) simp
  next
    case False
    then have "0 < n div 2" using 1(2) by simp
    then obtain k where k: "bitLen (n div 2) = int (Suc k)" "2 ^ k \<le> n div 2" "n div 2 < 2 ^ Suc k"
      using 1 by auto
    then have "bitLen n = int (Suc (Suc k))" using 1(2) by (subst bitLen.simps) simp
    moreover have "2 ^ Suc k \<le> n" "n < 2 ^ Suc (Suc k)" using k by simp_all
    ultimately show ?thesis by blast
  qed
qed

text \<open>A rational that is an integer below \<open>2^53\<close> is its own float64.\<close>

lemma toFloat_exact:
  assumes "0 < d" "0 < q" "q < 2 ^ 53"
  shows "\<exists>k. toFloat (q * d, d) = (q * 2 ^ k, 2 ^ k)"
proof -
  have n: "0 < q * d" using assms by simp
  obtain i where i: "bitLen (q * d) = int (Suc i)" "2 ^ i \<le> q * d" "q * d < 2 ^ Suc i"
    using bitLen_bounds [OF n] by blast
  obtain j where j: "bitLen d = int (Suc j)" "2 ^ j \<le> d" "d < 2 ^ Suc j"
    using bitLen_bounds [OF assms(1)] by blast
  define k0 where "k0 = 53 - (bitLen (q * d) - bitLen d)"
  have "(2 :: int) ^ i < 2 ^ 53 * 2 ^ Suc j"
  proof -
    have "q * d < 2 ^ 53 * 2 ^ Suc j" using assms j(3) by (intro mult_strict_mono) auto
    then show ?thesis using i(2) by simp
  qed
  then have "(2 :: int) ^ i < 2 ^ (53 + Suc j)" unfolding power_add .
  then have "i < 53 + Suc j" by (rule power_less_imp_less_exp [rotated]) simp
  then have k0: "0 \<le> k0" unfolding k0_def i(1) j(1) by simp
  have round: "roundEven (q * d * 2 ^ m) d = q * 2 ^ m" for m :: nat
  proof -
    have e: "q * d * 2 ^ m = (q * 2 ^ m) * d" by simp
    show ?thesis unfolding e roundEven_def Let_def using assms(1) by simp
  qed
  have div: "q * d * 2 ^ nat k0 div d = q * 2 ^ nat k0" using assms(1) by (simp add: mult.assoc mult.left_commute)
  have "toFloat (q * d, d) =
      (if q * 2 ^ nat k0 \<ge> 2 ^ 53 then (q * 2 ^ nat (k0 - 1), 2 ^ nat (k0 - 1)) else (q * 2 ^ nat k0, 2 ^ nat k0))"
  proof (cases "q * 2 ^ nat k0 \<ge> 2 ^ 53")
    case True
    then have "k0 \<noteq> 0" using assms(3) by auto
    then show ?thesis
      using n k0 True assms(1,2) unfolding toFloat_def prod.case Let_def k0_def [symmetric] scaleBy_def by (simp add: div round)
  next
    case False
    then show ?thesis
      using n k0 assms(1,2) unfolding toFloat_def prod.case Let_def k0_def [symmetric] scaleBy_def by (simp add: div round)
  qed
  then show ?thesis by (metis (full_types))
qed

lemma toFloat_int: "0 < q \<Longrightarrow> q < 2 ^ 53 \<Longrightarrow> \<exists>k. toFloat (q, 1) = (q * 2 ^ k, 2 ^ k)"
  using toFloat_exact [of 1 q] by simp

lemma fracNanos_exact:
  assumes "0 < f" "0 < q" "0 < scale" "f * q < 2 ^ 53" "q * scale < 2 ^ 53"
  shows "fracNanos f (q * scale) scale = f * q"
proof -
  have pos: "0 < q * scale" "0 < f * q" using assms by simp_all
  have "f \<le> f * q" "q \<le> q * scale" using assms mult_left_mono [of 1 q f] mult_left_mono [of 1 scale q] by simp_all
  then have lt: "f < 2 ^ 53" "q < 2 ^ 53" using assms(4,5) by (blast intro: le_less_trans)+
  obtain a where a: "toFloat (f, 1) = (f * 2 ^ a, 2 ^ a)" using toFloat_int [OF assms(1) lt(1)] by blast
  obtain b where b: "toFloat (q * scale, 1) = (q * scale * 2 ^ b, 2 ^ b)" using toFloat_int [OF pos(1) assms(5)] by blast
  obtain c where "toFloat (q * (2 ^ b * scale), 2 ^ b * scale) = (q * 2 ^ c, 2 ^ c)"
    using toFloat_exact [of "2 ^ b * scale" q] assms(2,3) lt(2) by auto
  then have c: "toFloat (q * scale * 2 ^ b, 2 ^ b * scale) = (q * 2 ^ c, 2 ^ c)" by (simp add: ac_simps)
  obtain e where "toFloat (f * q * (2 ^ a * 2 ^ c), 2 ^ a * 2 ^ c) = (f * q * 2 ^ e, 2 ^ e)"
    using toFloat_exact [of "2 ^ a * 2 ^ c" "f * q"] pos(2) assms(4) by auto
  then have e: "toFloat (f * 2 ^ a * (q * 2 ^ c), 2 ^ a * 2 ^ c) = (f * q * 2 ^ e, 2 ^ e)" by (simp add: ac_simps)
  show ?thesis unfolding fracNanos_def a b prod.case Let_def c e by simp
qed

section \<open>One term\<close>

text \<open>A unit: known, not empty, without digits or points.\<close>

definition unitText :: "string \<Rightarrow> int \<Rightarrow> bool" where
  "unitText unit n \<longleftrightarrow> unitMap unit = Some n \<and> unit \<noteq> [] \<and> 0 < n \<and> list_all (\<lambda>c. \<not> (c = CHR ''.'' \<or> isDigit c)) unit"

lemma unitTexts:
  "unitText ''ns'' 1" "unitText microUnit 1000" "unitText ''ms'' 1000000" "unitText ''s'' 1000000000"
  "unitText ''m'' 60000000000" "unitText ''h'' 3600000000000"
  by (simp_all add: unitText_def unitMap_def microUnit_def isDigit_def)

text \<open>What follows a term is the end or the number of the next term.\<close>

definition termEnd :: "string \<Rightarrow> bool" where
  "termEnd rest \<longleftrightarrow> rest = [] \<or> isDigit (hd rest)"

lemma takeWhile_unit:
  assumes "unitText unit n" "termEnd rest"
  shows "takeWhile (\<lambda>c. \<not> (c = CHR ''.'' \<or> isDigit c)) (unit @ rest) = unit"
    and "noDigit (unit @ rest)" and "hd (unit @ rest) \<noteq> CHR ''.''"
proof -
  have rest: "takeWhile (\<lambda>c. \<not> (c = CHR ''.'' \<or> isDigit c)) rest = []"
    using assms(2) by (cases rest) (simp_all add: termEnd_def)
  have all: "\<forall>c \<in> set unit. \<not> (c = CHR ''.'' \<or> isDigit c)" using assms(1) by (simp add: unitText_def list_all_iff)
  then show "takeWhile (\<lambda>c. \<not> (c = CHR ''.'' \<or> isDigit c)) (unit @ rest) = unit"
    using rest by (subst takeWhile_append2) auto
  have ne: "unit \<noteq> []" using assms(1) by (simp add: unitText_def)
  then show "noDigit (unit @ rest)" "hd (unit @ rest) \<noteq> CHR ''.''"
    using all by (cases unit; simp add: noDigit_def)+
qed

text \<open>
  A number of units is read back exactly and the rest is left, also with a fraction when the unit is a power
  of ten of nanoseconds.
\<close>

lemma durationTerm_print:
  assumes unit: "unitText unit n" and rest: "termEnd rest"
    and frac: "frac = [] \<and> r = 0 \<or> n = 10 ^ prec \<and> prec \<le> 9 \<and> r < 10 ^ prec \<and> fracText prec r frac"
    and fits: "int v * n + int r \<le> twoTo63"
  shows "durationTerm (decimal v @ frac @ unit @ rest) = Some (int v * n + int r, rest)"
proof -
  let ?p = "\<lambda>c. \<not> (c = CHR ''.'' \<or> isDigit c)"
  note u = takeWhile_unit [OF unit rest]
  have um: "unitMap unit = Some n" "unit \<noteq> []" "0 < n" using unit by (simp_all add: unitText_def)
  have vn: "int v * n \<le> twoTo63" using fits by simp
  have "int v * 1 \<le> int v * n" using um(3) by (intro mult_left_mono) auto
  then have vmax: "int v \<le> twoTo63" using vn by simp
  have tail: "noDigit (frac @ unit @ rest)"
    using frac u(2) by (auto simp: fracText_def noDigit_def isDigit_def)
  have num: "leadingInt 0 (decimal v @ frac @ unit @ rest) = Some (int v, frac @ unit @ rest)"
    using leadingInt_digits [OF decimal_digits tail, of 0] vmax by (simp add: digitsVal_decimal)
  have hd: "isDigit (hd (decimal v @ frac @ unit @ rest))" using decimal_hd [of v] by simp
  have "int v * n div n \<le> twoTo63 div n" using vn um(3) by (intro zdiv_mono1)
  then have big: "\<not> int v > twoTo63 div n" using um(3) by simp
  have drop: "drop (length unit) (unit @ rest) = rest" by simp
  show ?thesis
  proof (cases "frac = []")
    case True
    then have r: "r = 0" using frac by (auto simp: fracText_def)
    have num': "leadingInt 0 (decimal v @ unit @ rest) = Some (int v, unit @ rest)" using num True by simp
    have hd': "isDigit (hd (decimal v))" using decimal_hd .
    show ?thesis
      using u(3) hd' big um unfolding True r append_Nil by (simp add: durationTerm_def num' u(1) [simplified])
  next
    case False
    then have p: "n = 10 ^ prec" "prec \<le> 9" "r < 10 ^ prec" and "fracText prec r frac"
      using frac by auto
    then obtain ds where ds: "frac = CHR ''.'' # ds" "ds \<noteq> []" "list_all isDigit ds" "length ds \<le> prec"
      "0 < r" "digitsVal 0 ds * 10 ^ (prec - length ds) = int r"
      using False by (auto simp: fracText_def)
    define f where "f = digitsVal 0 ds"
    define q :: int where "q = 10 ^ (prec - length ds)"
    have f0: "0 \<le> f" unfolding f_def using digitsVal_ge [OF ds(3), of 0] by simp
    have fq: "f * q = int r" "0 < q" using ds(6) by (simp_all add: f_def q_def)
    then have fpos: "0 < f" using f0 ds(5) by (cases "f = 0") auto
    have scale: "q * 10 ^ length ds = n" using ds(4) p(1) by (simp add: q_def flip: power_add)
    have nmax: "n \<le> 1000000000" using p(1,2) power_increasing [of prec 9 "10 :: int"] by simp
    have "f \<le> f * q" using mult_left_mono [of 1 q f] fq(2) fpos by simp
    moreover have "f * q < n" using p(1,3) fq(1) by (metis of_nat_less_iff of_nat_numeral of_nat_power)
    ultimately have flt: "f \<le> 1000000000" "f * q < 2 ^ 53" "q * 10 ^ length ds < 2 ^ 53" using nmax scale by auto
    have fn: "fracNanos f n (10 ^ length ds) = int r"
      using fracNanos_exact [OF fpos fq(2) _ flt(2,3)] fq(1) scale by simp
    have lf: "leadingFraction 0 1 False (ds @ unit @ rest) = (f, 10 ^ length ds, unit @ rest)"
      using leadingFraction_digits [OF ds(3) u(2), of 0 1] flt(1) by (simp add: f_def)
    have num': "leadingInt 0 (decimal v @ (CHR ''.'' # ds) @ unit @ rest) = Some (int v, CHR ''.'' # ds @ unit @ rest)"
      using num ds(1) by simp
    show ?thesis
      using hd big um fpos fits unfolding ds(1) durationTerm_def num' option.case Let_def
      by (simp add: lf u(1) [simplified] fn)
  qed
qed

section \<open>The round trip\<close>

lemma durationTerms_step:
  assumes "durationTerm s = Some (v, rest)" "s \<noteq> []" "d + v \<le> twoTo63"
  shows "durationTerms (Suc fuel) d s = durationTerms fuel (d + v) rest"
  using assms by (cases s) simp_all

lemma termEnd_decimal: "termEnd (decimal n @ t)" "termEnd []"
  using decimal_hd [of n] by (simp_all add: termEnd_def)

lemma nat_parts: "int (u div k) * int k + int (u mod k) = int u"
  by (metis div_mult_mod_eq of_nat_add of_nat_mult)

text \<open>A last term, printed with its fraction, is read back.\<close>

lemma durationTerm_frac:
  assumes "unitText unit (10 ^ prec)" "prec \<le> 9" "fracText prec (u mod 10 ^ prec) frac" "int u \<le> twoTo63"
  shows "durationTerm (decimal (u div 10 ^ prec) @ frac @ unit) = Some (int u, [])"
proof -
  have v: "int (u div 10 ^ prec) * 10 ^ prec + int (u mod 10 ^ prec) = int u"
    using nat_parts [of u "10 ^ prec"] by simp
  have f: "frac = [] \<and> u mod 10 ^ prec = 0 \<or>
      (10 :: int) ^ prec = 10 ^ prec \<and> prec \<le> 9 \<and> u mod 10 ^ prec < 10 ^ prec \<and> fracText prec (u mod 10 ^ prec) frac"
    using assms(2,3) by simp
  have "durationTerm (decimal (u div 10 ^ prec) @ frac @ unit @ []) =
      Some (int (u div 10 ^ prec) * 10 ^ prec + int (u mod 10 ^ prec), [])"
    by (rule durationTerm_print [OF assms(1) termEnd_decimal(2) f]) (simp only: v assms(4))
  then show ?thesis unfolding v append_Nil2 .
qed

lemma durationTerms_last:
  assumes "durationTerm s = Some (v, [])" "s \<noteq> []" "d + v \<le> twoTo63" "length s \<le> fuel"
  shows "durationTerms fuel d s = Some (d + v)"
proof -
  obtain k where "fuel = Suc k" using assms(2,4) by (cases fuel) auto
  then show ?thesis using durationTerms_step [OF assms(1-3), of k] by simp
qed

lemma durationTerms_more:
  assumes "unitText unit n" "int v * n \<le> twoTo63" "0 \<le> d" "d + int v * n \<le> twoTo63"
    and "termEnd rest" "length (decimal v @ unit @ rest) \<le> fuel"
    and "\<And>fuel. length rest \<le> fuel \<Longrightarrow> durationTerms fuel (d + int v * n) rest = r"
  shows "durationTerms fuel d (decimal v @ unit @ rest) = r"
proof -
  have t: "durationTerm (decimal v @ unit @ rest) = Some (int v * n, rest)"
    using durationTerm_print [OF assms(1,5), of "[]" 0 0 v] assms(2) by simp
  have ne: "decimal v @ unit @ rest \<noteq> []" by simp
  have "1 \<le> length (decimal v)" by (simp add: Suc_le_eq)
  then have "Suc (length rest) \<le> fuel" using assms(6) unfolding length_append by linarith
  then obtain k where k: "fuel = Suc k" "length rest \<le> k" by (cases fuel) auto
  show ?thesis unfolding k(1) durationTerms_step [OF t ne assms(4)] by (rule assms(7) [OF k(2)])
qed

text \<open>A duration below a second, and one of seconds, minutes and hours.\<close>

lemma frac_unit:
  assumes "unitText unit (10 ^ prec)" "prec \<le> 9" "int u \<le> twoTo63"
  shows "\<exists>out. fmtFrac prec False u unit = (out, u div 10 ^ prec) \<and>
       durationTerm (decimal (u div 10 ^ prec) @ out) = Some (int u, [])"
proof -
  obtain frac where "fmtFrac prec False u unit = (frac @ unit, u div 10 ^ prec)" "fracText prec (u mod 10 ^ prec) frac"
    using fmtFrac_parts [of prec u unit] by blast
  then show ?thesis using durationTerm_frac [OF assms(1,2) _ assms(3)] by blast
qed

lemma parse_short:
  assumes "0 < u" "u < 1000000000" "length (shortDuration u) \<le> fuel"
  shows "durationTerms fuel 0 (shortDuration u) = Some (int u)"
proof -
  have u: "int u \<le> twoTo63" using assms(2) by (simp add: twoTo63_def)
  have one: "durationTerms fuel 0 (shortDuration u) = Some (int u)"
    if h: "unitText unit (10 ^ prec)" "prec \<le> 9"
      "(if u < 1000 then (0, ''ns'') else if u < 1000000 then (3, microUnit) else (6, ''ms'')) = (prec, unit)" for prec unit
  proof -
    obtain out where o: "fmtFrac prec False u unit = (out, u div 10 ^ prec)"
      "durationTerm (decimal (u div 10 ^ prec) @ out) = Some (int u, [])"
      using frac_unit [OF h(1,2) u] by blast
    have s: "shortDuration u = decimal (u div 10 ^ prec) @ out"
      using assms(1) o(1) unfolding shortDuration_def h(3) by simp
    have ne: "decimal (u div 10 ^ prec) @ out \<noteq> []" by simp
    show ?thesis
      using durationTerms_last [OF o(2) ne, of 0 fuel] u assms(3) unfolding s by simp
  qed
  have units: "unitText ''ns'' (10 ^ 0)" "unitText microUnit (10 ^ 3)" "unitText ''ms'' (10 ^ 6)"
    using unitTexts by simp_all
  consider "u < 1000" | "\<not> u < 1000" "u < 1000000" | "\<not> u < 1000" "\<not> u < 1000000" by blast
  then show ?thesis
  proof cases
    case 1
    show ?thesis by (rule one [OF units(1)]) (simp_all only: 1 if_True)
  next
    case 2
    show ?thesis by (rule one [OF units(2)]) (simp_all add: 2)
  next
    case 3
    show ?thesis by (rule one [OF units(3)]) (simp_all add: 3)
  qed
qed

lemma parse_long:
  assumes "int u \<le> twoTo63" "length (longDuration u) \<le> fuel"
  shows "durationTerms fuel 0 (longDuration u) = Some (int u)"
proof -
  define secs where "secs = u div 10 ^ 9"
  define mins where "mins = secs div 60"
  define hours where "hours = mins div 60"
  define low where "low = secs mod 60 * 10 ^ 9 + u mod 10 ^ 9"
  have low: "low div 10 ^ 9 = secs mod 60" "low mod 10 ^ 9 = u mod 10 ^ 9"
    by (simp_all add: low_def)
  have "u = secs * 10 ^ 9 + u mod 10 ^ 9" unfolding secs_def by (rule div_mult_mod_eq [symmetric])
  moreover have "secs = mins * 60 + secs mod 60" unfolding mins_def by (rule div_mult_mod_eq [symmetric])
  moreover have "mins = hours * 60 + mins mod 60" unfolding hours_def by (rule div_mult_mod_eq [symmetric])
  moreover have "(10 :: nat) ^ 9 = 1000000000" by simp
  ultimately have u: "u = mins * 60000000000 + low" "u = hours * 3600000000000 + mins mod 60 * 60000000000 + low"
    unfolding low_def by simp_all
  have lowle: "int low \<le> twoTo63" using assms(1) u(1) by linarith
  have s9: "unitText ''s'' (10 ^ 9)" using unitTexts(4) by simp
  obtain frac where f: "fmtFrac 9 False u ''s'' = (frac @ ''s'', secs)" "fracText 9 (u mod 10 ^ 9) frac"
    using fmtFrac_parts [of 9 u "''s''"] unfolding secs_def by blast
  define sec where "sec = decimal (secs mod 60) @ frac @ ''s''"
  have sec: "durationTerm sec = Some (int low, [])"
    using durationTerm_frac [OF s9 _ _ lowle, of frac] f(2) unfolding low sec_def by simp
  have last: "durationTerms k d sec = Some (d + int low)" if "length sec \<le> k" "d + int low \<le> twoTo63" for k d
    by (rule durationTerms_last [OF sec _ that(2,1)]) (simp add: sec_def)
  have long: "longDuration u =
      (if mins = 0 then sec
       else if hours = 0 then decimal (mins mod 60) @ ''m'' @ sec
       else decimal hours @ ''h'' @ decimal (mins mod 60) @ ''m'' @ sec)"
    unfolding longDuration_def f(1) prod.case Let_def sec_def mins_def hours_def by simp
  have mn: "durationTerms k d (decimal (mins mod 60) @ ''m'' @ sec) = Some (d + int (mins mod 60) * 60000000000 + int low)"
    if "length (decimal (mins mod 60) @ ''m'' @ sec) \<le> k" "0 \<le> d"
      "d + int (mins mod 60) * 60000000000 + int low \<le> twoTo63" for k d
  proof (rule durationTerms_more [OF unitTexts(5) _ that(2) _ _ that(1)])
    show "int (mins mod 60) * 60000000000 \<le> twoTo63" "d + int (mins mod 60) * 60000000000 \<le> twoTo63"
      using that(2,3) by linarith+
    show "termEnd sec" unfolding sec_def by (rule termEnd_decimal)
  qed (rule last, simp_all add: that(3))
  consider "mins = 0" | "mins \<noteq> 0" "hours = 0" | "mins \<noteq> 0" "hours \<noteq> 0" by blast
  then show ?thesis
  proof cases
    case 1
    then show ?thesis using last [of fuel 0] assms u(1) long by simp
  next
    case 2
    then show ?thesis using mn [of fuel 0] assms u(2) long by simp
  next
    case 3
    then have l: "longDuration u = decimal hours @ ''h'' @ (decimal (mins mod 60) @ ''m'' @ sec)" using long by simp
    have le: "int hours * 3600000000000 + int (mins mod 60) * 60000000000 + int low \<le> twoTo63"
      using assms(1) u(2) by linarith
    show ?thesis
      unfolding l
    proof (rule durationTerms_more [OF unitTexts(6)])
      show "int hours * 3600000000000 \<le> twoTo63" "0 + int hours * 3600000000000 \<le> twoTo63" using le by linarith+
      show "termEnd (decimal (mins mod 60) @ ''m'' @ sec)" by (rule termEnd_decimal)
      show "length (decimal hours @ ''h'' @ decimal (mins mod 60) @ ''m'' @ sec) \<le> fuel" using assms(2) l by simp
      show "durationTerms k (0 + int hours * 3600000000000) (decimal (mins mod 60) @ ''m'' @ sec) = Some (int u)"
        if "length (decimal (mins mod 60) @ ''m'' @ sec) \<le> k" for k
        using mn [OF that, of "int hours * 3600000000000"] le u(2) by simp
    qed simp
  qed
qed

text \<open>Every 64-bit duration, the most negative one included.\<close>

lemma parseDuration_print:
  assumes "int64 d"
  shows "parseDuration (durationString d) = Some d"
proof (cases "d = 0")
  case True
  have "durationString 0 = ''0s''" by (simp add: durationString_def shortDuration_def)
  moreover have "parseDuration ''0s'' = Some 0" by code_simp
  ultimately show ?thesis using True by simp
next
  case False
  define u where "u = nat \<bar>d\<bar>"
  define out where "out = (if u < 1000000000 then shortDuration u else longDuration u)"
  have u: "0 < u" "int u = \<bar>d\<bar>" using False by (simp_all add: u_def)
  have le: "int u \<le> twoTo63" using assms u(2) unfolding int64_bounds twoTo63_def by arith
  have read: "durationTerms (length out) 0 out = Some (int u)"
    unfolding out_def using parse_short [OF u(1)] parse_long [OF le] by simp
  have "durationTerms (length ''0'') 0 ''0'' = None" "durationTerms (length '''') 0 '''' = Some 0" by code_simp+
  then have ne: "out \<noteq> ''0''" "out \<noteq> []" using read u(1) by auto
  have first: "hd out \<noteq> CHR ''-''" "hd out \<noteq> CHR ''+''"
  proof -
    obtain c s where c: "out = c # s" using ne(2) by (cases out) auto
    have some: "durationTerm out \<noteq> None" using read unfolding c by (cases "durationTerm (c # s)") simp_all
    have "hd out = CHR ''.'' \<or> isDigit (hd out)"
    proof (rule ccontr)
      assume "\<not> ?thesis"
      then have "durationTerm out = None" unfolding durationTerm_def by (simp only: simp_thms if_True)
      with some show False by simp
    qed
    then show "hd out \<noteq> CHR ''-''" "hd out \<noteq> CHR ''+''" by (auto simp: isDigit_def)
  qed
  show ?thesis
  proof (cases "d < 0")
    case True
    then have s: "durationString d = CHR ''-'' # out" by (simp add: durationString_def out_def u_def Let_def)
    have "wrap64 (- int u) = d" using True u(2) assms by (simp add: wrap64_id)
    then show ?thesis using read ne unfolding s by (simp add: parseDuration_def)
  next
    case False
    then have s: "durationString d = out" by (simp add: durationString_def out_def u_def Let_def)
    have "wrap64 (int u) = d" "int u \<le> twoTo63 - 1"
      using False u(2) assms by (simp_all add: wrap64_id int64_bounds twoTo63_def)
    then show ?thesis using read ne first unfolding s by (simp add: parseDuration_def Let_def)
  qed
qed

end
