(* ===== verification/Recovery.thy ===== *)
theory Recovery
  imports DurationText "HOL-Library.List_Lexorder" "HOL-Library.Char_ord"
begin

text \<open>
  \<open>internal/recovery\<close>: the evidence bundle of a recovery run, the published budget, the canary
  catalog, and the contract a report is checked against.  A problem is a message; a report is
  accepted when there is none.

  Kubernetes quantities are a parameter: what \<open>MilliValue\<close> and \<open>Value\<close> of a parsed quantity give.
  Iterating over a Go map takes its keys in an order that is not specified, which is a parameter
  too: a permutation of the keys.
\<close>

section \<open>Names\<close>

abbreviation SchemaVersion :: string where "SchemaVersion \<equiv> ''desktop-recovery.v1''"
abbreviation EnvKind :: string where "EnvKind \<equiv> ''kind''"
abbreviation EnvLive :: string where "EnvLive \<equiv> ''live-gitops''"
abbreviation DetectionScopeController :: string where "DetectionScopeController \<equiv> ''controller-only''"
abbreviation DetectionScopeHost :: string where "DetectionScopeHost \<equiv> ''host-to-controller''"

abbreviation ScenarioIdleToInteractive :: string where "ScenarioIdleToInteractive \<equiv> ''idle-to-interactive''"
abbreviation ScenarioIdleToGame :: string where "ScenarioIdleToGame \<equiv> ''idle-to-game''"
abbreviation ScenarioReturnToIdle :: string where "ScenarioReturnToIdle \<equiv> ''return-to-idle''"
abbreviation ScenarioScheduledLead :: string where "ScenarioScheduledLead \<equiv> ''scheduled-lead-time''"
abbreviation ScenarioReporterFailure :: string where "ScenarioReporterFailure \<equiv> ''reporter-failure''"
abbreviation ScenarioControllerRestart :: string where "ScenarioControllerRestart \<equiv> ''controller-restart-leader-change''"
abbreviation ScenarioPDB :: string where "ScenarioPDB \<equiv> ''pdb-blocked-eviction''"

abbreviation PhaseDetection :: string where "PhaseDetection \<equiv> ''user-activity-detection''"
abbreviation PhaseAdmission :: string where "PhaseAdmission \<equiv> ''admission-closure''"
abbreviation PhaseAdmissionReopen :: string where "PhaseAdmissionReopen \<equiv> ''admission-reopen''"
abbreviation PhaseEviction :: string where "PhaseEviction \<equiv> ''eviction-acceptance''"
abbreviation PhaseRelease :: string where "PhaseRelease \<equiv> ''resource-release''"
abbreviation PhaseLeaderElection :: string where "PhaseLeaderElection \<equiv> ''leader-election''"
abbreviation PhaseLeaderRestore :: string where "PhaseLeaderRestore \<equiv> ''leader-restore''"

abbreviation TriggerSyntheticStatus :: string where "TriggerSyntheticStatus \<equiv> ''synthetic-status''"
abbreviation TriggerLeadBoundary :: string where "TriggerLeadBoundary \<equiv> ''lead-boundary''"
abbreviation TriggerReporterStopped :: string where "TriggerReporterStopped \<equiv> ''reporter-stopped''"
abbreviation TriggerLeaderCancelled :: string where "TriggerLeaderCancelled \<equiv> ''leader-cancelled''"
abbreviation TriggerDrift :: string where "TriggerDrift \<equiv> ''leader-drift''"
abbreviation TriggerPDBDeleted :: string where "TriggerPDBDeleted \<equiv> ''pdb-deleted''"

abbreviation ExpectedObserved :: string where "ExpectedObserved \<equiv> ''observed''"
abbreviation ExpectedReopened :: string where "ExpectedReopened \<equiv> ''reopened''"
abbreviation ExpectedBlocked :: string where "ExpectedBlocked \<equiv> ''blocked''"
abbreviation ExpectedAbsent :: string where "ExpectedAbsent \<equiv> ''absent''"
abbreviation ExpectedNotApplicable :: string where "ExpectedNotApplicable \<equiv> ''not-applicable''"

abbreviation EvidencePodAbsent :: string where "EvidencePodAbsent \<equiv> ''pod-absent''"
abbreviation EvidenceRequestsDropped :: string where "EvidenceRequestsDropped \<equiv> ''requests-dropped''"
abbreviation EvidenceStillBound :: string where "EvidenceStillBound \<equiv> ''still-bound''"
abbreviation EvidenceTimestampAbsent :: string where "EvidenceTimestampAbsent \<equiv> ''deletionTimestamp-absent''"
abbreviation EvidenceUIDUnchanged :: string where "EvidenceUIDUnchanged \<equiv> ''uid-unchanged''"
abbreviation EvidenceAfterPDBRemoved :: string where "EvidenceAfterPDBRemoved \<equiv> ''after-pdb-removed''"
abbreviation EvidencePDB :: string where "EvidencePDB \<equiv> ''pdb-blocked''"

abbreviation RoleLossy :: string where "RoleLossy \<equiv> ''lossy''"
abbreviation RoleStandard :: string where "RoleStandard \<equiv> ''standard''"
abbreviation RoleProtected :: string where "RoleProtected \<equiv> ''protected''"
abbreviation RolePinned :: string where "RolePinned \<equiv> ''pinned''"
abbreviation RolePDB :: string where "RolePDB \<equiv> ''pdb''"
abbreviation RoleProbe :: string where "RoleProbe \<equiv> ''probe''"

abbreviation WorkloadLossy :: string where "WorkloadLossy \<equiv> ''lossy-runner''"
abbreviation WorkloadStandard :: string where "WorkloadStandard \<equiv> ''standard-runner''"
abbreviation WorkloadProtected :: string where "WorkloadProtected \<equiv> ''protected-neighbor''"
abbreviation WorkloadPinned :: string where "WorkloadPinned \<equiv> ''pinned-neighbor''"
abbreviation WorkloadPDB :: string where "WorkloadPDB \<equiv> ''pdb-runner''"
abbreviation WorkloadProbe :: string where "WorkloadProbe \<equiv> ''admission-probe''"

abbreviation UnrelatedTaintKey :: string where "UnrelatedTaintKey \<equiv> ''desktop-recovery.example/unrelated''"

section \<open>The budget\<close>

record RecoveryBudget =
  rbName :: string
  rbDetection :: duration
  rbAdmission :: duration
  rbEvictionAcceptance :: duration
  rbResourceRelease :: duration
  rbEndToEnd :: duration
  rbGPURelease :: duration
  rbFailClosedSlack :: duration
  rbLeadApplySlack :: duration
  rbLeaderRestore :: duration
  rbHarnessStaleAfter :: duration
  rbProductionStaleAfter :: duration
  rbRecommendedLeadTime :: duration

definition DefaultBudget :: RecoveryBudget where
  "DefaultBudget =
     \<lparr>rbName = ''desktop-recovery-v1'', rbDetection = 45 * second, rbAdmission = 45 * second,
      rbEvictionAcceptance = 60 * second, rbResourceRelease = 90 * second, rbEndToEnd = 90 * second,
      rbGPURelease = 90 * second, rbFailClosedSlack = 45 * second, rbLeadApplySlack = 45 * second,
      rbLeaderRestore = 30 * second, rbHarnessStaleAfter = 20 * second, rbProductionStaleAfter = minute,
      rbRecommendedLeadTime = 3 * minute\<rparr>"

definition AllowedBudget :: "RecoveryBudget \<Rightarrow> string \<Rightarrow> string \<Rightarrow> duration" where
  "AllowedBudget budget scenario phase =
     (if phase = PhaseLeaderElection \<or> phase = PhaseLeaderRestore then rbLeaderRestore budget
      else if phase = PhaseEviction then rbEvictionAcceptance budget
      else if phase = PhaseRelease then rbResourceRelease budget
      else if phase = PhaseAdmission \<or> phase = PhaseAdmissionReopen then rbAdmission budget
      else if phase = PhaseDetection
      then if scenario = ScenarioReporterFailure
           then wrap64 (rbHarnessStaleAfter budget + rbFailClosedSlack budget)
           else if scenario = ScenarioScheduledLead then rbLeadApplySlack budget
           else rbDetection budget
      else 0)"

text \<open>
  \<open>JSONDuration.MarshalJSON\<close>: the printed duration in quotes.  What \<open>String\<close> prints needs no escape.
\<close>

definition marshalJSONDuration :: "duration \<Rightarrow> string" where
  "marshalJSONDuration d = CHR 0x22 # durationString d @ [CHR 0x22]"

text \<open>
  \<open>JSONDuration.UnmarshalJSON\<close>, for the raw bytes of a JSON value; \<open>parseError\<close> is the text of the
  error of \<open>time.ParseDuration\<close>.  A lone quote would make the slice expression panic; it is no JSON value.
\<close>

definition unmarshalJSONDuration :: "(string \<Rightarrow> msg) \<Rightarrow> string \<Rightarrow> msg + duration" where
  "unmarshalJSONDuration parseError raw =
     (if raw = [] \<or> raw = ''null'' then Inr 0
      else if hd raw \<noteq> CHR 0x22 then Inl [Lit ''duration '', FStr raw, Lit '' must be a string'']
      else case parseDuration (butlast (tl raw)) of
        None \<Rightarrow> Inl (parseError (butlast (tl raw)))
      | Some d \<Rightarrow> Inr d)"

lemma unmarshal_marshal:
  assumes "int64 d"
  shows "unmarshalJSONDuration parseError (marshalJSONDuration d) = Inr d"
  using parseDuration_print [OF assms] by (simp add: unmarshalJSONDuration_def marshalJSONDuration_def)

definition RequiredScenarios :: "string list" where
  "RequiredScenarios =
     [ScenarioIdleToInteractive, ScenarioReturnToIdle, ScenarioIdleToGame, ScenarioScheduledLead,
      ScenarioReporterFailure, ScenarioControllerRestart, ScenarioPDB]"

section \<open>The catalog\<close>

record WorkloadProfile =
  wpName :: string
  wpRole :: string
  wpCPU :: string
  wpCPUMillis :: int
  wpMemory :: string
  wpMemoryBytes :: int
  wpGPU :: int
  wpDisposable :: bool
  wpOptedIn :: bool
  wpLossy :: bool
  wpPinned :: bool
  wpNodeSelector :: bool

text \<open>\<open>resource.MustParse(s)\<close>, read by \<open>MilliValue\<close> and by \<open>Value\<close>.\<close>

type_synonym quantities = "string \<Rightarrow> int \<times> int"

definition profile ::
    "quantities \<Rightarrow> string \<Rightarrow> string \<Rightarrow> string \<Rightarrow> string \<Rightarrow> bool \<Rightarrow> bool \<Rightarrow> bool \<Rightarrow> bool \<Rightarrow> bool \<Rightarrow> WorkloadProfile" where
  "profile q name role cpu memory disposable optedIn lossy pinned nodeSelector =
     \<lparr>wpName = name, wpRole = role, wpCPU = cpu, wpCPUMillis = fst (q cpu), wpMemory = memory,
      wpMemoryBytes = snd (q memory), wpGPU = 0, wpDisposable = disposable, wpOptedIn = optedIn,
      wpLossy = lossy, wpPinned = pinned, wpNodeSelector = nodeSelector\<rparr>"

definition Catalog :: "quantities \<Rightarrow> WorkloadProfile list" where
  "Catalog q =
     [profile q WorkloadLossy RoleLossy ''100m'' ''64Mi'' True True True False True,
      profile q WorkloadStandard RoleStandard ''50m'' ''32Mi'' True True False False False,
      profile q WorkloadProtected RoleProtected ''200m'' ''128Mi'' False False False False False,
      profile q WorkloadPinned RolePinned ''20m'' ''16Mi'' False True False True False,
      profile q WorkloadPDB RolePDB ''80m'' ''48Mi'' True True True False True,
      profile q WorkloadProbe RoleProbe ''10m'' ''8Mi'' True False False False True]"

definition Lookup :: "quantities \<Rightarrow> string \<Rightarrow> WorkloadProfile option" where
  "Lookup q name = List.find (\<lambda>p. wpName p = name) (Catalog q)"

definition KindLiveRunRemaining :: "string list" where
  "KindLiveRunRemaining =
     [''Pin the reviewed chart version and image digest in the home repository GitOps source. This repository does not deploy it.'',
      ''Canary only homelabdesktop after the node and Longhorn replica-scheduling review (allowScheduling: false).'',
      ''Confirm the ArgoCD revision is Synced and Healthy, then confirm controller leadership and reporter heartbeats. Deployment readiness is not recovery.'',
      ''Drive idle-to-interactive, idle-to-game, return-to-idle, scheduled lead time, reporter failure, controller restart/leader change, and PDB-blocked eviction with the real host reporter.'',
      ''Measure GPU release on the desktop with the device plugin and a host sample such as nvidia-smi. Kind has no GPU.'',
      ''Record desktop-visible recovery separately from eviction acceptance and from Pod readiness.'',
      ''Use the production staleAfter from the canary values. Do not shorten it to meet the budget.'',
      ''Roll back through GitOps: stop eviction, delete the NodeActivity while the controller is running, then revert the home pin. Eviction acceptance is not proof the previous revision is restored.'']"

section \<open>The report\<close>

record NamespaceSnapshot =
  nsNamespace :: string
  nsPodUIDs :: "string list"

record PhaseSample =
  spPhase :: string
  spApplicable :: bool
  spExpected :: string
  spTrigger :: string
  spTriggerAt :: time
  spObservedAt :: "time option"
  spDurationMillis :: "int option"
  spBudget :: duration
  spWithinBudget :: bool
  spSatisfiesRecovery :: bool
  spAcceptanceGapMillis :: "int option"
  spEvidence :: string

record WorkloadObservation =
  woName :: string
  woRole :: string
  woDisposable :: bool
  woOptedIn :: bool
  woLossy :: bool
  woPinned :: bool
  woCPUMillis :: int
  woMemoryBytes :: int
  woGPU :: int
  woUIDBefore :: string
  woUIDAfter :: string
  woPhaseAfter :: string
  woHoldsResourcesAfter :: bool
  woEvictedDuringScenario :: bool
  woStage :: string

record BlockedCase =
  bcWorkload :: string
  bcReason :: string
  bcEvictionAccepted :: bool
  bcResourcesReleased :: bool
  bcEvidence :: string

record ScenarioResult =
  scName :: string
  scSamples :: "PhaseSample list"
  scWorkloads :: "WorkloadObservation list"
  scBlocked :: "BlockedCase list"
  scNotes :: "string list"
  scLeadTime :: duration
  scWindowStart :: "time option"
  scPreWindowReleaseProven :: bool

record Report =
  rpSchemaVersion :: string
  rpEnvironment :: string
  rpDetectionScope :: string
  rpBudget :: RecoveryBudget
  rpPerformedAt :: time
  rpClusterContext :: string
  rpNodeName :: string
  rpController :: string
  rpGPUMeasured :: bool
  rpGPUEvidence :: string
  rpDesktopVisible :: bool
  rpDesktopEvidence :: string
  rpPerformanceClaimed :: bool
  rpUnrelatedTaintPreserved :: bool
  rpProtectedNamespaces :: "NamespaceSnapshot list"
  rpProtectedNamespacesAfter :: "NamespaceSnapshot list"
  rpWorkloadCatalog :: "WorkloadProfile list"
  rpScenarios :: "ScenarioResult list"
  rpLiveRunRemaining :: "string list"

end
