(* ===== verification/Acceptance.thy ===== *)
theory Acceptance
  imports Recovery
begin

text \<open>
  \<open>internal/recovery/evaluate.go\<close> and \<open>lead.go\<close>: the checks of a report, in the order of the code, each giving
  the list of the problems it found, and the choice of a lead window for the harness.
\<close>

section \<open>Problems\<close>

text \<open>One problem, when the condition holds.\<close>

definition problem :: "bool \<Rightarrow> msg \<Rightarrow> msg list" where
  "problem c m = (if c then [m] else [])"

lemma problem_Nil [simp]: "problem c m = [] \<longleftrightarrow> \<not> c" "[] = problem c m \<longleftrightarrow> \<not> c"
  by (simp_all add: problem_def)

section \<open>Header, budget, scope, catalog, namespaces\<close>

definition headerProblems :: "Report \<Rightarrow> msg list" where
  "headerProblems report =
     problem (rpSchemaVersion report \<noteq> SchemaVersion)
       [Lit ''schemaVersion = '', FQuoted (rpSchemaVersion report), Lit '', want '', FStr SchemaVersion] @
     problem (rpEnvironment report \<noteq> EnvKind \<and> rpEnvironment report \<noteq> EnvLive)
       [Lit ''environment = '', FQuoted (rpEnvironment report), Lit '', want '', FStr EnvKind, Lit '' or '', FStr EnvLive] @
     problem (rpClusterContext report = '''' \<or> rpNodeName report = '''' \<or> rpController report = '''')
       [Lit ''clusterContext, nodeName, and controller are required''] @
     problem (rpEnvironment report = EnvKind \<and> \<not> hasPrefix (rpClusterContext report) ''kind-'')
       [Lit ''kind context '', FQuoted (rpClusterContext report), Lit '' must start with kind-'']"

definition checkBudget :: "string \<Rightarrow> duration \<Rightarrow> duration \<Rightarrow> msg list" where
  "checkBudget name got want =
     problem (got \<noteq> want) [Lit ''budget.'', FStr name, Lit '' = '', FDur got, Lit '', want '', FDur want]"

definition budgetProblems :: "Report \<Rightarrow> msg list" where
  "budgetProblems report =
     (let got = rpBudget report; want = DefaultBudget
      in problem (rbName got \<noteq> rbName want)
           [Lit ''budget.name = '', FQuoted (rbName got), Lit '', want '', FQuoted (rbName want)] @
         checkBudget ''detection'' (rbDetection got) (rbDetection want) @
         checkBudget ''admission'' (rbAdmission got) (rbAdmission want) @
         checkBudget ''evictionAcceptance'' (rbEvictionAcceptance got) (rbEvictionAcceptance want) @
         checkBudget ''resourceRelease'' (rbResourceRelease got) (rbResourceRelease want) @
         checkBudget ''endToEnd'' (rbEndToEnd got) (rbEndToEnd want) @
         checkBudget ''gpuRelease'' (rbGPURelease got) (rbGPURelease want) @
         checkBudget ''failClosedSlack'' (rbFailClosedSlack got) (rbFailClosedSlack want) @
         checkBudget ''leadApplySlack'' (rbLeadApplySlack got) (rbLeadApplySlack want) @
         checkBudget ''leaderRestore'' (rbLeaderRestore got) (rbLeaderRestore want) @
         checkBudget ''productionStaleAfter'' (rbProductionStaleAfter got) (rbProductionStaleAfter want) @
         checkBudget ''recommendedLeadTime'' (rbRecommendedLeadTime got) (rbRecommendedLeadTime want) @
         problem (rbEndToEnd got \<noteq> rbResourceRelease got)
           [Lit ''budget.endToEnd must equal budget.resourceRelease''] @
         (if rpEnvironment report = EnvKind
          then checkBudget ''harnessStaleAfter'' (rbHarnessStaleAfter got) (rbHarnessStaleAfter want)
          else if rpEnvironment report = EnvLive
          then problem (rbHarnessStaleAfter got \<noteq> rbProductionStaleAfter got)
                 [Lit ''live budget.harnessStaleAfter must equal productionStaleAfter'']
          else []))"

definition scopeProblems :: "Report \<Rightarrow> msg list" where
  "scopeProblems report =
     (if rpEnvironment report = EnvKind
      then problem (rpDetectionScope report \<noteq> DetectionScopeController)
             [Lit ''kind detectionScope = '', FQuoted (rpDetectionScope report), Lit '', want '', FStr DetectionScopeController] @
           problem (rpGPUMeasured report) [Lit ''kind cannot set gpuMeasured''] @
           problem (rpDesktopVisible report) [Lit ''kind cannot set desktopVisible''] @
           problem (rpGPUEvidence report = '''' \<or> \<not> contains (rpGPUEvidence report) ''no GPU'')
             [Lit ''kind gpuEvidence must say no GPU was measured''] @
           problem (rpLiveRunRemaining report \<noteq> KindLiveRunRemaining)
             [Lit ''kind liveRunRemaining does not match the canonical live-run list'']
      else if rpEnvironment report = EnvLive
      then problem (rpDetectionScope report \<noteq> DetectionScopeHost \<and> rpDetectionScope report \<noteq> DetectionScopeController)
             [Lit ''live detectionScope is invalid'']
      else [])"

text \<open>A profile printed with \<open>%+v\<close>.\<close>

definition profileText :: "WorkloadProfile \<Rightarrow> msg" where
  "profileText p =
     [Lit ''{Name:'', FStr (wpName p), Lit '' Role:'', FStr (wpRole p), Lit '' CPU:'', FStr (wpCPU p),
      Lit '' CPUMillis:'', FInt (wpCPUMillis p), Lit '' Memory:'', FStr (wpMemory p),
      Lit '' MemoryBytes:'', FInt (wpMemoryBytes p), Lit '' GPU:'', FInt (wpGPU p),
      Lit '' Disposable:'', FBool (wpDisposable p), Lit '' OptedIn:'', FBool (wpOptedIn p),
      Lit '' Lossy:'', FBool (wpLossy p), Lit '' Pinned:'', FBool (wpPinned p),
      Lit '' NodeSelector:'', FBool (wpNodeSelector p), Lit ''}'']"

fun compareCatalog :: "nat \<Rightarrow> WorkloadProfile list \<Rightarrow> WorkloadProfile list \<Rightarrow> msg list" where
  "compareCatalog i (got # gots) (want # wants) =
     problem (got \<noteq> want)
       ([Lit ''workload catalog['', FInt (int i), Lit ''] = ''] @ profileText got @ [Lit '', want ''] @ profileText want) @
     compareCatalog (Suc i) gots wants"
| "compareCatalog i _ _ = []"

definition catalogProblems :: "quantities \<Rightarrow> Report \<Rightarrow> msg list" where
  "catalogProblems q report =
     (if length (rpWorkloadCatalog report) \<noteq> length (Catalog q)
      then [[Lit ''workload catalog has '', FInt (int (length (rpWorkloadCatalog report))), Lit '' entries, want '',
             FInt (int (length (Catalog q)))]]
      else compareCatalog 0 (rpWorkloadCatalog report) (Catalog q))"

text \<open>A map keyed by namespace: a later snapshot of the same namespace replaces an earlier one.\<close>

definition indexSnapshots :: "NamespaceSnapshot list \<Rightarrow> (string \<rightharpoonup> string list)" where
  "indexSnapshots snapshots = foldl (\<lambda>m s. m(nsNamespace s \<mapsto> sort (nsPodUIDs s))) Map.empty snapshots"

definition namespaceProblems :: "(string list \<Rightarrow> string list) \<Rightarrow> Report \<Rightarrow> msg list" where
  "namespaceProblems ord report =
     (if rpEnvironment report \<noteq> EnvKind then []
      else
        let start = indexSnapshots (rpProtectedNamespaces report);
            finish = indexSnapshots (rpProtectedNamespacesAfter report)
        in problem (start ''kube-system'' = None) [Lit ''protectedNamespacesBefore is missing kube-system''] @
           concat (map (\<lambda>namespace.
               problem (finish namespace = None \<or> start namespace \<noteq> finish namespace)
                 [Lit ''protected namespace '', FStr namespace, Lit '' pod UIDs changed''])
             (ord (remdups (map nsNamespace (rpProtectedNamespaces report))))))"

section \<open>Samples\<close>

definition minAcceptanceGap :: int where
  "minAcceptanceGap = 1000"

definition allowedTriggers :: "string \<Rightarrow> string list" where
  "allowedTriggers scenario =
     (if scenario = ScenarioScheduledLead then [TriggerLeadBoundary]
      else if scenario = ScenarioReporterFailure then [TriggerReporterStopped]
      else if scenario = ScenarioControllerRestart then [TriggerLeaderCancelled, TriggerDrift, TriggerSyntheticStatus]
      else if scenario = ScenarioPDB then [TriggerSyntheticStatus, TriggerPDBDeleted]
      else [TriggerSyntheticStatus])"

definition requireSample :: "ScenarioResult \<Rightarrow> string \<Rightarrow> string \<Rightarrow> bool \<Rightarrow> msg list" where
  "requireSample scenario phase expected applicable =
     problem (\<not> list_ex (\<lambda>s. spPhase s = phase \<and> spExpected s = expected \<and> spApplicable s = applicable) (scSamples scenario))
       [FStr (scName scenario), Lit '': missing '', FStr phase, Lit '' sample expected='', FStr expected,
        Lit '' applicable='', FBool applicable]"

text \<open>The first sample of the phase decides.\<close>

definition requireInactive :: "ScenarioResult \<Rightarrow> string \<Rightarrow> msg list" where
  "requireInactive scenario phase =
     (case List.find (\<lambda>s. spPhase s = phase) (scSamples scenario) of
        None \<Rightarrow> [[FStr (scName scenario), Lit '': missing inactive '', FStr phase, Lit '' sample'']]
      | Some s \<Rightarrow>
          if spApplicable s \<or> spSatisfiesRecovery s \<or> spExpected s \<noteq> ExpectedAbsent
          then [[FStr (scName scenario), Lit '': '', FStr phase, Lit '' must be inactive and absent'']]
          else problem (\<not> contains (spEvidence s) EvidenceUIDUnchanged)
                 [FStr (scName scenario), Lit '': '', FStr phase, Lit '' evidence must contain '', FStr EvidenceUIDUnchanged])"

definition requireSatisfyingRelease :: "ScenarioResult \<Rightarrow> msg list" where
  "requireSatisfyingRelease scenario =
     problem (\<not> list_ex (\<lambda>s. spPhase s = PhaseRelease \<and> spSatisfiesRecovery s) (scSamples scenario))
       [FStr (scName scenario), Lit '': resource release did not satisfy recovery'']"

definition requireRecoveryPhases :: "ScenarioResult \<Rightarrow> bool \<Rightarrow> msg list" where
  "requireRecoveryPhases scenario demandRelease =
     requireSample scenario PhaseDetection ExpectedObserved True @
     requireSample scenario PhaseAdmission ExpectedObserved True @
     (if scName scenario = ScenarioPDB
      then requireSample scenario PhaseEviction ExpectedBlocked True @
           requireSample scenario PhaseRelease ExpectedBlocked True @
           requireSample scenario PhaseEviction ExpectedObserved True @
           requireSatisfyingRelease scenario
      else requireSample scenario PhaseEviction ExpectedObserved True @
           (if demandRelease then requireSatisfyingRelease scenario else []))"

text \<open>\<open>time.Duration(millis) * time.Millisecond\<close>, which wraps around.\<close>

definition sampleDuration :: "int \<Rightarrow> duration" where
  "sampleDuration millis = wrap64 (millis * 1000000)"

definition recoveryProblems :: "RecoveryBudget \<Rightarrow> (msg \<Rightarrow> msg) \<Rightarrow> PhaseSample \<Rightarrow> duration \<Rightarrow> msg list" where
  "recoveryProblems budget add sample got =
     (if spSatisfiesRecovery sample
      then problem (spPhase sample \<noteq> PhaseRelease \<or> spExpected sample \<noteq> ExpectedObserved)
             (add [Lit ''only an observed resource-release sample can satisfy recovery'']) @
           problem (\<not> contains (spEvidence sample) EvidencePodAbsent \<or>
                    \<not> contains (spEvidence sample) EvidenceRequestsDropped)
             (add [Lit ''recovery evidence requires '', FStr EvidencePodAbsent, Lit '' and '', FStr EvidenceRequestsDropped]) @
           problem (contains (spEvidence sample) EvidenceStillBound)
             (add [Lit ''recovery evidence still says '', FStr EvidenceStillBound]) @
           problem (case spAcceptanceGapMillis sample of None \<Rightarrow> True | Some gap \<Rightarrow> gap < minAcceptanceGap)
             (add [Lit ''acceptance gap must be at least '', FInt minAcceptanceGap,
                   Lit ''ms so acceptance is not treated as release'']) @
           problem (got > rbEndToEnd budget)
             (add [Lit ''end-to-end duration '', FDur got, Lit '' exceeds '', FDur (rbEndToEnd budget)])
      else [])"

definition blockedProblems :: "(msg \<Rightarrow> msg) \<Rightarrow> PhaseSample \<Rightarrow> msg list" where
  "blockedProblems add sample =
     (if spExpected sample = ExpectedBlocked
      then problem (spSatisfiesRecovery sample) (add [Lit ''blocked sample cannot satisfy recovery'']) @
           problem (spPhase sample = PhaseRelease \<and> \<not> contains (spEvidence sample) EvidenceStillBound)
             (add [Lit ''blocked release must contain '', FStr EvidenceStillBound]) @
           problem (spPhase sample = PhaseEviction \<and> \<not> contains (spEvidence sample) EvidenceTimestampAbsent)
             (add [Lit ''blocked eviction must contain '', FStr EvidenceTimestampAbsent])
      else [])"

definition observedProblems ::
    "RecoveryBudget \<Rightarrow> (msg \<Rightarrow> msg) \<Rightarrow> PhaseSample \<Rightarrow> duration \<Rightarrow> time \<Rightarrow> int \<Rightarrow> msg list" where
  "observedProblems budget add sample allowed observedAt millis =
     (let got = sampleDuration millis; within = (got \<le> allowed)
      in problem (observedAt < spTriggerAt sample) (add [Lit ''observed before trigger'']) @
         problem (spWithinBudget sample \<noteq> within)
           (add [Lit ''withinBudget='', FBool (spWithinBudget sample), Lit '' but duration '', FDur got,
                 Lit '' allowed '', FDur allowed]) @
         problem (\<not> within) (add [Lit ''duration '', FDur got, Lit '' exceeds '', FDur allowed]) @
         recoveryProblems budget add sample got @
         blockedProblems add sample)"

definition checkSample :: "RecoveryBudget \<Rightarrow> ScenarioResult \<Rightarrow> PhaseSample \<Rightarrow> msg list" where
  "checkSample budget scenario sample =
     (let add = (\<lambda>m. [FStr (scName scenario), Lit '' '', FStr (spPhase sample), Lit '': ''] @ m);
          allowed = AllowedBudget budget (scName scenario) (spPhase sample)
      in problem (spBudget sample \<noteq> allowed)
           (add [Lit ''budget '', FDur (spBudget sample), Lit '', want '', FDur allowed]) @
         problem (spPhase sample = PhaseEviction \<and> spSatisfiesRecovery sample)
           (add [Lit ''eviction acceptance cannot satisfy recovery'']) @
         (if \<not> spApplicable sample
          then problem (spSatisfiesRecovery sample \<or>
                        (spExpected sample \<noteq> ExpectedAbsent \<and> spExpected sample \<noteq> ExpectedNotApplicable))
                 (add [Lit ''inactive sample is not absent''])
          else if spExpected sample \<noteq> ExpectedObserved \<and> spExpected sample \<noteq> ExpectedReopened \<and>
                  spExpected sample \<noteq> ExpectedBlocked
          then [add [Lit ''unexpected expected value '', FQuoted (spExpected sample)]]
          else case (spObservedAt sample, spDurationMillis sample) of
            (Some observedAt, Some millis) \<Rightarrow> observedProblems budget add sample allowed observedAt millis
          | _ \<Rightarrow> [add [Lit ''missing observation timestamp'']]))"

section \<open>Disruption budgets and lead windows\<close>

definition pdbCase :: "BlockedCase \<Rightarrow> bool" where
  "pdbCase b \<longleftrightarrow> bcWorkload b = WorkloadPDB \<and> bcReason b = ''pdb''"

definition checkPDB :: "ScenarioResult \<Rightarrow> msg list" where
  "checkPDB scenario =
     (let add = (\<lambda>text. [FStr (scName scenario), Lit text]);
          cases = filter pdbCase (scBlocked scenario)
      in concat (map (\<lambda>b.
             problem (bcEvictionAccepted b \<or> bcResourcesReleased b)
               (add '': pdb blocked case must not accept eviction or release resources'') @
             problem (\<not> contains (bcEvidence b) EvidencePDB \<or> \<not> contains (bcEvidence b) EvidenceStillBound)
               (add '': pdb blocked evidence must include pdb-blocked and still-bound'')) cases) @
         problem (cases = []) (add ('': missing pdb blocked case for '' @ WorkloadPDB)) @
         problem (\<not> list_ex (\<lambda>s. spPhase s = PhaseRelease \<and> spSatisfiesRecovery s \<and> spTrigger s = TriggerPDBDeleted \<and>
                     contains (spEvidence s) EvidenceAfterPDBRemoved) (scSamples scenario))
           (add '': missing resource release after the PDB was removed''))"

text \<open>The last satisfying release sample is the one that is compared with the window.\<close>

definition lastRelease :: "PhaseSample list \<Rightarrow> PhaseSample option" where
  "lastRelease samples =
     foldl (\<lambda>r s. if spPhase s = PhaseRelease \<and> spSatisfiesRecovery s then Some s else r) None samples"

definition checkLead :: "Report \<Rightarrow> ScenarioResult \<Rightarrow> msg list" where
  "checkLead report scenario =
     (case scWindowStart scenario of
        None \<Rightarrow> [[FStr (scName scenario), Lit '': leadTime and windowStart are required'']]
      | Some start \<Rightarrow>
          if scLeadTime scenario \<le> 0
          then [[FStr (scName scenario), Lit '': leadTime and windowStart are required'']]
          else if scPreWindowReleaseProven scenario
          then problem (scLeadTime scenario < rbEndToEnd (rpBudget report))
                 [FStr (scName scenario), Lit '': pre-window release requires leadTime >= endToEnd budget''] @
               problem (\<not> (case lastRelease (scSamples scenario) of
                            None \<Rightarrow> False
                          | Some s \<Rightarrow> (case spObservedAt s of None \<Rightarrow> False | Some t \<Rightarrow> t < start)))
                 [FStr (scName scenario), Lit '': pre-window release is not before windowStart'']
          else [])"

section \<open>Workloads\<close>

text \<open>Whether the workload is expected to be evicted, and whether that is checked.\<close>

definition expectedEviction :: "string \<Rightarrow> string \<Rightarrow> string \<Rightarrow> bool \<times> bool" where
  "expectedEviction scenario workload stage =
     (if workload = WorkloadProtected \<or> workload = WorkloadPinned then (False, True)
      else if scenario = ScenarioIdleToInteractive \<or> scenario = ScenarioScheduledLead \<or> scenario = ScenarioReporterFailure
      then (workload = WorkloadLossy, workload = WorkloadLossy \<or> workload = WorkloadStandard)
      else if scenario = ScenarioIdleToGame \<or> scenario = ScenarioControllerRestart
      then (workload = WorkloadLossy \<or> workload = WorkloadStandard, workload = WorkloadLossy \<or> workload = WorkloadStandard)
      else if scenario = ScenarioReturnToIdle
      then (False, workload = WorkloadLossy \<or> workload = WorkloadStandard)
      else if scenario = ScenarioPDB
      then if workload = WorkloadPDB
           then if stage = ''blocked'' then (False, True)
                else if stage = ''cleared'' then (True, True)
                else (False, False)
           else if workload = WorkloadLossy then (True, True)
           else if workload = WorkloadStandard then (False, True)
           else (False, False)
      else (False, False))"

definition hasStage :: "ScenarioResult \<Rightarrow> string \<Rightarrow> bool" where
  "hasStage scenario stage = list_ex (\<lambda>obs. woName obs = WorkloadPDB \<and> woStage obs = stage) (scWorkloads scenario)"

definition matchesProfile :: "WorkloadObservation \<Rightarrow> WorkloadProfile \<Rightarrow> bool" where
  "matchesProfile obs p \<longleftrightarrow>
     woRole obs = wpRole p \<and> woDisposable obs = wpDisposable p \<and> woOptedIn obs = wpOptedIn p \<and>
     woLossy obs = wpLossy p \<and> woPinned obs = wpPinned p \<and> woCPUMillis obs = wpCPUMillis p \<and>
     woMemoryBytes obs = wpMemoryBytes p \<and> woGPU obs = wpGPU p"

definition isProtected :: "WorkloadProfile \<Rightarrow> bool" where
  "isProtected p \<longleftrightarrow> wpRole p = RoleProtected \<or> wpPinned p"

definition checkWorkload :: "quantities \<Rightarrow> ScenarioResult \<Rightarrow> WorkloadObservation \<Rightarrow> msg list" where
  "checkWorkload q scenario obs =
     (let add = (\<lambda>m. [FStr (scName scenario), Lit '': ''] @ m)
      in case Lookup q (woName obs) of
        None \<Rightarrow> [add [Lit ''unknown workload '', FStr (woName obs)]]
      | Some p \<Rightarrow>
          let workload = (\<lambda>text. add [Lit ''workload '', FStr (woName obs), Lit text]);
              (wantEvict, gated) = expectedEviction (scName scenario) (woName obs) (woStage obs)
          in problem (\<not> matchesProfile obs p) (workload '' does not match the catalog'') @
             problem (woGPU obs \<noteq> 0) (workload '' requests a GPU; Kind must not'') @
             (if woEvictedDuringScenario obs
              then problem (\<not> woDisposable obs \<or> \<not> woOptedIn obs \<or> woPinned obs \<or> woHoldsResourcesAfter obs)
                     (workload '' eviction breaks the disposable opt-in contract'')
              else problem (woUIDBefore obs \<noteq> '''' \<and> woUIDBefore obs \<noteq> woUIDAfter obs)
                     (workload '' changed UID without an eviction observation'')) @
             problem (isProtected p \<and>
                      (woEvictedDuringScenario obs \<or> \<not> woHoldsResourcesAfter obs \<or> woUIDBefore obs = '''' \<or>
                       woUIDBefore obs \<noteq> woUIDAfter obs))
               (add [Lit ''protected workload '', FStr (woName obs), Lit '' was touched'']) @
             problem (gated \<and> woEvictedDuringScenario obs \<noteq> wantEvict)
               (add [Lit ''workload '', FStr (woName obs), Lit '' stage '', FQuoted (woStage obs), Lit '' evicted='',
                     FBool (woEvictedDuringScenario obs), Lit '', want '', FBool wantEvict]) @
             problem (gated \<and> \<not> wantEvict \<and> \<not> woHoldsResourcesAfter obs)
               (workload '' should still hold its requests''))"

text \<open>The maps \<open>seen\<close> and \<open>seenProtected\<close>, as tests on the observations.\<close>

definition seenWorkload :: "ScenarioResult \<Rightarrow> string \<Rightarrow> bool" where
  "seenWorkload scenario name = list_ex (\<lambda>obs. woName obs = name) (scWorkloads scenario)"

definition seenProtected :: "quantities \<Rightarrow> ScenarioResult \<Rightarrow> string \<Rightarrow> bool" where
  "seenProtected q scenario name =
     list_ex (\<lambda>obs. woName obs = name \<and> (case Lookup q name of None \<Rightarrow> False | Some p \<Rightarrow> isProtected p))
       (scWorkloads scenario)"

definition checkWorkloads :: "quantities \<Rightarrow> ScenarioResult \<Rightarrow> msg list" where
  "checkWorkloads q scenario =
     (let add = (\<lambda>m. [FStr (scName scenario), Lit '': ''] @ m)
      in if scWorkloads scenario = [] then [add [Lit ''workload observations are required'']]
         else
           concat (map (checkWorkload q scenario) (scWorkloads scenario)) @
           concat (map (\<lambda>name.
               problem (\<not> seenWorkload scenario name) (add [Lit ''missing workload observation '', FStr name]) @
               problem ((name = WorkloadProtected \<or> name = WorkloadPinned) \<and> \<not> seenProtected q scenario name)
                 (add [Lit ''missing protected observation '', FStr name]))
             [WorkloadProtected, WorkloadPinned, WorkloadLossy, WorkloadStandard]) @
           problem (scName scenario = ScenarioPDB \<and>
                    (\<not> seenWorkload scenario WorkloadPDB \<or> \<not> hasStage scenario ''blocked'' \<or> \<not> hasStage scenario ''cleared''))
             (add [Lit ''pdb-runner needs blocked and cleared observations'']))"

section \<open>Scenarios\<close>

definition checkScenario :: "quantities \<Rightarrow> Report \<Rightarrow> ScenarioResult \<Rightarrow> msg list" where
  "checkScenario q report scenario =
     (let add = (\<lambda>m. [FStr (scName scenario), Lit '': ''] @ m);
          name = scName scenario
      in concat (map (\<lambda>s.
             problem (spTrigger s \<notin> set (allowedTriggers name))
               (add [Lit ''sample '', FStr (spPhase s), Lit '' has trigger '', FQuoted (spTrigger s)]) @
             checkSample (rpBudget report) scenario s) (scSamples scenario)) @
         (if name = ScenarioReturnToIdle
          then requireSample scenario PhaseDetection ExpectedObserved True @
               requireSample scenario PhaseAdmissionReopen ExpectedReopened True @
               requireInactive scenario PhaseEviction @
               requireInactive scenario PhaseRelease
          else if name = ScenarioControllerRestart
          then requireSample scenario PhaseLeaderElection ExpectedObserved True @
               requireSample scenario PhaseLeaderRestore ExpectedObserved True @
               requireRecoveryPhases scenario True
          else if name = ScenarioPDB
          then requireRecoveryPhases scenario False @ checkPDB scenario
          else requireRecoveryPhases scenario True) @
         checkWorkloads q scenario @
         (if name = ScenarioScheduledLead then checkLead report scenario
          else problem (scPreWindowReleaseProven scenario \<or> scLeadTime scenario \<noteq> 0 \<or> scWindowStart scenario \<noteq> None)
                 (add [Lit ''lead fields are only valid for '', FStr ScenarioScheduledLead])))"

text \<open>A scenario whose name was seen before is reported and skipped.\<close>

fun duplicateScenarios :: "string list \<Rightarrow> ScenarioResult list \<Rightarrow> msg list" where
  "duplicateScenarios seen [] = []"
| "duplicateScenarios seen (s # ss) =
     (if scName s \<in> set seen
      then [Lit ''duplicate scenario '', FStr (scName s)] # duplicateScenarios seen ss
      else duplicateScenarios (scName s # seen) ss)"

definition firstScenario :: "Report \<Rightarrow> string \<Rightarrow> ScenarioResult option" where
  "firstScenario report name = List.find (\<lambda>s. scName s = name) (rpScenarios report)"

definition scenarioProblems :: "quantities \<Rightarrow> (string list \<Rightarrow> string list) \<Rightarrow> Report \<Rightarrow> msg list" where
  "scenarioProblems q ord report =
     duplicateScenarios [] (rpScenarios report) @
     concat (map (\<lambda>name.
         case firstScenario report name of
           None \<Rightarrow> [[Lit ''missing scenario '', FStr name]]
         | Some scenario \<Rightarrow> checkScenario q report scenario) RequiredScenarios) @
     concat (map (\<lambda>name. problem (name \<notin> set RequiredScenarios) [Lit ''unknown scenario '', FStr name])
       (ord (remdups (map scName (rpScenarios report)))))"

section \<open>Claims\<close>

definition claimProblems :: "(string \<Rightarrow> string) \<Rightarrow> Report \<Rightarrow> msg list" where
  "claimProblems uni report =
     (if \<not> rpPerformanceClaimed report then []
      else
        problem (rpEnvironment report \<noteq> EnvLive)
          [Lit ''performanceClaimed is valid only for a live-gitops report''] @
        problem (rpDetectionScope report \<noteq> DetectionScopeHost)
          [Lit ''performanceClaimed requires host-to-controller detection''] @
        problem (\<not> rpGPUMeasured report \<or> \<not> contains (toLower uni (rpGPUEvidence report)) ''nvidia-smi'')
          [Lit ''performanceClaimed requires measured GPU evidence including nvidia-smi''] @
        problem (\<not> rpDesktopVisible report \<or> rpDesktopEvidence report = '''')
          [Lit ''performanceClaimed requires desktop-visible evidence''] @
        problem (rpLiveRunRemaining report \<noteq> [])
          [Lit ''performanceClaimed requires an empty liveRunRemaining list''] @
        concat (map (\<lambda>scenario. concat (map (\<lambda>s.
            problem (spApplicable s \<and> \<not> spWithinBudget s \<and> spExpected s \<noteq> ExpectedAbsent)
              [Lit ''performanceClaimed but '', FStr (scName scenario), Lit '' '', FStr (spPhase s),
               Lit '' missed its budget'']) (scSamples scenario))) (rpScenarios report)) @
        problem (\<not> list_ex (\<lambda>s. scName s = ScenarioScheduledLead \<and> scPreWindowReleaseProven s) (rpScenarios report))
          [Lit ''performanceClaimed requires pre-window release under a leadTime >= endToEnd''])"

section \<open>The report\<close>

definition Evaluate ::
    "quantities \<Rightarrow> (string \<Rightarrow> string) \<Rightarrow> (string list \<Rightarrow> string list) \<Rightarrow> Report \<Rightarrow> msg list" where
  "Evaluate q uni ord report =
     headerProblems report @
     budgetProblems report @
     scopeProblems report @
     catalogProblems q report @
     namespaceProblems ord report @
     problem (rpEnvironment report = EnvKind \<and> \<not> rpUnrelatedTaintPreserved report)
       [Lit ''unrelated taint '', FStr UnrelatedTaintKey, Lit '' was not preserved''] @
     scenarioProblems q ord report @
     claimProblems uni report"

text \<open>
  \<open>cmd/recovery-report\<close>: the exit code and what is printed, given the arguments after the program's
  name, what reading the file gave and what decoding it gave.
\<close>

definition recoveryReport ::
    "quantities \<Rightarrow> (string \<Rightarrow> string) \<Rightarrow> (string list \<Rightarrow> string list) \<Rightarrow> string list \<Rightarrow>
     (string \<Rightarrow> msg + string) \<Rightarrow> (string \<Rightarrow> msg + Report) \<Rightarrow> int \<times> msg list" where
  "recoveryReport q uni ord args readFile decode =
     (if length args \<noteq> 2 \<or> hd args \<noteq> ''-report''
      then (2, [[Lit ''usage: recovery-report -report path.json'']])
      else case readFile (args ! 1) of
        Inl err \<Rightarrow> (1, [[Lit ''read report: ''] @ err])
      | Inr raw \<Rightarrow>
          (case decode raw of
             Inl err \<Rightarrow> (1, [[Lit ''decode report: ''] @ err])
           | Inr report \<Rightarrow>
               let problems = Evaluate q uni ord report
               in if problems \<noteq> [] then (1, problems)
                  else (0, [[Lit ''report accepted environment='', FStr (rpEnvironment report),
                             Lit '' performanceClaimed='', FBool (rpPerformanceClaimed report),
                             Lit '' scenarios='', FInt (int (length (rpScenarios report)))]])))"

section \<open>The lead window\<close>

record LeadWindow =
  lwSchedule :: string
  lwLead :: duration
  lwBoundary :: time
  lwStart :: time
  lwDuration :: string
  lwState :: string

text \<open>\<open>time.Time.Truncate\<close> and \<open>time.Duration.Truncate\<close> (of a duration that is not negative).\<close>

definition truncateTime :: "time \<Rightarrow> duration \<Rightarrow> time" where
  "truncateTime t d = t - t mod d"

definition truncateDuration :: "duration \<Rightarrow> duration \<Rightarrow> duration" where
  "truncateDuration d m = d - d mod m"

lemma timeSub_less_25: "timeSub start now < 25 * second \<longleftrightarrow> start - now < 25 * second"
  by (rule timeSub_lt_iff) (simp_all add: second_def int64_bounds)

function nextStart :: "time \<Rightarrow> time \<Rightarrow> time" where
  "nextStart now start = (if timeSub start now < 25 * second then nextStart now (start + minute) else start)"
  by auto

termination
  by (relation "measure (\<lambda>(now, start). nat (now + 25 * second - start))")
    (auto simp: timeSub_less_25 minute_def)

declare nextStart.simps [simp del]

definition NextLeadWindow :: "time \<Rightarrow> msg + LeadWindow" where
  "NextLeadWindow now =
     (let start = nextStart now (truncateTime now minute + minute);
          lead = truncateDuration (wrap64 (timeSub start now - 10 * second)) second
      in if lead < second
         then Inl [Lit ''lead for '', FTime start, Lit '' is not positive'']
         else
           let boundary = start + wrap64 (- lead)
           in if \<not> now < boundary \<or> \<not> boundary < start
              then Inl [Lit ''lead boundary '', FTime boundary, Lit '' is not between '', FTime now, Lit '' and '', FTime start]
              else Inr \<lparr>lwSchedule = decimal (nat (start div minute mod 60)) @ '' '' @
                          decimal (nat (start div (60 * minute) mod 24)) @ '' * * *'',
                        lwLead = lead, lwBoundary = boundary, lwStart = start, lwDuration = ''3m'', lwState = ''game''\<rparr>)"

text \<open>The loop takes at most one turn.\<close>

lemma nextStart_eq:
  "nextStart now (truncateTime now minute + minute) =
     (if minute - now mod minute < 25 * second then truncateTime now minute + 2 * minute
      else truncateTime now minute + minute)"
proof -
  define t where "t = truncateTime now minute"
  have m: "0 \<le> now mod minute" "now mod minute < minute" by (simp_all add: minute_def)
  have d: "t + minute - now = minute - now mod minute" "t + 2 * minute - now = 2 * minute - now mod minute"
    by (simp_all add: t_def truncateTime_def)
  have one: "nextStart now (t + minute) =
      (if minute - now mod minute < 25 * second then nextStart now (t + 2 * minute) else t + minute)"
    using nextStart.simps [of now "t + minute"] unfolding timeSub_less_25 d by (simp add: algebra_simps)
  have "\<not> 2 * minute - now mod minute < 25 * second" using m by (simp add: minute_def second_def)
  then have "nextStart now (t + 2 * minute) = t + 2 * minute"
    using nextStart.simps [of now "t + 2 * minute"] unfolding timeSub_less_25 d by simp
  with one show ?thesis by (simp add: t_def)
qed

lemma nextStart_range:
  defines "start \<equiv> \<lambda>now. nextStart now (truncateTime now minute + minute)"
  shows "25 * second \<le> start now - now" "start now - now < 85 * second" "start now mod minute = 0"
proof -
  have m: "0 \<le> now mod minute" "now mod minute < minute" by (simp_all add: minute_def)
  show "25 * second \<le> start now - now" "start now - now < 85 * second"
    using m unfolding start_def nextStart_eq by (auto simp: truncateTime_def minute_def second_def)
  show "start now mod minute = 0"
    unfolding start_def nextStart_eq by (auto simp: truncateTime_def mod_diff_left_eq mod_simps)
qed

lemma NextLeadWindow_bounds:
  "\<exists>w. NextLeadWindow now = Inr w \<and>
     25 * second \<le> lwStart w - now \<and> lwStart w - now < 85 * second \<and> lwStart w mod minute = 0 \<and>
     lwLead w mod second = 0 \<and> 15 * second \<le> lwLead w \<and> lwLead w < 75 * second \<and>
     lwBoundary w = lwStart w - lwLead w \<and>
     10 * second \<le> lwBoundary w - now \<and> lwBoundary w - now < 11 * second"
proof -
  define start where "start = nextStart now (truncateTime now minute + minute)"
  note r = nextStart_range [of now, folded start_def]
  have sub: "timeSub start now = start - now"
    using r by (intro timeSub_exact) (simp add: int64_bounds second_def)
  define x where "x = start - now - 10 * second"
  have x: "15 * second \<le> x" "x < 75 * second" using r by (simp_all add: x_def)
  define lead where "lead = x - x mod second"
  have xm: "0 \<le> x mod second" "x mod second < second" by (simp_all add: second_def)
  have lead: "15 * second \<le> lead" "lead \<le> x" "x < lead + second" "lead mod second = 0"
  proof -
    show "lead mod second = 0" by (simp add: lead_def mod_diff_left_eq mod_simps)
    have "lead = second * (x div second)" by (simp add: lead_def minus_mod_eq_mult_div)
    moreover have "15 \<le> x div second" using x(1) zdiv_mono1 [of "15 * second" x second] by (simp add: second_def)
    ultimately show "15 * second \<le> lead" by (simp add: second_def)
    show "lead \<le> x" "x < lead + second" using xm by (simp_all add: lead_def)
  qed
  have w: "wrap64 x = x" "wrap64 (- lead) = - lead"
    using x lead by (auto intro!: wrap64_id simp: int64_bounds second_def)
  have b: "now < start - lead" "start - lead < start" "\<not> lead < second"
    using lead x_def by (auto simp: second_def)
  have "NextLeadWindow now = Inr \<lparr>lwSchedule = decimal (nat (start div minute mod 60)) @ '' '' @
      decimal (nat (start div (60 * minute) mod 24)) @ '' * * *'',
      lwLead = lead, lwBoundary = start - lead, lwStart = start, lwDuration = ''3m'', lwState = ''game''\<rparr>"
    using b by (simp add: NextLeadWindow_def Let_def start_def [symmetric] sub x_def [symmetric] truncateDuration_def
        w lead_def [symmetric])
  then show ?thesis using r lead x x_def by auto
qed

end
