(* ===== verification/RecoveryProperties.thy ===== *)
theory RecoveryProperties
  imports Acceptance "HOL-Library.Multiset"
begin

text \<open>
  What an accepted report says: the lemmas on when each check finds no problem, and the
  properties of the acceptance, each with the passing report of a Kind run as its instance.
\<close>

section \<open>When there is no problem\<close>

lemma duplicateScenarios_Nil:
  "duplicateScenarios seen ss = [] \<longleftrightarrow> distinct (map scName ss) \<and> set (map scName ss) \<inter> set seen = {}"
  by (induction ss arbitrary: seen) auto

lemma concat_map_Nil: "concat (map f xs) = [] \<longleftrightarrow> (\<forall>x \<in> set xs. f x = [])"
  by simp

text \<open>A permutation of the keys, whatever it is.\<close>

definition permutes_keys :: "(string list \<Rightarrow> string list) \<Rightarrow> bool" where
  "permutes_keys ord \<longleftrightarrow> (\<forall>ks. mset (ord ks) = mset ks)"

lemma permutes_keys_set: "permutes_keys ord \<Longrightarrow> set (ord ks) = set ks"
  unfolding permutes_keys_def by (metis set_mset_mset)

lemma distinct_RequiredScenarios: "distinct RequiredScenarios"
  by (simp add: RequiredScenarios_def)

lemma firstScenario_member:
  "firstScenario r name = Some s \<Longrightarrow> s \<in> set (rpScenarios r) \<and> scName s = name"
  by (auto simp: firstScenario_def find_Some_iff)

lemma firstScenario_unique:
  assumes "distinct (map scName (rpScenarios r))" "s \<in> set (rpScenarios r)"
  shows "firstScenario r (scName s) = Some s"
proof (cases "firstScenario r (scName s)")
  case None
  then show ?thesis using assms(2) by (auto simp: firstScenario_def find_None_iff)
next
  case (Some t)
  with firstScenario_member have "t \<in> set (rpScenarios r)" "scName t = scName s" by blast+
  with assms have "t = s" by (metis distinct_map inj_on_def)
  with Some show ?thesis by simp
qed

lemma scenarioProblems_Nil:
  assumes "permutes_keys ord" "scenarioProblems q ord r = []"
  shows "distinct (map scName (rpScenarios r))" "set (map scName (rpScenarios r)) = set RequiredScenarios"
    "s \<in> set (rpScenarios r) \<Longrightarrow> checkScenario q r s = []"
proof -
  have d: "distinct (map scName (rpScenarios r))"
    and m: "\<forall>name \<in> set RequiredScenarios.
      (case firstScenario r name of None \<Rightarrow> [[Lit ''missing scenario '', FStr name]] | Some s \<Rightarrow> checkScenario q r s) = []"
    and u: "\<forall>name \<in> set (map scName (rpScenarios r)). name \<in> set RequiredScenarios"
    using assms(2) unfolding scenarioProblems_def append_is_Nil_conv duplicateScenarios_Nil concat_map_Nil
      permutes_keys_set [OF assms(1)] problem_Nil set_remdups
    by blast+
  show "distinct (map scName (rpScenarios r))" by (rule d)
  have "name \<in> set (map scName (rpScenarios r))" if n: "name \<in> set RequiredScenarios" for name
  proof -
    obtain s where "firstScenario r name = Some s" using m n by (cases "firstScenario r name") auto
    then show ?thesis using firstScenario_member by fastforce
  qed
  with u show "set (map scName (rpScenarios r)) = set RequiredScenarios" by blast
  show "checkScenario q r s = []" if s: "s \<in> set (rpScenarios r)"
  proof -
    have "scName s \<in> set RequiredScenarios" using u s by simp
    then show ?thesis using m firstScenario_unique [OF d s] by (metis option.simps(5))
  qed
qed

lemma scenarios_matrix:
  assumes "permutes_keys ord" "scenarioProblems q ord r = []"
  shows "mset (map scName (rpScenarios r)) = mset RequiredScenarios"
  using set_eq_iff_mset_eq_distinct [OF scenarioProblems_Nil(1) [OF assms] distinct_RequiredScenarios]
    scenarioProblems_Nil(2) [OF assms]
  by blast

lemma checkScenario_Nil:
  assumes "checkScenario q r s = []"
  shows "x \<in> set (scSamples s) \<Longrightarrow> checkSample (rpBudget r) s x = []"
    and "checkWorkloads q s = []"
    and "scName s = ScenarioScheduledLead \<Longrightarrow> checkLead r s = []"
    and "scName s \<noteq> ScenarioReturnToIdle \<Longrightarrow> requireSatisfyingRelease s = []"
proof -
  note e = assms [unfolded checkScenario_def Let_def append_is_Nil_conv concat_map_Nil]
  show "checkSample (rpBudget r) s x = []" if "x \<in> set (scSamples s)" using e that by blast
  show "checkWorkloads q s = []" using e by blast
  show "checkLead r s = []" if "scName s = ScenarioScheduledLead" using e that by simp
  show "requireSatisfyingRelease s = []" if "scName s \<noteq> ScenarioReturnToIdle"
    using e that by (auto simp: requireRecoveryPhases_def split: if_splits)
qed

lemma checkLead_Nil:
  assumes "checkLead r s = []" "scPreWindowReleaseProven s"
  shows "\<exists>x \<in> set (scSamples s). \<exists>at start. spPhase x = PhaseRelease \<and> spSatisfiesRecovery x \<and> spObservedAt x = Some at \<and>
    scWindowStart s = Some start \<and> at < start \<and> rbEndToEnd (rpBudget r) \<le> scLeadTime s"
proof -
  have member: "foldl (\<lambda>r s. if spPhase s = PhaseRelease \<and> spSatisfiesRecovery s then Some s else r) r0 xs = Some x \<Longrightarrow>
      r0 = Some x \<or> x \<in> set xs \<and> spPhase x = PhaseRelease \<and> spSatisfiesRecovery x" for r0 xs x
    by (induction xs arbitrary: r0) (auto split: if_splits)
  obtain start where w: "scWindowStart s = Some start"
    using assms(1) by (cases "scWindowStart s") (simp_all add: checkLead_def)
  note e = assms(1) [unfolded checkLead_def w option.case if_P [OF assms(2)]]
  have p: "\<not> scLeadTime s < rbEndToEnd (rpBudget r)"
    "case lastRelease (scSamples s) of None \<Rightarrow> False
      | Some x \<Rightarrow> (case spObservedAt x of None \<Rightarrow> False | Some t \<Rightarrow> t < start)"
    using e by (simp_all split: if_splits)
  obtain x where x: "lastRelease (scSamples s) = Some x" using p(2) by (cases "lastRelease (scSamples s)") auto
  obtain at where at: "spObservedAt x = Some at" "at < start" using p(2) x by (cases "spObservedAt x") auto
  show ?thesis using member [OF x [unfolded lastRelease_def]] at w p(1) by auto
qed

lemma indexSnapshots_dom: "dom (indexSnapshots ss) = nsNamespace ` set ss"
proof -
  have "dom (foldl (\<lambda>m s. m(nsNamespace s \<mapsto> sort (nsPodUIDs s))) m ss) = dom m \<union> nsNamespace ` set ss" for m
    by (induction ss arbitrary: m) auto
  then show ?thesis by (simp add: indexSnapshots_def)
qed

text \<open>What a sample that satisfies recovery shows, when it is accepted.\<close>

definition showsRelease :: "PhaseSample \<Rightarrow> bool" where
  "showsRelease x \<longleftrightarrow>
     spPhase x = PhaseRelease \<and> spApplicable x \<and> spExpected x = ExpectedObserved \<and>
     (\<exists>at. spObservedAt x = Some at \<and> spTriggerAt x \<le> at) \<and>
     (\<exists>gap. spAcceptanceGapMillis x = Some gap \<and> 1000 \<le> gap) \<and>
     contains (spEvidence x) EvidencePodAbsent \<and> contains (spEvidence x) EvidenceRequestsDropped \<and>
     \<not> contains (spEvidence x) EvidenceStillBound"

lemma checkSample_satisfies:
  assumes "checkSample b s x = []" "spSatisfiesRecovery x"
  shows "showsRelease x" "\<exists>ms. spDurationMillis x = Some ms \<and> sampleDuration ms \<le> rbResourceRelease b \<and> sampleDuration ms \<le> rbEndToEnd b"
proof -
  note e = assms(1) [unfolded checkSample_def Let_def append_is_Nil_conv problem_Nil]
  have app: "spApplicable x" using e assms(2) by (auto split: if_splits)
  obtain at ms add where o: "spObservedAt x = Some at" "spDurationMillis x = Some ms"
    and p: "observedProblems b add x
        (AllowedBudget b (scName s) (spPhase x)) at ms = []"
    using e app by (cases "spObservedAt x"; cases "spDurationMillis x") (auto split: if_splits)
  note f = p [unfolded observedProblems_def Let_def append_is_Nil_conv problem_Nil]
  have r: "recoveryProblems b add x (sampleDuration ms) = []"
    using f by blast
  note g = r [unfolded recoveryProblems_def if_P [OF assms(2)] append_is_Nil_conv problem_Nil]
  have ph: "spPhase x = PhaseRelease" "spExpected x = ExpectedObserved" using g by blast+
  have gap: "\<exists>gap. spAcceptanceGapMillis x = Some gap \<and> 1000 \<le> gap"
    using g by (auto simp: minAcceptanceGap_def split: option.splits)
  have le: "spTriggerAt x \<le> at" "sampleDuration ms \<le> AllowedBudget b (scName s) (spPhase x)" using f by auto
  show "showsRelease x" unfolding showsRelease_def using app ph o(1) le(1) gap g by auto
  have "sampleDuration ms \<le> rbResourceRelease b" using le(2) unfolding ph by (simp add: AllowedBudget_def)
  then show "\<exists>ms. spDurationMillis x = Some ms \<and> sampleDuration ms \<le> rbResourceRelease b \<and> sampleDuration ms \<le> rbEndToEnd b"
    using o(2) g by auto
qed

lemma budgetProblems_Nil:
  "budgetProblems r = [] \<Longrightarrow> rbResourceRelease (rpBudget r) = 90 * second \<and> rbEndToEnd (rpBudget r) = 90 * second"
  unfolding budgetProblems_def checkBudget_def Let_def append_is_Nil_conv problem_Nil
  by (simp add: DefaultBudget_def)

lemma Evaluate_Nil:
  "Evaluate q uni ord r = [] \<longleftrightarrow>
     headerProblems r = [] \<and> budgetProblems r = [] \<and> scopeProblems r = [] \<and> catalogProblems q r = [] \<and>
     namespaceProblems ord r = [] \<and> (rpEnvironment r = EnvKind \<longrightarrow> rpUnrelatedTaintPreserved r) \<and>
     scenarioProblems q ord r = [] \<and> claimProblems uni r = []"
  unfolding Evaluate_def append_is_Nil_conv problem_Nil by blast

lemma accepted_recovers:
  assumes "permutes_keys ord" "Evaluate q uni ord r = []" "s \<in> set (rpScenarios r)" "scName s \<noteq> ScenarioReturnToIdle"
  shows "\<exists>x \<in> set (scSamples s). showsRelease x \<and>
    (\<exists>ms. spDurationMillis x = Some ms \<and> sampleDuration ms \<le> 90 * second)"
proof -
  have n: "scenarioProblems q ord r = []" "budgetProblems r = []" using assms(2) unfolding Evaluate_Nil by blast+
  note c = checkScenario_Nil [OF scenarioProblems_Nil(3) [OF assms(1) n(1) assms(3)]]
  obtain x where x: "x \<in> set (scSamples s)" "spSatisfiesRecovery x"
    using c(4) [OF assms(4)] by (auto simp: requireSatisfyingRelease_def list_ex_iff)
  show ?thesis
    using checkSample_satisfies [OF c(1) [OF x(1)] x(2)] budgetProblems_Nil [OF n(2)] x(1) by auto
qed

section \<open>The workloads of an accepted scenario\<close>

lemma checkWorkload_Nil:
  assumes "checkWorkload q s obs = []"
  shows "\<exists>p. Lookup q (woName obs) = Some p \<and> matchesProfile obs p \<and> woGPU obs = 0 \<and>
    (woEvictedDuringScenario obs \<longrightarrow> woDisposable obs \<and> woOptedIn obs \<and> \<not> woPinned obs \<and> \<not> woHoldsResourcesAfter obs) \<and>
    (isProtected p \<longrightarrow> \<not> woEvictedDuringScenario obs \<and> woHoldsResourcesAfter obs \<and> woUIDBefore obs \<noteq> '''' \<and>
       woUIDBefore obs = woUIDAfter obs)"
proof (cases "Lookup q (woName obs)")
  case None
  then show ?thesis using assms by (simp add: checkWorkload_def)
next
  case (Some p)
  obtain wantEvict gated where ee: "expectedEviction (scName s) (woName obs) (woStage obs) = (wantEvict, gated)"
    by (cases "expectedEviction (scName s) (woName obs) (woStage obs)")
  note e = assms [unfolded checkWorkload_def Let_def Some option.case ee prod.case append_is_Nil_conv problem_Nil]
  show ?thesis using Some e by (auto split: if_splits)
qed

lemma Lookup_protected:
  "\<exists>p. Lookup q WorkloadProtected = Some p \<and> isProtected p"
  "\<exists>p. Lookup q WorkloadPinned = Some p \<and> isProtected p"
  by (simp_all add: Lookup_def Catalog_def profile_def isProtected_def)

lemma checkWorkloads_Nil:
  assumes "checkWorkloads q s = []"
  shows "obs \<in> set (scWorkloads s) \<Longrightarrow> checkWorkload q s obs = []"
    and "\<forall>name \<in> {WorkloadProtected, WorkloadPinned, WorkloadLossy, WorkloadStandard}. seenWorkload s name"
proof -
  have ne: "scWorkloads s \<noteq> []" using assms by (auto simp: checkWorkloads_def Let_def)
  note e = assms [unfolded checkWorkloads_def Let_def if_not_P [OF ne] append_is_Nil_conv concat_map_Nil problem_Nil]
  show "checkWorkload q s obs = []" if "obs \<in> set (scWorkloads s)" using e that by blast
  show "\<forall>name \<in> {WorkloadProtected, WorkloadPinned, WorkloadLossy, WorkloadStandard}. seenWorkload s name"
    using e by auto
qed

section \<open>A passing report\<close>

text \<open>The passing report of the tests, and one of a live run that claims performance.\<close>

definition sampleQuantities :: quantities where
  "sampleQuantities s =
     (if s = ''100m'' then (100, 1) else if s = ''50m'' then (50, 1) else if s = ''200m'' then (200, 1)
      else if s = ''20m'' then (20, 1) else if s = ''80m'' then (80, 1) else if s = ''10m'' then (10, 1)
      else if s = ''64Mi'' then (67108864000, 67108864) else if s = ''32Mi'' then (33554432000, 33554432)
      else if s = ''128Mi'' then (134217728000, 134217728) else if s = ''16Mi'' then (16777216000, 16777216)
      else if s = ''48Mi'' then (50331648000, 50331648) else (8388608000, 8388608))"

definition sampleBudget :: "bool \<Rightarrow> RecoveryBudget" where
  "sampleBudget live = (if live then DefaultBudget\<lparr>rbHarnessStaleAfter := minute\<rparr> else DefaultBudget)"

definition timedSample ::
    "RecoveryBudget \<Rightarrow> string \<Rightarrow> string \<Rightarrow> string \<Rightarrow> string \<Rightarrow> string \<Rightarrow> bool \<Rightarrow> int option \<Rightarrow> PhaseSample" where
  "timedSample b scenario phase trigger expected evidence satisfies gap =
     \<lparr>spPhase = phase, spApplicable = True, spExpected = expected, spTrigger = trigger, spTriggerAt = 0,
      spObservedAt = Some second, spDurationMillis = Some 1000, spBudget = AllowedBudget b scenario phase,
      spWithinBudget = True, spSatisfiesRecovery = satisfies, spAcceptanceGapMillis = gap, spEvidence = evidence\<rparr>"

definition inactiveSample :: "RecoveryBudget \<Rightarrow> string \<Rightarrow> string \<Rightarrow> string \<Rightarrow> PhaseSample" where
  "inactiveSample b scenario phase trigger =
     \<lparr>spPhase = phase, spApplicable = False, spExpected = ExpectedAbsent, spTrigger = trigger, spTriggerAt = 0,
      spObservedAt = None, spDurationMillis = None, spBudget = AllowedBudget b scenario phase,
      spWithinBudget = True, spSatisfiesRecovery = False, spAcceptanceGapMillis = None, spEvidence = EvidenceUIDUnchanged\<rparr>"

definition recoverySamples :: "RecoveryBudget \<Rightarrow> string \<Rightarrow> string \<Rightarrow> PhaseSample list" where
  "recoverySamples b name trigger =
     [timedSample b name PhaseDetection trigger ExpectedObserved ''condition'' False None,
      timedSample b name PhaseAdmission trigger ExpectedObserved ''admission closed'' False None,
      timedSample b name PhaseEviction trigger ExpectedObserved ''deletionTimestamp'' False None,
      timedSample b name PhaseRelease trigger ExpectedObserved ''pod-absent requests-dropped'' True (Some 3000)]"

definition passingSamples :: "RecoveryBudget \<Rightarrow> string \<Rightarrow> PhaseSample list" where
  "passingSamples b name =
     (if name = ScenarioReturnToIdle
      then [timedSample b name PhaseDetection TriggerSyntheticStatus ExpectedObserved ''condition'' False None,
            timedSample b name PhaseAdmissionReopen TriggerSyntheticStatus ExpectedReopened ''schedulable=true'' False None,
            inactiveSample b name PhaseEviction TriggerSyntheticStatus,
            inactiveSample b name PhaseRelease TriggerSyntheticStatus]
      else if name = ScenarioControllerRestart
      then timedSample b name PhaseLeaderElection TriggerLeaderCancelled ExpectedObserved ''new leader elected'' False None #
           timedSample b name PhaseLeaderRestore TriggerDrift ExpectedObserved ''managed taint restored'' False None #
           recoverySamples b name TriggerSyntheticStatus
      else if name = ScenarioPDB
      then [timedSample b name PhaseDetection TriggerSyntheticStatus ExpectedObserved ''condition'' False None,
            timedSample b name PhaseAdmission TriggerSyntheticStatus ExpectedObserved ''admission closed'' False None,
            timedSample b name PhaseEviction TriggerSyntheticStatus ExpectedBlocked ''deletionTimestamp-absent'' False None,
            timedSample b name PhaseRelease TriggerSyntheticStatus ExpectedBlocked EvidenceStillBound False None,
            timedSample b name PhaseEviction TriggerPDBDeleted ExpectedObserved ''deletionTimestamp'' False None,
            timedSample b name PhaseRelease TriggerPDBDeleted ExpectedObserved
              ''pod-absent requests-dropped after-pdb-removed'' True (Some 3000)]
      else if name = ScenarioScheduledLead then recoverySamples b name TriggerLeadBoundary
      else if name = ScenarioReporterFailure then recoverySamples b name TriggerReporterStopped
      else recoverySamples b name TriggerSyntheticStatus)"

definition workloadObs :: "string \<Rightarrow> bool \<Rightarrow> string \<Rightarrow> WorkloadObservation" where
  "workloadObs name evicted stage =
     (let p = the (Lookup sampleQuantities name)
      in \<lparr>woName = name, woRole = wpRole p, woDisposable = wpDisposable p, woOptedIn = wpOptedIn p,
          woLossy = wpLossy p, woPinned = wpPinned p, woCPUMillis = wpCPUMillis p, woMemoryBytes = wpMemoryBytes p,
          woGPU = 0, woUIDBefore = ''uid'', woUIDAfter = (if evicted then '''' else ''uid''),
          woPhaseAfter = (if evicted then ''Absent'' else ''Running''), woHoldsResourcesAfter = (\<not> evicted),
          woEvictedDuringScenario = evicted, woStage = stage\<rparr>)"

definition passingScenario :: "bool \<Rightarrow> string \<Rightarrow> ScenarioResult" where
  "passingScenario live name =
     \<lparr>scName = name, scSamples = passingSamples (sampleBudget live) name,
      scWorkloads =
        workloadObs WorkloadLossy (name \<noteq> ScenarioReturnToIdle) '''' #
        workloadObs WorkloadStandard (name = ScenarioIdleToGame \<or> name = ScenarioControllerRestart) '''' #
        workloadObs WorkloadProtected False '''' # workloadObs WorkloadPinned False '''' #
        (if name = ScenarioPDB then [workloadObs WorkloadPDB False ''blocked'', workloadObs WorkloadPDB True ''cleared'']
         else []),
      scBlocked =
        (if name = ScenarioPDB
         then [\<lparr>bcWorkload = WorkloadPDB, bcReason = ''pdb'', bcEvictionAccepted = False, bcResourcesReleased = False,
                bcEvidence = ''pdb-blocked still-bound''\<rparr>] else []),
      scNotes = [], scLeadTime = (if name = ScenarioScheduledLead then 3 * minute else 0),
      scWindowStart = (if name = ScenarioScheduledLead then Some minute else None),
      scPreWindowReleaseProven = (live \<and> name = ScenarioScheduledLead)\<rparr>"

definition passingReport :: "bool \<Rightarrow> Report" where
  "passingReport live =
     \<lparr>rpSchemaVersion = SchemaVersion, rpEnvironment = (if live then EnvLive else EnvKind),
      rpDetectionScope = (if live then DetectionScopeHost else DetectionScopeController),
      rpBudget = sampleBudget live, rpPerformedAt = 0, rpClusterContext = ''kind-inc-recovery'', rpNodeName = ''node'',
      rpController = ''in-process'', rpGPUMeasured = live,
      rpGPUEvidence = (if live then ''NVIDIA-SMI sample'' else ''kind has no GPU''), rpDesktopVisible = live,
      rpDesktopEvidence = ''session'', rpPerformanceClaimed = live, rpUnrelatedTaintPreserved = True,
      rpProtectedNamespaces = [\<lparr>nsNamespace = ''kube-system'', nsPodUIDs = [''uid-a'', ''uid-b'']\<rparr>],
      rpProtectedNamespacesAfter = [\<lparr>nsNamespace = ''kube-system'', nsPodUIDs = [''uid-b'', ''uid-a'']\<rparr>],
      rpWorkloadCatalog = Catalog sampleQuantities, rpScenarios = map (passingScenario live) RequiredScenarios,
      rpLiveRunRemaining = (if live then [] else KindLiveRunRemaining)\<rparr>"

lemma passingReport_accepted: "Evaluate sampleQuantities id rev (passingReport live) = []"
  by (cases live; simp only:; code_simp)

lemma permutes_keys_rev: "permutes_keys rev"
  by (simp add: permutes_keys_def)

section \<open>Acceptance\<close>

text \<open>
  C20: An accepted run really gave the desktop back: an accepted report has each required scenario exactly once, and in
  each one but the return to idle some resource-release sample was taken after its trigger, with a duration (as the code computes
  it, in 64 bits) of at most ninety seconds, at least a second after the eviction was accepted, with evidence that the Pod is
  gone and its requests are dropped and none that it is still bound; an accepted eviction alone never counts.
\<close>
theorem accepted_run_recovers:
  assumes "\<forall>ks. mset (ord ks) = mset ks" "Evaluate q uni ord r = []"
  shows "mset (map scName (rpScenarios r)) = mset RequiredScenarios \<and>
    (\<forall>s \<in> set (rpScenarios r). scName s \<noteq> ScenarioReturnToIdle \<longrightarrow>
       (\<exists>x ms gap at. x \<in> set (scSamples s) \<and> spPhase x = PhaseRelease \<and> spApplicable x \<and> spExpected x = ExpectedObserved \<and>
          spObservedAt x = Some at \<and> spTriggerAt x \<le> at \<and>
          spDurationMillis x = Some ms \<and> sampleDuration ms \<le> 90 * second \<and>
          spAcceptanceGapMillis x = Some gap \<and> 1000 \<le> gap \<and>
          contains (spEvidence x) EvidencePodAbsent \<and> contains (spEvidence x) EvidenceRequestsDropped \<and>
          \<not> contains (spEvidence x) EvidenceStillBound))"
proof -
  have ord: "permutes_keys ord" using assms(1) by (simp add: permutes_keys_def)
  have n: "scenarioProblems q ord r = []" using assms(2) unfolding Evaluate_Nil by blast
  show ?thesis
    using scenarios_matrix [OF ord n] accepted_recovers [OF ord assms(2)] unfolding showsRelease_def by blast
qed

lemma accepted_run_recovers_witness:
  "\<exists>x \<in> set (scSamples (passingScenario False ScenarioIdleToGame)). spPhase x = PhaseRelease \<and>
     contains (spEvidence x) EvidencePodAbsent"
proof -
  have "passingScenario False ScenarioIdleToGame \<in> set (rpScenarios (passingReport False))"
    by (simp add: passingReport_def RequiredScenarios_def)
  moreover have "scName (passingScenario False ScenarioIdleToGame) \<noteq> ScenarioReturnToIdle"
    by (simp add: passingScenario_def)
  moreover have "\<forall>ks :: string list. mset (rev ks) = mset ks" by simp
  ultimately show ?thesis
    using accepted_run_recovers [OF _ passingReport_accepted [of False]] by blast
qed

text \<open>
  C26: The canary harms nobody: in every scenario of an accepted report the protected and the pinned neighbour were observed and
  kept their Pod and their resources, only disposable opted-in workloads that are not pinned were evicted, each giving up
  its resources, every observed workload is one of the catalog with its role, and none asked for a GPU.
\<close>
theorem accepted_run_spares_neighbours:
  assumes "\<forall>ks. mset (ord ks) = mset ks" "Evaluate q uni ord r = []" "s \<in> set (rpScenarios r)"
  shows "(\<forall>name \<in> {WorkloadProtected, WorkloadPinned}.
       (\<exists>obs \<in> set (scWorkloads s). woName obs = name) \<and>
       (\<forall>obs \<in> set (scWorkloads s). woName obs = name \<longrightarrow>
          \<not> woEvictedDuringScenario obs \<and> woHoldsResourcesAfter obs \<and> woUIDBefore obs \<noteq> '''' \<and>
          woUIDAfter obs = woUIDBefore obs)) \<and>
    (\<forall>obs \<in> set (scWorkloads s).
       (\<exists>p \<in> set (Catalog q). wpName p = woName obs \<and> wpRole p = woRole obs) \<and> woGPU obs = 0 \<and>
       (woEvictedDuringScenario obs \<longrightarrow>
          woDisposable obs \<and> woOptedIn obs \<and> \<not> woPinned obs \<and> \<not> woHoldsResourcesAfter obs))"
proof -
  have ord: "permutes_keys ord" using assms(1) by (simp add: permutes_keys_def)
  have n: "scenarioProblems q ord r = []" using assms(2) unfolding Evaluate_Nil by blast
  note c = checkWorkloads_Nil [OF checkScenario_Nil(2) [OF scenarioProblems_Nil(3) [OF ord n assms(3)]]]
  have seen: "\<forall>name \<in> {WorkloadProtected, WorkloadPinned}. \<exists>obs \<in> set (scWorkloads s). woName obs = name"
    using c(2) by (simp add: seenWorkload_def list_ex_iff)
  have each: "\<exists>p. Lookup q (woName obs) = Some p \<and> matchesProfile obs p \<and> woGPU obs = 0 \<and>
    (woEvictedDuringScenario obs \<longrightarrow> woDisposable obs \<and> woOptedIn obs \<and> \<not> woPinned obs \<and> \<not> woHoldsResourcesAfter obs) \<and>
    (isProtected p \<longrightarrow> \<not> woEvictedDuringScenario obs \<and> woHoldsResourcesAfter obs \<and> woUIDBefore obs \<noteq> '''' \<and>
       woUIDBefore obs = woUIDAfter obs)" if "obs \<in> set (scWorkloads s)" for obs
    by (rule checkWorkload_Nil [OF c(1) [OF that]])
  have prot: "\<forall>name \<in> {WorkloadProtected, WorkloadPinned}. \<forall>obs \<in> set (scWorkloads s). woName obs = name \<longrightarrow>
      \<not> woEvictedDuringScenario obs \<and> woHoldsResourcesAfter obs \<and> woUIDBefore obs \<noteq> '''' \<and> woUIDAfter obs = woUIDBefore obs"
    using each Lookup_protected [of q] by fastforce
  have cat: "\<exists>p \<in> set (Catalog q). wpName p = woName obs \<and> wpRole p = woRole obs" if "obs \<in> set (scWorkloads s)" for obs
    using each [OF that] by (auto simp: Lookup_def find_Some_iff matchesProfile_def intro: nth_mem)
  show ?thesis using seen prot cat each by blast
qed

lemma accepted_run_spares_neighbours_witness:
  "\<exists>obs \<in> set (scWorkloads (passingScenario False ScenarioPDB)). woName obs = WorkloadPinned \<and> woHoldsResourcesAfter obs"
proof -
  have "passingScenario False ScenarioPDB \<in> set (rpScenarios (passingReport False))"
    by (simp add: passingReport_def RequiredScenarios_def)
  from accepted_run_spares_neighbours [of rev, OF _ passingReport_accepted [of False] this] show ?thesis by auto
qed

lemma accepted_kind:
  assumes ord: "permutes_keys ord" and ok: "Evaluate q uni ord r = []" and k: "rpEnvironment r = EnvKind"
  shows "\<not> rpPerformanceClaimed r \<and> \<not> rpGPUMeasured r \<and> \<not> rpDesktopVisible r \<and> rpUnrelatedTaintPreserved r \<and>
    ''kube-system'' \<in> set (map nsNamespace (rpProtectedNamespaces r)) \<and>
    (\<forall>ns \<in> set (map nsNamespace (rpProtectedNamespaces r)).
       indexSnapshots (rpProtectedNamespacesAfter r) ns = indexSnapshots (rpProtectedNamespaces r) ns)"
proof -
  note n = ok [unfolded Evaluate_Nil]
  have "\<not> rpGPUMeasured r \<and> \<not> rpDesktopVisible r" using n k by (simp add: scopeProblems_def)
  moreover have "\<not> rpPerformanceClaimed r" using n k by (auto simp: claimProblems_def split: if_splits)
  moreover have "rpUnrelatedTaintPreserved r" using n k by blast
  moreover have "\<forall>ns \<in> set (map nsNamespace (rpProtectedNamespaces r)).
       indexSnapshots (rpProtectedNamespacesAfter r) ns = indexSnapshots (rpProtectedNamespaces r) ns"
    and start: "indexSnapshots (rpProtectedNamespaces r) ''kube-system'' \<noteq> None"
    using n k unfolding namespaceProblems_def Let_def by (auto simp: permutes_keys_set [OF ord])
  moreover have "''kube-system'' \<in> set (map nsNamespace (rpProtectedNamespaces r))"
    using start [folded domIff] unfolding indexSnapshots_dom by simp
  ultimately show ?thesis by blast
qed

lemma accepted_claim:
  assumes ord: "permutes_keys ord" and ok: "Evaluate q uni ord r = []" and c: "rpPerformanceClaimed r"
  shows "rpEnvironment r = EnvLive" "rpDetectionScope r = DetectionScopeHost" "rpGPUMeasured r" "rpDesktopVisible r"
    "rpDesktopEvidence r \<noteq> ''''" "rpLiveRunRemaining r = []"
    and "s \<in> set (rpScenarios r) \<Longrightarrow> x \<in> set (scSamples s) \<Longrightarrow> spApplicable x \<Longrightarrow> spWithinBudget x"
    and "\<exists>s \<in> set (rpScenarios r). scName s = ScenarioScheduledLead \<and> scPreWindowReleaseProven s"
proof -
  note n = ok [unfolded Evaluate_Nil]
  have p: "claimProblems uni r = []" using n by blast
  show "rpEnvironment r = EnvLive" "rpDetectionScope r = DetectionScopeHost" "rpGPUMeasured r" "rpDesktopVisible r"
    "rpDesktopEvidence r \<noteq> ''''" "rpLiveRunRemaining r = []"
    "\<exists>s \<in> set (rpScenarios r). scName s = ScenarioScheduledLead \<and> scPreWindowReleaseProven s"
    using p c unfolding claimProblems_def by (auto simp: list_ex_iff)
  show "spWithinBudget x" if x: "s \<in> set (rpScenarios r)" "x \<in> set (scSamples s)" "spApplicable x"
  proof -
    have "checkScenario q r s = []" using scenarioProblems_Nil(3) [OF ord] n x(1) by blast
    from checkScenario_Nil(1) [OF this x(2)] have "spExpected x \<noteq> ExpectedAbsent"
      using x(3) by (auto simp: checkSample_def Let_def split: if_splits)
    then show ?thesis using p c x unfolding claimProblems_def by auto
  qed
qed

lemma accepted_lead:
  assumes ord: "permutes_keys ord" and ok: "Evaluate q uni ord r = []" and c: "rpPerformanceClaimed r"
  shows "\<exists>s \<in> set (rpScenarios r). \<exists>x \<in> set (scSamples s). \<exists>at start.
     scName s = ScenarioScheduledLead \<and> 90 * second \<le> scLeadTime s \<and> spPhase x = PhaseRelease \<and>
     spSatisfiesRecovery x \<and> spObservedAt x = Some at \<and> scWindowStart s = Some start \<and> at < start"
proof -
  note n = ok [unfolded Evaluate_Nil]
  obtain s where s: "s \<in> set (rpScenarios r)" "scName s = ScenarioScheduledLead" "scPreWindowReleaseProven s"
    using accepted_claim(8) [OF assms] by blast
  have "checkScenario q r s = []" using scenarioProblems_Nil(3) [OF ord] n s(1) by blast
  from checkLead_Nil [OF checkScenario_Nil(3) [OF this s(2)] s(3)] obtain x at start where
    "x \<in> set (scSamples s)" "spPhase x = PhaseRelease" "spSatisfiesRecovery x" "spObservedAt x = Some at"
    "scWindowStart s = Some start" "at < start" "rbEndToEnd (rpBudget r) \<le> scLeadTime s"
    by blast
  moreover have "rbEndToEnd (rpBudget r) = 90 * second" using budgetProblems_Nil n by blast
  ultimately show ?thesis using s by auto
qed

text \<open>
  C25: No report claims more than it measured: an accepted Kind report claims no performance, no GPU and no desktop, and
  left the unrelated taint and the Pods of every protected namespace as they were; an accepted claim of performance comes from a
  live run seen from the host, with GPU and desktop evidence, nothing left to do, every applicable sample within its
  budget, and a release before the start of a scheduled window whose lead time covers the end-to-end budget.
\<close>
theorem accepted_claims_backed:
  assumes "\<forall>ks. mset (ord ks) = mset ks" "Evaluate q uni ord r = []"
  shows "(rpEnvironment r = EnvKind \<longrightarrow>
      \<not> rpPerformanceClaimed r \<and> \<not> rpGPUMeasured r \<and> \<not> rpDesktopVisible r \<and> rpUnrelatedTaintPreserved r \<and>
      ''kube-system'' \<in> set (map nsNamespace (rpProtectedNamespaces r)) \<and>
      (\<forall>ns \<in> set (map nsNamespace (rpProtectedNamespaces r)).
         indexSnapshots (rpProtectedNamespacesAfter r) ns = indexSnapshots (rpProtectedNamespaces r) ns)) \<and>
    (rpPerformanceClaimed r \<longrightarrow>
      rpEnvironment r = EnvLive \<and> rpDetectionScope r = DetectionScopeHost \<and> rpGPUMeasured r \<and> rpDesktopVisible r \<and>
      rpDesktopEvidence r \<noteq> '''' \<and> rpLiveRunRemaining r = [] \<and>
      (\<forall>s \<in> set (rpScenarios r). \<forall>x \<in> set (scSamples s). spApplicable x \<longrightarrow> spWithinBudget x) \<and>
      (\<exists>s \<in> set (rpScenarios r). \<exists>x \<in> set (scSamples s). \<exists>at start.
         scName s = ScenarioScheduledLead \<and> 90 * second \<le> scLeadTime s \<and> spPhase x = PhaseRelease \<and>
         spSatisfiesRecovery x \<and> spObservedAt x = Some at \<and> scWindowStart s = Some start \<and> at < start))"
proof -
  have ord: "permutes_keys ord" using assms(1) by (simp add: permutes_keys_def)
  show ?thesis
    using accepted_kind [OF ord assms(2)] accepted_claim [OF ord assms(2)] accepted_lead [OF ord assms(2)] by blast
qed

lemma accepted_claims_backed_witness:
  "\<not> rpPerformanceClaimed (passingReport False) \<and>
   (\<exists>s \<in> set (rpScenarios (passingReport True)). scName s = ScenarioScheduledLead \<and> 90 * second \<le> scLeadTime s)"
proof -
  have "rpEnvironment (passingReport False) = EnvKind" "rpPerformanceClaimed (passingReport True)"
    by (simp_all add: passingReport_def)
  then show ?thesis
    using accepted_claims_backed [of rev, OF _ passingReport_accepted [of False]]
      accepted_claims_backed [of rev, OF _ passingReport_accepted [of True]]
    by (metis mset_rev)
qed

text \<open>
  C39: The harness always gets a lead window: choosing one never fails, at any time; the window starts on a whole minute 25 to
  85 seconds ahead, its lead is a whole number of seconds, at least 15 and less than the end-to-end budget, and its boundary is
  10 to 11 seconds ahead.
\<close>
theorem lead_window_ahead:
  "\<exists>w. NextLeadWindow now = Inr w \<and>
     25 * second \<le> lwStart w - now \<and> lwStart w - now < 85 * second \<and> lwStart w mod minute = 0 \<and>
     lwLead w mod second = 0 \<and> 15 * second \<le> lwLead w \<and> lwLead w < rbEndToEnd DefaultBudget \<and>
     lwBoundary w = lwStart w - lwLead w \<and>
     10 * second \<le> lwBoundary w - now \<and> lwBoundary w - now < 11 * second"
  using NextLeadWindow_bounds [of now] by (fastforce simp: DefaultBudget_def second_def)

text \<open>The duration of a sample wraps around: one of 584 years is taken for less than a millisecond.\<close>

lemma wrapped_duration_accepted:
  "sampleDuration 18446744073710 = 448384"
  by (simp add: sampleDuration_def wrap64_def)

text \<open>
  C38: A duration survives JSON: what MarshalJSON writes for any 64-bit duration, negative ones and the extremes included,
  UnmarshalJSON reads back as that duration, although the parser computes fractions in float64.
\<close>
theorem json_duration_roundtrip:
  assumes "int64 d"
  shows "unmarshalJSONDuration parseError (marshalJSONDuration d) = Inr d"
  using assms by (rule unmarshal_marshal)

lemma json_duration_roundtrip_witness:
  "unmarshalJSONDuration (\<lambda>_. []) (marshalJSONDuration (- 9223372036854775808)) = Inr (- 9223372036854775808) \<and>
   unmarshalJSONDuration (\<lambda>_. []) (marshalJSONDuration 1500000001) = Inr 1500000001"
  using json_duration_roundtrip [of "- 9223372036854775808"] json_duration_roundtrip [of 1500000001]
  by (simp add: int64_bounds)

end
