(* ===== verification/CrdReadiness.thy ===== *)
theory CrdReadiness
  imports Types
begin

text \<open>
  \<open>internal/controller/crd_readiness.go\<close>: the readiness check on the installed custom resource definition.  A
  schema is a tree of properties and list items; the check collects the fields the controller relies on that
  the schema does not have.  Reading the definition from the API server is a parameter.
\<close>

section \<open>Schemas\<close>

text \<open>
  Of \<open>JSONSchemaProps\<close>, the properties and the schema of the items: None when \<open>Items\<close> or its \<open>Schema\<close> is nil.
  A nil map of properties has no property.
\<close>

datatype JSONSchemaProps =
  JSONSchemaProps (jsProperties: "string \<Rightarrow> JSONSchemaProps option") (jsItems: "JSONSchemaProps option")

record CustomResourceDefinitionVersion =
  cvName :: string
  cvServed :: bool
  cvStatusSubresource :: bool
  cvSchema :: "JSONSchemaProps option"

record CustomResourceDefinition =
  crdName :: string
  crdConditions :: "(string \<times> ConditionStatus) list"
  crdVersions :: "CustomResourceDefinitionVersion list"

definition NodeActivityCRDName :: string where
  "NodeActivityCRDName = ''nodeactivities.availability.interactive-node.io''"

definition lookupProperty :: "JSONSchemaProps \<Rightarrow> string \<Rightarrow> JSONSchemaProps option" where
  "lookupProperty schema name = jsProperties schema name"

text \<open>The names that are missing are appended, each after the prefix and a dot.\<close>

definition requireProperties :: "JSONSchemaProps \<Rightarrow> string \<Rightarrow> string list \<Rightarrow> string list" where
  "requireProperties schema prefix names =
     map (\<lambda>name. prefix @ ''.'' @ name) (filter (\<lambda>name. lookupProperty schema name = None) names)"

section \<open>The fields of NodeActivity\<close>

definition missingSpec :: "JSONSchemaProps \<Rightarrow> string list" where
  "missingSpec root =
     (case lookupProperty root ''spec'' of
        None \<Rightarrow> [''spec'']
      | Some spec \<Rightarrow>
          requireProperties spec ''spec'' [''nodeName'', ''leadTime''] @
          (case lookupProperty spec ''windows'' of
             None \<Rightarrow> [''spec.windows'']
           | Some windows \<Rightarrow>
               (case jsItems windows of
                  None \<Rightarrow> [''spec.windows[]'']
                | Some item \<Rightarrow>
                    requireProperties item ''spec.windows[]'' [''schedule'', ''duration'', ''timeZone'', ''state''])))"

definition missingAdmission :: "JSONSchemaProps \<Rightarrow> string list" where
  "missingAdmission status =
     (case lookupProperty status ''admission'' of
        None \<Rightarrow> [''status.admission'']
      | Some admission \<Rightarrow>
          requireProperties admission ''status.admission''
            [''admitted'', ''reason'', ''message'', ''heartbeatValid'', ''heartbeatAgeSeconds''] @
          (case lookupProperty admission ''burstTaint'' of
             None \<Rightarrow> [''status.admission.burstTaint'']
           | Some burst \<Rightarrow>
               requireProperties burst ''status.admission.burstTaint'' [''configured'', ''desired'', ''applied'']) @
          requireProperties admission ''status.admission'' [''nextTransition'', ''nextTransitionReason''])"

definition missingConditions :: "JSONSchemaProps \<Rightarrow> string list" where
  "missingConditions status =
     (case lookupProperty status ''conditions'' of
        None \<Rightarrow> [''status.conditions'']
      | Some conditions \<Rightarrow>
          (case jsItems conditions of
             None \<Rightarrow> [''status.conditions[]'']
           | Some item \<Rightarrow>
               requireProperties item ''status.conditions[]''
                 [''type'', ''status'', ''observedGeneration'', ''lastTransitionTime'', ''reason'', ''message'']))"

definition missingStatus :: "JSONSchemaProps \<Rightarrow> string list" where
  "missingStatus root =
     (case lookupProperty root ''status'' of
        None \<Rightarrow> [''status'']
      | Some status \<Rightarrow>
          requireProperties status ''status''
            [''state'', ''activity'', ''reason'', ''observedAt'', ''heartbeatAt'', ''generation'', ''failClosed''] @
          (case lookupProperty status ''managedTaint'' of
             None \<Rightarrow> [''status.managedTaint'']
           | Some managedTaint \<Rightarrow> requireProperties managedTaint ''status.managedTaint'' [''key'', ''value'', ''effect'']) @
          missingAdmission status @
          missingConditions status)"

definition missingNodeActivitySchemaFields :: "JSONSchemaProps \<Rightarrow> string list" where
  "missingNodeActivitySchemaFields root = missingSpec root @ missingStatus root"

section \<open>The definition\<close>

text \<open>The first condition of the type decides.\<close>

definition crdIsEstablished :: "CustomResourceDefinition \<Rightarrow> bool" where
  "crdIsEstablished crd =
     (case List.find (\<lambda>c. fst c = ''Established'') (crdConditions crd) of
        None \<Rightarrow> False
      | Some c \<Rightarrow> snd c = ConditionTrue)"

text \<open>\<open>strings.Join(missing, ", ")\<close>\<close>

fun joinMissing :: "string list \<Rightarrow> string" where
  "joinMissing [] = ''''"
| "joinMissing [s] = s"
| "joinMissing (s # t # ss) = s @ '', '' @ joinMissing (t # ss)"

definition installed :: "string \<Rightarrow> msg" where
  "installed rest = [Lit ''installed CRD '', FStr NodeActivityCRDName, Lit '' ('', FStr apiVersion, Lit rest]"

definition ValidateNodeActivityCRD :: "CustomResourceDefinition option \<Rightarrow> msg option" where
  "ValidateNodeActivityCRD crdPtr =
     (case crdPtr of
        None \<Rightarrow> Some [Lit ''CRD '', FStr NodeActivityCRDName, Lit '' is nil'']
      | Some crd \<Rightarrow>
          if crdName crd \<noteq> '''' \<and> crdName crd \<noteq> NodeActivityCRDName
          then Some [Lit ''unexpected CRD name '', FQuoted (crdName crd), Lit '', want '', FQuoted NodeActivityCRDName]
          else if crdConditions crd \<noteq> [] \<and> \<not> crdIsEstablished crd
          then Some [Lit ''CRD '', FStr NodeActivityCRDName, Lit '' is not yet Established'']
          else case List.find (\<lambda>v. cvName v = apiVersion) (crdVersions crd) of
            None \<Rightarrow> Some [Lit ''installed CRD '', FStr NodeActivityCRDName, Lit '' does not serve version '', FStr apiVersion,
                          Lit ''; apply the current CRD before upgrading the controller'']
          | Some served \<Rightarrow>
              if \<not> cvServed served
              then Some [Lit ''installed CRD '', FStr NodeActivityCRDName, Lit '' does not serve version '', FStr apiVersion,
                         Lit ''; apply the current CRD before upgrading the controller'']
              else if \<not> cvStatusSubresource served
              then Some (installed '') is missing the status subresource; apply the current CRD before upgrading the controller'')
              else case cvSchema served of
                None \<Rightarrow> Some (installed '') is missing openAPIV3Schema; apply the current CRD before upgrading the controller'')
              | Some schema \<Rightarrow>
                  let missing = missingNodeActivitySchemaFields schema
                  in if missing \<noteq> []
                     then Some (installed '') schema is older than expected: missing fields ['' @
                       [FStr (joinMissing missing), Lit '']; apply the current CRD before upgrading the controller''])
                     else None)"

text \<open>What the API reader gave: the definition, or an error that says it is not found, or another one.\<close>

datatype crdRead = CrdNotFound | CrdFailed msg | CrdFound CustomResourceDefinition

definition CheckNodeActivityCRDSchema :: "(string \<Rightarrow> crdRead) option \<Rightarrow> msg option" where
  "CheckNodeActivityCRDSchema reader =
     (case reader of
        None \<Rightarrow> Some [Lit ''CRD schema check requires a Kubernetes API reader'']
      | Some get \<Rightarrow>
          (case get NodeActivityCRDName of
             CrdNotFound \<Rightarrow> Some [Lit ''CRD '', FStr NodeActivityCRDName,
                                  Lit '' is not installed; apply the current CRD before starting the controller'']
           | CrdFailed err \<Rightarrow> Some ([Lit ''read CRD '', FStr NodeActivityCRDName, Lit '': ''] @ err)
           | CrdFound crd \<Rightarrow> ValidateNodeActivityCRD (Some crd)))"

section \<open>Specification: the paths that must exist\<close>

text \<open>
  A path into a schema, step by step.  A field is missing when its parent is there and it is not; what is
  below a missing field is not listed again.
\<close>

datatype step = Prop string | Item

fun descend :: "JSONSchemaProps option \<Rightarrow> step list \<Rightarrow> JSONSchemaProps option" where
  "descend s [] = s"
| "descend None _ = None"
| "descend (Some s) (Prop name # p) = descend (jsProperties s name) p"
| "descend (Some s) (Item # p) = descend (jsItems s) p"

fun stepsText :: "step list \<Rightarrow> string" where
  "stepsText [] = ''''"
| "stepsText (Prop name # p) = ''.'' @ name @ stepsText p"
| "stepsText (Item # p) = ''[]'' @ stepsText p"

definition pathText :: "step list \<Rightarrow> string" where
  "pathText p = tl (stepsText p)"

definition below :: "step list \<Rightarrow> string list \<Rightarrow> step list list" where
  "below p names = map (\<lambda>n. p @ [Prop n]) names"

definition specPaths :: "step list list" where
  "specPaths =
     [Prop ''spec''] #
     below [Prop ''spec''] [''nodeName'', ''leadTime''] @
     [Prop ''spec'', Prop ''windows''] #
     [Prop ''spec'', Prop ''windows'', Item] #
     below [Prop ''spec'', Prop ''windows'', Item] [''schedule'', ''duration'', ''timeZone'', ''state'']"

definition admissionPaths :: "step list list" where
  "admissionPaths =
     [Prop ''status'', Prop ''admission''] #
     below [Prop ''status'', Prop ''admission'']
       [''admitted'', ''reason'', ''message'', ''heartbeatValid'', ''heartbeatAgeSeconds''] @
     [Prop ''status'', Prop ''admission'', Prop ''burstTaint''] #
     below [Prop ''status'', Prop ''admission'', Prop ''burstTaint''] [''configured'', ''desired'', ''applied''] @
     below [Prop ''status'', Prop ''admission''] [''nextTransition'', ''nextTransitionReason'']"

definition conditionPaths :: "step list list" where
  "conditionPaths =
     [Prop ''status'', Prop ''conditions''] #
     [Prop ''status'', Prop ''conditions'', Item] #
     below [Prop ''status'', Prop ''conditions'', Item]
       [''type'', ''status'', ''observedGeneration'', ''lastTransitionTime'', ''reason'', ''message'']"

definition statusPaths :: "step list list" where
  "statusPaths =
     [Prop ''status''] #
     below [Prop ''status''] [''state'', ''activity'', ''reason'', ''observedAt'', ''heartbeatAt'', ''generation'', ''failClosed''] @
     [Prop ''status'', Prop ''managedTaint''] #
     below [Prop ''status'', Prop ''managedTaint''] [''key'', ''value'', ''effect''] @
     admissionPaths @
     conditionPaths"

definition requiredPaths :: "step list list" where
  "requiredPaths = specPaths @ statusPaths"

definition missingAt :: "JSONSchemaProps \<Rightarrow> step list \<Rightarrow> bool" where
  "missingAt root p \<longleftrightarrow> descend (Some root) p = None \<and> descend (Some root) (butlast p) \<noteq> None"

definition missingPaths :: "JSONSchemaProps \<Rightarrow> step list list \<Rightarrow> string list" where
  "missingPaths root ps = map pathText (filter (missingAt root) ps)"

lemma missingPaths_append: "missingPaths root (ps @ qs) = missingPaths root ps @ missingPaths root qs"
  by (simp add: missingPaths_def)

lemma missingPaths_Cons:
  "missingPaths root (p # ps) = (if missingAt root p then [pathText p] else []) @ missingPaths root ps"
  by (simp add: missingPaths_def)

lemma missingPaths_Nil: "missingPaths root [] = []"
  by (simp add: missingPaths_def)

lemma descend_append: "descend s (p @ q) = descend (descend s p) q"
  by (induction s p rule: descend.induct) (cases q; simp)+

lemma descend_None [simp]: "descend None p = None"
  by (cases p) simp_all

lemma stepsText_append: "stepsText (p @ q) = stepsText p @ stepsText q"
  by (induction p rule: stepsText.induct) simp_all

lemma pathText_below: "p \<noteq> [] \<Longrightarrow> pathText (p @ [Prop n]) = pathText p @ ''.'' @ n"
  by (cases p rule: stepsText.cases) (simp_all add: pathText_def stepsText_append)

lemma missingPaths_below:
  assumes "p \<noteq> []"
  shows "missingPaths root (below p names) =
     (case descend (Some root) p of None \<Rightarrow> [] | Some s \<Rightarrow> requireProperties s (pathText p) names)"
proof (cases "descend (Some root) p")
  case None
  then have "missingAt root (p @ [Prop n]) = False" for n by (simp add: missingAt_def)
  then show ?thesis using None by (simp add: missingPaths_def below_def filter_map comp_def)
next
  case (Some s)
  then have "missingAt root (p @ [Prop n]) \<longleftrightarrow> jsProperties s n = None" for n
    by (cases "jsProperties s n") (simp_all add: missingAt_def descend_append)
  then show ?thesis
    using Some assms
    by (simp add: missingPaths_def below_def filter_map comp_def requireProperties_def lookupProperty_def pathText_below)
qed

lemmas missingPaths_rules = missingPaths_append missingPaths_Cons missingPaths_Nil missingPaths_below missingAt_def

text \<open>Each part of the check finds exactly its missing paths.\<close>

lemma missingSpec_paths: "missingSpec root = missingPaths root specPaths"
proof (cases "jsProperties root ''spec''")
  case None
  then show ?thesis by (simp add: missingSpec_def specPaths_def missingPaths_rules lookupProperty_def pathText_def)
next
  case spec: (Some spec)
  show ?thesis
  proof (cases "jsProperties spec ''windows''")
    case None
    then show ?thesis
      using spec by (simp add: missingSpec_def specPaths_def missingPaths_rules lookupProperty_def pathText_def)
  next
    case (Some windows)
    then show ?thesis
      using spec
      by (cases "jsItems windows")
        (simp_all add: missingSpec_def specPaths_def missingPaths_rules lookupProperty_def pathText_def)
  qed
qed

lemma missingAdmission_paths:
  assumes "jsProperties root ''status'' = Some status"
  shows "missingAdmission status = missingPaths root admissionPaths"
proof (cases "jsProperties status ''admission''")
  case None
  then show ?thesis
    using assms by (simp add: missingAdmission_def admissionPaths_def missingPaths_rules lookupProperty_def pathText_def)
next
  case (Some admission)
  then show ?thesis
    using assms
    by (cases "jsProperties admission ''burstTaint''")
      (simp_all add: missingAdmission_def admissionPaths_def missingPaths_rules lookupProperty_def pathText_def)
qed

lemma missingConditions_paths:
  assumes "jsProperties root ''status'' = Some status"
  shows "missingConditions status = missingPaths root conditionPaths"
proof (cases "jsProperties status ''conditions''")
  case None
  then show ?thesis
    using assms by (simp add: missingConditions_def conditionPaths_def missingPaths_rules lookupProperty_def pathText_def)
next
  case (Some conditions)
  then show ?thesis
    using assms
    by (cases "jsItems conditions")
      (simp_all add: missingConditions_def conditionPaths_def missingPaths_rules lookupProperty_def pathText_def)
qed

lemma missingStatus_paths: "missingStatus root = missingPaths root statusPaths"
proof (cases "jsProperties root ''status''")
  case None
  then show ?thesis
    by (simp add: missingStatus_def statusPaths_def admissionPaths_def conditionPaths_def missingPaths_rules
        lookupProperty_def pathText_def)
next
  case (Some status)
  then show ?thesis
    by (cases "jsProperties status ''managedTaint''")
      (simp_all add: missingStatus_def statusPaths_def missingPaths_append missingPaths_Cons missingPaths_below missingAt_def
        lookupProperty_def pathText_def missingAdmission_paths missingConditions_paths)
qed

lemma missing_paths: "missingNodeActivitySchemaFields root = missingPaths root requiredPaths"
  by (simp add: missingNodeActivitySchemaFields_def requiredPaths_def missingPaths_append missingSpec_paths
      missingStatus_paths)

text \<open>Nothing is missing exactly when every path is there.\<close>

lemma requiredPaths_closed:
  "\<forall>p \<in> set requiredPaths. butlast p = [] \<or> butlast p \<in> set requiredPaths"
  by (simp add: requiredPaths_def specPaths_def statusPaths_def admissionPaths_def conditionPaths_def below_def)

lemma missingPaths_empty:
  "missingPaths root requiredPaths = [] \<longleftrightarrow> (\<forall>p \<in> set requiredPaths. descend (Some root) p \<noteq> None)"
proof
  assume "missingPaths root requiredPaths = []"
  then have ok: "\<forall>p \<in> set requiredPaths. \<not> missingAt root p"
    by (simp add: missingPaths_def filter_empty_conv)
  have "p \<in> set requiredPaths \<Longrightarrow> descend (Some root) p \<noteq> None" for p
  proof (induction p rule: rev_induct)
    case (snoc x p)
    have "descend (Some root) p \<noteq> None"
      using requiredPaths_closed snoc by (cases "p = []") fastforce+
    then show ?case using ok snoc.prems by (auto simp: missingAt_def)
  qed simp
  then show "\<forall>p \<in> set requiredPaths. descend (Some root) p \<noteq> None" by blast
next
  assume "\<forall>p \<in> set requiredPaths. descend (Some root) p \<noteq> None"
  then show "missingPaths root requiredPaths = []"
    by (simp add: missingPaths_def filter_empty_conv missingAt_def)
qed

text \<open>When the definition is accepted.\<close>

lemma ValidateNodeActivityCRD_iff:
  "ValidateNodeActivityCRD (Some crd) = None \<longleftrightarrow>
     (crdName crd = '''' \<or> crdName crd = NodeActivityCRDName) \<and>
     (crdConditions crd = [] \<or> crdIsEstablished crd) \<and>
     (\<exists>v schema. List.find (\<lambda>v. cvName v = apiVersion) (crdVersions crd) = Some v \<and> cvServed v \<and> cvStatusSubresource v \<and>
        cvSchema v = Some schema \<and> (\<forall>p \<in> set requiredPaths. descend (Some schema) p \<noteq> None))"
proof (cases "List.find (\<lambda>v. cvName v = apiVersion) (crdVersions crd)")
  case None
  then show ?thesis by (simp add: ValidateNodeActivityCRD_def)
next
  case (Some v)
  then show ?thesis
    unfolding ValidateNodeActivityCRD_def missing_paths missingPaths_empty [symmetric]
    by (cases "cvSchema v") (simp_all add: Let_def)
qed

end
