(* ===== verification/Controller.thy ===== *)
theory Controller
  imports Reconcile CrdReadiness
begin

text \<open>
  \<open>cmd/interactive-node-controller/main.go\<close>: the flags with their defaults, and what the process starts with.
  Parsing the command line fills the flags; building the scheme, the manager and its clients, and registering with
  it, is a parameter: the first error any of it gave.
\<close>

section \<open>Flags\<close>

record controllerFlags =
  flPolicy :: TaintPolicy
  flEviction :: EvictionPolicy
  flProtectedNamespaces :: string
  flMetricsAddress :: string
  flProbeAddress :: string
  flLeaderElect :: bool
  flShowVersion :: bool

definition inheritedBudget :: EvictionBudget where
  "inheritedBudget = \<lparr>ebPerNode = 0, ebGlobal = 0, ebInterval = 0, ebBurstPerNode = 0, ebBurstGlobal = 0\<rparr>"

definition defaultFlags :: controllerFlags where
  "defaultFlags =
     \<lparr>flPolicy =
        \<lparr>polKey = ''availability.interactive-node.io/state'', polInteractiveValue = ''interactive'',
         polActiveValue = ''active'', polFailClosedValue = ''unavailable'', polBurstTaintKey = '''',
         polStaleAfter = minute, polHeartbeatSkew = DefaultHeartbeatSkew, polFailClosed = True\<rparr>,
      flEviction =
        \<lparr>epEnabled = False, epAudit = True, epProtectedNamespaces = {}, epMaxPerReconcile = 1,
         epBudgetInterval = minute, epRetryBackoff = 30 * second, epRetryJitter = 5 * second,
         epEvictableLabel = EvictableLabel, epStandardBudget = inheritedBudget, epLossyBudget = inheritedBudget\<rparr>,
      flProtectedNamespaces = ''kube-system,kube-public,kube-node-lease'', flMetricsAddress = '':8080'',
      flProbeAddress = '':8081'', flLeaderElect = True, flShowVersion = False\<rparr>"

definition parseNamespaces :: "string \<Rightarrow> string set" where
  "parseNamespaces value = {name \<in> set (map trimSpace (splitOn CHR '','' value)). name \<noteq> ''''}"

section \<open>Start\<close>

text \<open>None when only the version was printed.\<close>

definition startController ::
    "(string \<Rightarrow> string list) \<Rightarrow> msg option \<Rightarrow> evictor \<Rightarrow> controllerFlags \<Rightarrow> msg + reconciler option" where
  "startController qualified setup client flags =
     (if flShowVersion flags then Inr None
      else case validatePolicy qualified (flPolicy flags) of
        Some err \<Rightarrow> Inl err
      | None \<Rightarrow>
          let eviction = (flEviction flags)\<lparr>epProtectedNamespaces := parseNamespaces (flProtectedNamespaces flags)\<rparr>
          in case validateEviction eviction of
               Some err \<Rightarrow> Inl err
             | None \<Rightarrow>
                 (case setup of
                    Some err \<Rightarrow> Inl err
                  | None \<Rightarrow> Inr (Some \<lparr>rrPolicy = flPolicy flags, rrEviction = eviction, rrEvictor = Some client\<rparr>)))"

lemma validatePolicy_None:
  assumes "validatePolicy qualified p = None"
  shows "polKey p \<noteq> ''''" "0 < polStaleAfter p" "0 \<le> polHeartbeatSkew p" "effectiveHeartbeatSkew p < polStaleAfter p"
    "polBurstTaintKey p \<noteq> polKey p" "polFailClosedValue p \<noteq> ''''"
proof -
  have "trimSpace '''' = ''''" by code_simp
  then show "polKey p \<noteq> ''''" "0 < polStaleAfter p" "0 \<le> polHeartbeatSkew p" "effectiveHeartbeatSkew p < polStaleAfter p"
    "polBurstTaintKey p \<noteq> polKey p" "polFailClosedValue p \<noteq> ''''"
    using assms unfolding validatePolicy_def by (force split: if_splits)+
qed

lemma startController_facts:
  assumes "startController qualified setup client flags = Inr (Some r)"
  shows "rrPolicy r = flPolicy flags" "validatePolicy qualified (rrPolicy r) = None"
    "validateEviction (rrEviction r) = None" "epEnabled (rrEviction r) = epEnabled (flEviction flags)"
    "epAudit (rrEviction r) = epAudit (flEviction flags)" "rrEvictor r = Some client"
    "epProtectedNamespaces (rrEviction r) = parseNamespaces (flProtectedNamespaces flags)"
  using assms by (auto simp: startController_def Let_def split: if_splits option.splits)

lemma started_policyOk:
  assumes "startController qualified setup client flags = Inr (Some r)"
    and "int64 (polStaleAfter (flPolicy flags))" "int64 (polHeartbeatSkew (flPolicy flags))"
  shows "policyOk (rrPolicy r)"
  using startController_facts(1,2) [OF assms(1)] validatePolicy_None [of _ "rrPolicy r"] assms(2,3)
  by (simp add: policyOk_def)

end
