(* ===== verification/StartProperties.thy ===== *)
theory StartProperties
  imports Controller Samples
begin

text \<open>
  The properties of the controller's start: the readiness check on the installed definition, and what a started
  controller can rely on.
\<close>

text \<open>
  C22: The controller is ready exactly when the installed definition has all it needs: the reader finds it, its name is empty or the
  expected one, it is established when it has conditions, the first version named v1alpha1 is served with the status
  subresource, and every required path of fields and items exists in its schema; and the fields the error names are exactly the
  required paths that are missing while their parent is there, in order.  A definition that reports no conditions yet passes,
  although the comment of \<open>NewCRDSchemaReadyzCheck\<close> and docs/controller.md call one that is not yet established not ready.
\<close>
theorem crd_ready_iff:
  "(CheckNodeActivityCRDSchema reader = None) =
     (\<exists>get crd v schema. reader = Some get \<and> get NodeActivityCRDName = CrdFound crd \<and>
        crdName crd \<in> {'''', NodeActivityCRDName} \<and>
        (if crdConditions crd = [] then True else crdIsEstablished crd) \<and>
        List.find (\<lambda>v. cvName v = apiVersion) (crdVersions crd) = Some v \<and> cvServed v \<and> cvStatusSubresource v \<and>
        cvSchema v = Some schema \<and> list_all (\<lambda>p. descend (Some schema) p \<noteq> None) requiredPaths) \<and>
   missingNodeActivitySchemaFields root =
     map pathText (filter (\<lambda>p. descend (Some root) p = None \<and> descend (Some root) (butlast p) \<noteq> None) requiredPaths)"
proof
  show "(CheckNodeActivityCRDSchema reader = None) =
     (\<exists>get crd v schema. reader = Some get \<and> get NodeActivityCRDName = CrdFound crd \<and>
        crdName crd \<in> {'''', NodeActivityCRDName} \<and>
        (if crdConditions crd = [] then True else crdIsEstablished crd) \<and>
        List.find (\<lambda>v. cvName v = apiVersion) (crdVersions crd) = Some v \<and> cvServed v \<and> cvStatusSubresource v \<and>
        cvSchema v = Some schema \<and> list_all (\<lambda>p. descend (Some schema) p \<noteq> None) requiredPaths)"
  proof (cases reader)
    case None
    then show ?thesis by (simp add: CheckNodeActivityCRDSchema_def)
  next
    case (Some get)
    show ?thesis
    proof (cases "get NodeActivityCRDName")
      case (CrdFound crd)
      then have c: "CheckNodeActivityCRDSchema reader = ValidateNodeActivityCRD (Some crd)"
        using Some by (simp add: CheckNodeActivityCRDSchema_def)
      show ?thesis unfolding c ValidateNodeActivityCRD_iff list_all_iff using Some CrdFound by auto
    qed (simp_all add: Some CheckNodeActivityCRDSchema_def)
  qed
  show "missingNodeActivitySchemaFields root =
     map pathText (filter (\<lambda>p. descend (Some root) p = None \<and> descend (Some root) (butlast p) \<noteq> None) requiredPaths)"
    unfolding missing_paths missingPaths_def missingAt_def [abs_def] ..
qed

text \<open>
  The definition the repository ships, \<open>config/crd/bases/availability.interactive-node.io_nodeactivities.yaml\<close>, as far as
  the check reads it: the names of the properties of each object and the items of each array.
\<close>

definition objectOf :: "(string \<times> JSONSchemaProps) list \<Rightarrow> JSONSchemaProps" where
  "objectOf ps = JSONSchemaProps (map_of ps) None"

definition leaf :: JSONSchemaProps where
  "leaf = JSONSchemaProps Map.empty None"

definition arrayOf :: "JSONSchemaProps \<Rightarrow> JSONSchemaProps" where
  "arrayOf item = JSONSchemaProps Map.empty (Some item)"

definition fields :: "string list \<Rightarrow> (string \<times> JSONSchemaProps) list" where
  "fields = map (\<lambda>n. (n, leaf))"

definition shippedSchema :: JSONSchemaProps where
  "shippedSchema =
     objectOf
       [(''spec'', objectOf (fields [''nodeName'', ''leadTime''] @
           [(''windows'', arrayOf (objectOf (fields [''schedule'', ''duration'', ''timeZone'', ''state''])))])),
        (''status'', objectOf
           (fields [''state'', ''activity'', ''reason'', ''observedAt'', ''heartbeatAt'', ''generation'', ''failClosed''] @
            [(''managedTaint'', objectOf (fields [''key'', ''value'', ''effect''])),
             (''admission'', objectOf
                (fields [''admitted'', ''reason'', ''message'', ''heartbeatValid'', ''heartbeatAgeSeconds''] @
                 [(''burstTaint'', objectOf (fields [''configured'', ''desired'', ''applied'']))] @
                 fields [''nextTransition'', ''nextTransitionReason''])),
             (''conditions'', arrayOf (objectOf
                (fields [''type'', ''status'', ''observedGeneration'', ''lastTransitionTime'', ''reason'', ''message''])))]))]"

definition shippedCRD :: CustomResourceDefinition where
  "shippedCRD =
     \<lparr>crdName = NodeActivityCRDName, crdConditions = [],
      crdVersions = [\<lparr>cvName = ''v1alpha1'', cvServed = True, cvStatusSubresource = True, cvSchema = Some shippedSchema\<rparr>]\<rparr>"

text \<open>The controller finds the definition it is shipped with ready.\<close>

lemma shipped_crd_ready: "CheckNodeActivityCRDSchema (Some (\<lambda>_. CrdFound shippedCRD)) = None"
  by code_simp

text \<open>
  C21: A started controller has a policy every pass accepts: whatever the flags, if the process starts, its taint policy is
  valid, so no pass stops on it, its stale interval exceeds the skew, its two taint keys differ, its eviction budgets are
  positive, and no protected namespace has an empty name.
\<close>
theorem started_controller_accepted:
  assumes "startController qualified setup client flags = Inr (Some r)"
    and "int64 (polStaleAfter (flPolicy flags))" "int64 (polHeartbeatSkew (flPolicy flags))"
  shows "policyOk (rrPolicy r) \<and> polBurstTaintKey (rrPolicy r) \<noteq> polKey (rrPolicy r) \<and>
    accepted (w\<lparr>wQualified := qualified\<rparr>) r \<and> '''' \<notin> epProtectedNamespaces (rrEviction r) \<and>
    0 < ebPerNode (epStandardBudget (normalized (rrEviction r))) \<and>
    0 < ebGlobal (epStandardBudget (normalized (rrEviction r))) \<and>
    0 < ebPerNode (epLossyBudget (normalized (rrEviction r))) \<and>
    0 < ebGlobal (epLossyBudget (normalized (rrEviction r))) \<and> rrEvictor r \<noteq> None"
proof -
  note f = startController_facts [OF assms(1)]
  note b = normalizedBudget_pos(1,2) [OF normalized_facts(1,2) [of "rrEviction r"]]
  show ?thesis
    using started_policyOk [OF assms] validatePolicy_None(5) [OF f(2)] f(2,6,7) b
    by (simp add: accepted_def parseNamespaces_def normalized_budgets)
qed

text \<open>The flags' defaults start it, with evictions off and only audited.\<close>

lemma started_controller_accepted_witness:
  "\<exists>r. startController (\<lambda>_. []) None (\<lambda>_ _. None) defaultFlags = Inr (Some r) \<and> policyOk (rrPolicy r) \<and>
     \<not> epEnabled (rrEviction r) \<and> ''kube-system'' \<in> epProtectedNamespaces (rrEviction r)"
proof -
  let ?s = "startController (\<lambda>_. []) None (\<lambda>_ _. None) defaultFlags"
  have v: "validatePolicy (\<lambda>_. []) (flPolicy defaultFlags) = None" by code_simp
  have e: "\<not> containsAny (epEvictableLabel (normalized (flEviction defaultFlags))) [CHR 0x20, CHR 0x09, CHR 0x0A]"
    by code_simp
  have l: "epEvictableLabel (normalized (p\<lparr>epProtectedNamespaces := ns\<rparr>)) = epEvictableLabel (normalized p)" for p ns
    by (simp add: normalized_def Let_def)
  have ev: "validateEviction ((flEviction defaultFlags)\<lparr>epProtectedNamespaces := ns\<rparr>) = None" for ns
    unfolding validateEviction_iff l by (rule e)
  have "\<not> flShowVersion defaultFlags" by (simp add: defaultFlags_def)
  then obtain r where r: "?s = Inr (Some r)"
    using v ev unfolding startController_def Let_def by simp
  have i: "int64 (polStaleAfter (flPolicy defaultFlags))" "int64 (polHeartbeatSkew (flPolicy defaultFlags))"
    by (simp_all add: defaultFlags_def minute_def int64_bounds)
  have "policyOk (rrPolicy r)" using started_controller_accepted [OF r i] by blast
  moreover have "\<not> epEnabled (rrEviction r)" using startController_facts(4) [OF r] by (simp add: defaultFlags_def)
  moreover have "''kube-system'' \<in> parseNamespaces (flProtectedNamespaces defaultFlags)" by code_simp
  ultimately show ?thesis using r startController_facts(7) [OF r] by auto
qed

end
