(* ===== verification/DeepCopy.thy ===== *)
theory DeepCopy
  imports Types
begin

text \<open>
  The hand-written \<open>DeepCopy\<close> methods of \<open>api/v1alpha1/types.go\<close>, over an explicit store: the objects with
  their pointers and slices as Go lays them out, what they mean as the values of \<open>Types\<close>, and the
  contract of a deep copy: the same value, in cells that were not there before.  The other theories use
  the values, on which a deep copy is the identity; this theory shows that they may.

  The deep copies of \<open>ObjectMeta\<close> and \<open>ListMeta\<close> are the API machinery's: parameters that meet the contract.
\<close>

section \<open>The store\<close>

text \<open>
  An address is an index into the store.  A slice has an array, an offset and a length; its capacity is
  not read by a copy.  \<open>MetaCell\<close> is what the API machinery allocates.
\<close>

type_synonym addr = nat
type_synonym slice = "(addr \<times> nat \<times> nat) option"

record specRep =
  zsNodeName :: string
  zsWindows :: slice
  zsLeadTime :: string

record admissionRep =
  zaAdmitted :: bool
  zaReason :: string
  zaMessage :: msg
  zaHeartbeatValid :: bool
  zaHeartbeatAgeSeconds :: "addr option"
  zaBurstTaint :: BurstTaintStatus
  zaNextTransition :: "addr option"
  zaNextTransitionReason :: string

record statusRep =
  ztState :: State
  ztActivity :: Activity
  ztReason :: msg
  ztObservedAt :: time
  ztHeartbeatAt :: time
  ztGeneration :: int
  ztFailClosed :: bool
  ztConditions :: slice
  ztManagedTaint :: "addr option"
  ztAdmission :: "addr option"

record 'm activityRep =
  zrTypeMeta :: "string \<times> string"
  zrObjectMeta :: 'm
  zrSpec :: specRep
  zrStatus :: statusRep

record 'l listRep =
  zlTypeMeta :: "string \<times> string"
  zlListMeta :: 'l
  zlItems :: slice

datatype ('m, 'l, 'x) cell =
  WindowsCell "AvailabilityWindow list"
| ConditionsCell "Condition list"
| TaintCell ManagedTaintStatus
| AdmissionCell admissionRep
| AgeCell int
| TimeCell time
| ActivityCell "'m activityRep"
| ItemsCell "'m activityRep list"
| ListCell "'l listRep"
| MetaCell 'x

type_synonym ('m, 'l, 'x) store = "('m, 'l, 'x) cell list"

definition alloc :: "'c \<Rightarrow> 'c list \<Rightarrow> addr \<times> 'c list" where
  "alloc c st = (length st, st @ [c])"

text \<open>A cell read at its type; Go's types leave no other cell at such an address.\<close>

definition windowsAt :: "('m, 'l, 'x) store \<Rightarrow> addr \<Rightarrow> AvailabilityWindow list" where
  "windowsAt st a = (case st ! a of WindowsCell ws \<Rightarrow> ws | _ \<Rightarrow> [])"

definition conditionsAt :: "('m, 'l, 'x) store \<Rightarrow> addr \<Rightarrow> Condition list" where
  "conditionsAt st a = (case st ! a of ConditionsCell cs \<Rightarrow> cs | _ \<Rightarrow> [])"

definition itemsAt :: "('m, 'l, 'x) store \<Rightarrow> addr \<Rightarrow> 'm activityRep list" where
  "itemsAt st a = (case st ! a of ItemsCell xs \<Rightarrow> xs | _ \<Rightarrow> [])"

definition sliceIn :: "('s \<Rightarrow> addr \<Rightarrow> 'a list) \<Rightarrow> 's \<Rightarrow> slice \<Rightarrow> 'a list" where
  "sliceIn at st s = (case s of None \<Rightarrow> [] | Some (a, off, n) \<Rightarrow> take n (drop off (at st a)))"

section \<open>The copies\<close>

text \<open>\<open>append([]AvailabilityWindow(nil), in...)\<close> of an empty slice is nil.\<close>

definition copyWindows :: "slice \<Rightarrow> ('m, 'l, 'x) store \<Rightarrow> slice \<times> ('m, 'l, 'x) store" where
  "copyWindows s st =
     (case s of
        None \<Rightarrow> (None, st)
      | Some _ \<Rightarrow>
          let ws = sliceIn windowsAt st s
          in if ws = [] then (None, st)
             else let (a, st') = alloc (WindowsCell ws) st in (Some (a, 0, length ws), st'))"

text \<open>\<open>make\<close> and \<open>copy\<close>; the copy of an empty slice is an empty array.\<close>

definition copyConditions :: "slice \<Rightarrow> ('m, 'l, 'x) store \<Rightarrow> slice \<times> ('m, 'l, 'x) store" where
  "copyConditions s st =
     (case s of
        None \<Rightarrow> (None, st)
      | Some _ \<Rightarrow>
          let cs = sliceIn conditionsAt st s; (a, st') = alloc (ConditionsCell cs) st
          in (Some (a, 0, length cs), st'))"

text \<open>A pointer: a nil one stays nil, another one is replaced by that of a new cell with the same content.\<close>

definition copyPointer :: "addr option \<Rightarrow> 'c list \<Rightarrow> addr option \<times> 'c list" where
  "copyPointer p st =
     (case p of
        None \<Rightarrow> (None, st)
      | Some a \<Rightarrow> let (b, st') = alloc (st ! a) st in (Some b, st'))"

text \<open>A pointer to a struct whose own pointers are copied; \<open>dest\<close> reads the struct in its cell.\<close>

definition copyBox ::
    "('a \<Rightarrow> 'c list \<Rightarrow> 'a \<times> 'c list) \<Rightarrow> ('c \<Rightarrow> 'a option) \<Rightarrow> ('a \<Rightarrow> 'c) \<Rightarrow> addr option \<Rightarrow> 'c list \<Rightarrow> addr option \<times> 'c list" where
  "copyBox cp dest mk p st =
     (case p of
        None \<Rightarrow> (None, st)
      | Some a \<Rightarrow>
          (case dest (st ! a) of
             None \<Rightarrow> copyPointer p st
           | Some r \<Rightarrow> let (r', st1) = cp r st; (b, st2) = alloc (mk r') st1 in (Some b, st2)))"

definition admissionOf :: "('m, 'l, 'x) cell \<Rightarrow> admissionRep option" where
  "admissionOf c = (case c of AdmissionCell r \<Rightarrow> Some r | _ \<Rightarrow> None)"

definition activityOf :: "('m, 'l, 'x) cell \<Rightarrow> 'm activityRep option" where
  "activityOf c = (case c of ActivityCell r \<Rightarrow> Some r | _ \<Rightarrow> None)"

definition listOf :: "('m, 'l, 'x) cell \<Rightarrow> 'l listRep option" where
  "listOf c = (case c of ListCell r \<Rightarrow> Some r | _ \<Rightarrow> None)"

text \<open>\<open>AdmissionStatus.DeepCopy\<close>\<close>

definition copyAdmissionFields :: "admissionRep \<Rightarrow> 'c list \<Rightarrow> admissionRep \<times> 'c list" where
  "copyAdmissionFields r st =
     (let (age, st1) = copyPointer (zaHeartbeatAgeSeconds r) st;
          (nxt, st2) = copyPointer (zaNextTransition r) st1
      in (r\<lparr>zaHeartbeatAgeSeconds := age, zaNextTransition := nxt\<rparr>, st2))"

definition copyAdmission :: "addr option \<Rightarrow> ('m, 'l, 'x) store \<Rightarrow> addr option \<times> ('m, 'l, 'x) store" where
  "copyAdmission = copyBox copyAdmissionFields admissionOf AdmissionCell"

definition copySpec :: "specRep \<Rightarrow> ('m, 'l, 'x) store \<Rightarrow> specRep \<times> ('m, 'l, 'x) store" where
  "copySpec r st = (let (ws, st1) = copyWindows (zsWindows r) st in (r\<lparr>zsWindows := ws\<rparr>, st1))"

definition copyStatus :: "statusRep \<Rightarrow> ('m, 'l, 'x) store \<Rightarrow> statusRep \<times> ('m, 'l, 'x) store" where
  "copyStatus r st =
     (let (cs, st1) = copyConditions (ztConditions r) st;
          (mt, st2) = copyPointer (ztManagedTaint r) st1;
          (ad, st3) = copyAdmission (ztAdmission r) st2
      in (r\<lparr>ztConditions := cs, ztManagedTaint := mt, ztAdmission := ad\<rparr>, st3))"

text \<open>\<open>NodeActivity.DeepCopyInto\<close>: what \<open>*out\<close> is after it, and the store.\<close>

definition copyActivity ::
    "('m \<Rightarrow> ('m, 'l, 'x) store \<Rightarrow> 'm \<times> ('m, 'l, 'x) store) \<Rightarrow> 'm activityRep \<Rightarrow> ('m, 'l, 'x) store \<Rightarrow>
     'm activityRep \<times> ('m, 'l, 'x) store" where
  "copyActivity copyMeta r st =
     (let (m, st1) = copyMeta (zrObjectMeta r) st;
          (sp, st2) = copySpec (zrSpec r) st1;
          (stat, st3) = copyStatus (zrStatus r) st2
      in (r\<lparr>zrObjectMeta := m, zrSpec := sp, zrStatus := stat\<rparr>, st3))"

text \<open>One copy after another, for the items of a list.\<close>

primrec copyAll :: "('a \<Rightarrow> 's \<Rightarrow> 'a \<times> 's) \<Rightarrow> 'a list \<Rightarrow> 's \<Rightarrow> 'a list \<times> 's" where
  "copyAll cp [] st = ([], st)"
| "copyAll cp (x # xs) st =
     (let (y, st1) = cp x st; (ys, st2) = copyAll cp xs st1 in (y # ys, st2))"

text \<open>
  \<open>NodeActivityList.DeepCopyInto\<close>.  The array of the items is allocated here once its items are copied; the
  code allocates it first and fills it.
\<close>

definition copyItems ::
    "('m \<Rightarrow> ('m, 'l, 'x) store \<Rightarrow> 'm \<times> ('m, 'l, 'x) store) \<Rightarrow> slice \<Rightarrow> ('m, 'l, 'x) store \<Rightarrow>
     slice \<times> ('m, 'l, 'x) store" where
  "copyItems copyMeta s st =
     (case s of
        None \<Rightarrow> (None, st)
      | Some _ \<Rightarrow>
          let (xs, st1) = copyAll (copyActivity copyMeta) (sliceIn itemsAt st s) st;
              (a, st2) = alloc (ItemsCell xs) st1
          in (Some (a, 0, length xs), st2))"

definition copyList ::
    "('m \<Rightarrow> ('m, 'l, 'x) store \<Rightarrow> 'm \<times> ('m, 'l, 'x) store) \<Rightarrow>
     ('l \<Rightarrow> ('m, 'l, 'x) store \<Rightarrow> 'l \<times> ('m, 'l, 'x) store) \<Rightarrow> 'l listRep \<Rightarrow> ('m, 'l, 'x) store \<Rightarrow>
     'l listRep \<times> ('m, 'l, 'x) store" where
  "copyList copyMeta copyListMeta r st =
     (let (lm, st1) = copyListMeta (zlListMeta r) st; (xs, st2) = copyItems copyMeta (zlItems r) st1
      in (r\<lparr>zlListMeta := lm, zlItems := xs\<rparr>, st2))"

text \<open>\<open>DeepCopy\<close> of a pointer to a NodeActivity, and of one to a list: nil stays nil.\<close>

definition deepCopyActivity ::
    "('m \<Rightarrow> ('m, 'l, 'x) store \<Rightarrow> 'm \<times> ('m, 'l, 'x) store) \<Rightarrow> addr option \<Rightarrow> ('m, 'l, 'x) store \<Rightarrow>
     addr option \<times> ('m, 'l, 'x) store" where
  "deepCopyActivity copyMeta = copyBox (copyActivity copyMeta) activityOf ActivityCell"

definition deepCopyList ::
    "('m \<Rightarrow> ('m, 'l, 'x) store \<Rightarrow> 'm \<times> ('m, 'l, 'x) store) \<Rightarrow>
     ('l \<Rightarrow> ('m, 'l, 'x) store \<Rightarrow> 'l \<times> ('m, 'l, 'x) store) \<Rightarrow> addr option \<Rightarrow> ('m, 'l, 'x) store \<Rightarrow>
     addr option \<times> ('m, 'l, 'x) store" where
  "deepCopyList copyMeta copyListMeta = copyBox (copyList copyMeta copyListMeta) listOf ListCell"

section \<open>The contract of a deep copy\<close>

text \<open>
  \<open>val st x\<close> is what \<open>x\<close> means in the store, \<open>addrs st x\<close> the addresses it can reach.  A copy writes to no cell that
  was there, means the same, and reaches only cells it allocated; and what \<open>x\<close> means depends on the
  cells it reaches only.
\<close>

locale deep_copy =
  fixes cp :: "'a \<Rightarrow> 'c list \<Rightarrow> 'a \<times> 'c list"
    and val :: "'c list \<Rightarrow> 'a \<Rightarrow> 'v"
    and addrs :: "'c list \<Rightarrow> 'a \<Rightarrow> addr set"
  assumes copied: "addrs st x \<subseteq> {..<length st} \<Longrightarrow> cp x st = (y, st') \<Longrightarrow>
      take (length st) st' = st \<and> val st' y = val st x \<and> addrs st' y \<subseteq> {length st..<length st'}"
    and reads: "addrs st x \<subseteq> {..<length st} \<Longrightarrow> \<forall>a \<in> addrs st x. a < length st2 \<and> st2 ! a = st ! a \<Longrightarrow>
      val st2 x = val st x \<and> addrs st2 x = addrs st x"
begin

lemma grows: "addrs st x \<subseteq> {..<length st} \<Longrightarrow> cp x st = (y, st') \<Longrightarrow> length st \<le> length st'"
  using copied [of st x y st'] by (metis length_take min.absorb_iff1 min.commute)

text \<open>The old cells are still there, so what was reached from them is unchanged.\<close>

lemma kept:
  assumes "take (length st) st2 = st" "addrs st x \<subseteq> {..<length st}"
  shows "val st2 x = val st x" "addrs st2 x = addrs st x" "addrs st2 x \<subseteq> {..<length st2}"
proof -
  have l: "length st \<le> length st2" using assms(1) by (metis length_take min.absorb_iff1 min.commute)
  have "a < length st2 \<and> st2 ! a = st ! a" if "a \<in> addrs st x" for a
  proof -
    have "a < length st" using that assms(2) by auto
    then show ?thesis using l assms(1) nth_take [of a "length st" st2] by simp
  qed
  then have "\<forall>a \<in> addrs st x. a < length st2 \<and> st2 ! a = st ! a" by blast
  from reads [OF assms(2) this] show "val st2 x = val st x" "addrs st2 x = addrs st x" by blast+
  then show "addrs st2 x \<subseteq> {..<length st2}" using assms(2) l by auto
qed

text \<open>Whatever is written to the old cells later, the copy means what the original did; and the other way round.\<close>

lemma isolated:
  assumes "addrs st x \<subseteq> {..<length st}" "cp x st = (y, st')"
  shows "val st' y = val st x" "take (length st) st' = st" "addrs st' y \<inter> {..<length st} = {}"
    and "length st' \<le> length st2 \<Longrightarrow> \<forall>a. length st \<le> a \<and> a < length st' \<longrightarrow> st2 ! a = st' ! a \<Longrightarrow> val st2 y = val st x"
    and "take (length st) st2 = st \<Longrightarrow> val st2 x = val st x"
proof -
  note c = copied [OF assms]
  show "val st' y = val st x" "take (length st) st' = st" using c by blast+
  show "addrs st' y \<inter> {..<length st} = {}" using c by fastforce
  show "val st2 x = val st x" if "take (length st) st2 = st" using kept(1) [OF that assms(1)] .
  show "val st2 y = val st x" if "length st' \<le> length st2" "\<forall>a. length st \<le> a \<and> a < length st' \<longrightarrow> st2 ! a = st' ! a"
  proof -
    have "addrs st' y \<subseteq> {..<length st'}" using c by auto
    moreover have "\<forall>a \<in> addrs st' y. a < length st2 \<and> st2 ! a = st' ! a" using c that by fastforce
    ultimately show ?thesis using reads c by metis
  qed
qed

end

section \<open>Deep copies of parts make deep copies\<close>

text \<open>Two in a row: the second finds its own cells, and leaves those of the first copy.\<close>

definition copyBoth :: "('a \<Rightarrow> 's \<Rightarrow> 'a \<times> 's) \<Rightarrow> ('b \<Rightarrow> 's \<Rightarrow> 'b \<times> 's) \<Rightarrow> 'a \<times> 'b \<Rightarrow> 's \<Rightarrow> ('a \<times> 'b) \<times> 's" where
  "copyBoth f g = (\<lambda>(x, y) st. let (x', st1) = f x st; (y', st2) = g y st1 in ((x', y'), st2))"

lemma deep_copy_both:
  assumes "deep_copy f fv fa" "deep_copy g gv ga"
  shows "deep_copy (copyBoth f g) (\<lambda>st (x, y). (fv st x, gv st y)) (\<lambda>st (x, y). fa st x \<union> ga st y)"
proof (rule deep_copy.intro)
  fix st p p' st'
  assume valid: "(case p of (x, y) \<Rightarrow> fa st x \<union> ga st y) \<subseteq> {..<length st}" and c: "copyBoth f g p st = (p', st')"
  obtain x y where p: "p = (x, y)" by fastforce
  obtain x' st1 where f: "f x st = (x', st1)" by fastforce
  obtain y' where g: "g y st1 = (y', st')" and p': "p' = (x', y')"
    using c by (auto simp: copyBoth_def p f split: prod.splits)
  have vx: "fa st x \<subseteq> {..<length st}" and vy: "ga st y \<subseteq> {..<length st}" using valid p by auto
  note cf = deep_copy.copied [OF assms(1) vx f]
  have t1: "take (length st) st1 = st" using cf by blast
  note ky = deep_copy.kept [OF assms(2) t1 vy]
  note cg = deep_copy.copied [OF assms(2) ky(3) g]
  have t2: "take (length st1) st' = st1" using cg by blast
  have "fa st1 x' \<subseteq> {..<length st1}" using cf by auto
  note kx = deep_copy.kept [OF assms(1) t2 this]
  have l: "length st \<le> length st1" "length st1 \<le> length st'"
    using deep_copy.grows [OF assms(1) vx f] deep_copy.grows [OF assms(2) ky(3) g] .
  have "take (length st) st' = st" using t1 t2 l(1) by (metis min.absorb1 take_take)
  then show "take (length st) st' = st \<and> (case p' of (x, y) \<Rightarrow> (fv st' x, gv st' y)) = (case p of (x, y) \<Rightarrow> (fv st x, gv st y)) \<and>
      (case p' of (x, y) \<Rightarrow> fa st' x \<union> ga st' y) \<subseteq> {length st..<length st'}"
    using cf cg kx ky l by (auto simp: p p')
next
  fix st p st2
  assume v: "(case p of (x, y) \<Rightarrow> fa st x \<union> ga st y) \<subseteq> {..<length st}"
    and e: "\<forall>a \<in> (case p of (x, y) \<Rightarrow> fa st x \<union> ga st y). a < length st2 \<and> st2 ! a = st ! a"
  obtain x y where p: "p = (x, y)" by fastforce
  have "fv st2 x = fv st x \<and> fa st2 x = fa st x" using v e p by (intro deep_copy.reads [OF assms(1)]) auto
  moreover have "gv st2 y = gv st y \<and> ga st2 y = ga st y" using v e p by (intro deep_copy.reads [OF assms(2)]) auto
  ultimately show "(case p of (x, y) \<Rightarrow> (fv st2 x, gv st2 y)) = (case p of (x, y) \<Rightarrow> (fv st x, gv st y)) \<and>
      (case p of (x, y) \<Rightarrow> fa st2 x \<union> ga st2 y) = (case p of (x, y) \<Rightarrow> fa st x \<union> ga st y)"
    by (simp add: p)
qed

text \<open>The parts of a struct that are copied, in place.\<close>

lemma deep_copy_parts:
  assumes "deep_copy f fv fa" "\<And>r p. get (put p r) = p" "\<And>r p v. F (put p r) v = F r v"
    and cp: "\<And>r st. cp r st = (let (p, st') = f (get r) st in (put p r, st'))"
    and val: "\<And>st r. val st r = F r (fv st (get r))" and addrs: "\<And>st r. addrs st r = fa st (get r)"
  shows "deep_copy cp val addrs"
proof (rule deep_copy.intro)
  fix st r r' st'
  assume v: "addrs st r \<subseteq> {..<length st}" and c: "cp r st = (r', st')"
  obtain p st1 where f: "f (get r) st = (p, st1)" by fastforce
  then have p: "r' = put p r" "st1 = st'" using c unfolding cp by simp_all
  show "take (length st) st' = st \<and> val st' r' = val st r \<and> addrs st' r' \<subseteq> {length st..<length st'}"
    using deep_copy.copied [OF assms(1) v [unfolded addrs] f] unfolding val addrs p assms(2,3) by simp
next
  fix st r st2
  assume "addrs st r \<subseteq> {..<length st}" "\<forall>a \<in> addrs st r. a < length st2 \<and> st2 ! a = st ! a"
  then show "val st2 r = val st r \<and> addrs st2 r = addrs st r"
    using deep_copy.reads [OF assms(1)] unfolding val addrs by metis
qed

text \<open>A pointer to a struct that is itself copied deeply.\<close>

definition boxValue :: "('c \<Rightarrow> 'a option) \<Rightarrow> ('c list \<Rightarrow> 'a \<Rightarrow> 'v) \<Rightarrow> 'c list \<Rightarrow> addr option \<Rightarrow> 'v option option" where
  "boxValue dest val st p = map_option (\<lambda>a. map_option (val st) (dest (st ! a))) p"

definition boxAddrs :: "('c \<Rightarrow> 'a option) \<Rightarrow> ('c list \<Rightarrow> 'a \<Rightarrow> addr set) \<Rightarrow> 'c list \<Rightarrow> addr option \<Rightarrow> addr set" where
  "boxAddrs dest addrs st p =
     (case p of None \<Rightarrow> {} | Some a \<Rightarrow> insert a (case dest (st ! a) of None \<Rightarrow> {} | Some r \<Rightarrow> addrs st r))"

lemma deep_copy_box:
  assumes d: "deep_copy cp val addrs" and dest: "\<And>r. dest (mk r) = Some r"
  shows "deep_copy (copyBox cp dest mk) (boxValue dest val) (boxAddrs dest addrs)"
proof (rule deep_copy.intro)
  fix st p q st'
  assume v: "boxAddrs dest addrs st p \<subseteq> {..<length st}" and c: "copyBox cp dest mk p st = (q, st')"
  show "take (length st) st' = st \<and> boxValue dest val st' q = boxValue dest val st p \<and>
      boxAddrs dest addrs st' q \<subseteq> {length st..<length st'}"
  proof (cases p)
    case None
    then show ?thesis using c by (auto simp: copyBox_def boxValue_def boxAddrs_def)
  next
    case p: (Some a)
    show ?thesis
    proof (cases "dest (st ! a)")
      case None
      then have "q = Some (length st)" "st' = st @ [st ! a]"
        using c by (auto simp: p copyBox_def copyPointer_def alloc_def)
      then show ?thesis using None by (simp add: p boxValue_def boxAddrs_def)
    next
      case (Some r)
      obtain r' st1 where r: "cp r st = (r', st1)" by fastforce
      then have q: "q = Some (length st1)" "st' = st1 @ [mk r']"
        using c Some by (auto simp: p copyBox_def alloc_def)
      have vr: "addrs st r \<subseteq> {..<length st}" using v Some by (simp add: p boxAddrs_def)
      note cr = deep_copy.copied [OF d vr r] and l = deep_copy.grows [OF d vr r]
      have "addrs st1 r' \<subseteq> {..<length st1}" using cr by auto
      note k = deep_copy.kept [OF d _ this, of st']
      have "val st' r' = val st1 r'" "addrs st' r' = addrs st1 r'" using k(1,2) q(2) by simp_all
      then show ?thesis using cr l Some q by (auto simp: p dest boxValue_def boxAddrs_def)
    qed
  qed
next
  fix st p st2
  assume "boxAddrs dest addrs st p \<subseteq> {..<length st}"
    "\<forall>a \<in> boxAddrs dest addrs st p. a < length st2 \<and> st2 ! a = st ! a"
  then show "boxValue dest val st2 p = boxValue dest val st p \<and> boxAddrs dest addrs st2 p = boxAddrs dest addrs st p"
    using deep_copy.reads [OF d, of st _ st2]
    by (cases p; cases "dest (st ! the p)") (auto simp: boxValue_def boxAddrs_def)
qed

text \<open>A pointer to a value without pointers.\<close>

interpretation plain_pointer: deep_copy copyPointer "\<lambda>st. map_option (\<lambda>a. st ! a)" "\<lambda>_. set_option"
  by unfold_locales (auto simp: copyPointer_def alloc_def map_option_case split: option.splits)

text \<open>The same, read at a type.\<close>

lemma deep_copy_read:
  assumes "deep_copy cp val addrs"
  shows "deep_copy cp (\<lambda>st x. f (val st x)) addrs"
  using deep_copy.copied [OF assms] deep_copy.reads [OF assms] by (intro deep_copy.intro) metis+

text \<open>A slice whose array is copied.\<close>

definition sliceAddrs :: "slice \<Rightarrow> addr set" where
  "sliceAddrs s = (case s of None \<Rightarrow> {} | Some (a, off, n) \<Rightarrow> {a})"

lemma take_available [simp]: "take (min (length xs - k) n) (drop k xs) = take n (drop k xs)"
  by (simp add: min_def)

interpretation windows: deep_copy copyWindows "sliceIn windowsAt" "\<lambda>_. sliceAddrs"
  by unfold_locales
    (auto simp: copyWindows_def sliceIn_def windowsAt_def sliceAddrs_def alloc_def Let_def
      split: option.splits prod.splits if_splits)

interpretation conditions: deep_copy copyConditions "sliceIn conditionsAt" "\<lambda>_. sliceAddrs"
  by unfold_locales
    (auto simp: copyConditions_def sliceIn_def conditionsAt_def sliceAddrs_def alloc_def Let_def
      split: option.splits prod.splits)

text \<open>The items of a list, one after another.\<close>

lemma deep_copy_all:
  assumes d: "deep_copy cp val addrs"
  shows "deep_copy (copyAll cp) (\<lambda>st. map (val st)) (\<lambda>st xs. \<Union>x \<in> set xs. addrs st x)"
proof (rule deep_copy.intro)
  fix st xs ys st'
  assume "(\<Union>x \<in> set xs. addrs st x) \<subseteq> {..<length st}" "copyAll cp xs st = (ys, st')"
  then show "take (length st) st' = st \<and> map (val st') ys = map (val st) xs \<and>
      (\<Union>y \<in> set ys. addrs st' y) \<subseteq> {length st..<length st'}"
  proof (induction xs arbitrary: st ys)
    case Nil
    then show ?case by simp
  next
    case (Cons x xs)
    obtain y st1 where x: "cp x st = (y, st1)" by fastforce
    obtain zs where xs: "copyAll cp xs st1 = (zs, st')" and ys: "ys = y # zs"
      using Cons.prems(2) by (auto simp: x split: prod.splits)
    have vx: "addrs st x \<subseteq> {..<length st}" and vs: "(\<Union>x \<in> set xs. addrs st x) \<subseteq> {..<length st}"
      using Cons.prems(1) by auto
    note c = deep_copy.copied [OF d vx x] and l = deep_copy.grows [OF d vx x]
    have t: "take (length st) st1 = st" using c by blast
    have k: "addrs st z \<subseteq> {..<length st}" if "z \<in> set xs" for z using vs that by auto
    have same: "val st1 z = val st z" "addrs st1 z = addrs st z" if "z \<in> set xs" for z
      using deep_copy.kept [OF d t k [OF that]] by blast+
    have "(\<Union>x \<in> set xs. addrs st1 x) \<subseteq> {..<length st1}" using vs same l by fastforce
    note IH = Cons.IH [OF this xs]
    have l1: "length st1 \<le> length st'" using IH by (metis length_take min.absorb_iff1 min.commute)
    have "addrs st1 y \<subseteq> {..<length st1}" using c by auto
    note ky = deep_copy.kept [OF d conjunct1 [OF IH] this]
    have "take (length st) st' = st" using t IH l by (metis min.absorb1 take_take)
    moreover have "map (val st') ys = map (val st) (x # xs)" using IH ky c same by (simp add: ys)
    moreover have "(\<Union>y \<in> set ys. addrs st' y) \<subseteq> {length st..<length st'}"
      using IH ky(2) c l l1 by (fastforce simp: ys)
    ultimately show ?case by blast
  qed
next
  fix st xs st2
  assume v: "(\<Union>x \<in> set xs. addrs st x) \<subseteq> {..<length st}"
    and e: "\<forall>a \<in> \<Union>x \<in> set xs. addrs st x. a < length st2 \<and> st2 ! a = st ! a"
  have "val st2 x = val st x \<and> addrs st2 x = addrs st x" if "x \<in> set xs" for x
    using v e that by (intro deep_copy.reads [OF d]) auto
  then show "map (val st2) xs = map (val st) xs \<and> (\<Union>x \<in> set xs. addrs st2 x) = (\<Union>x \<in> set xs. addrs st x)"
    by simp
qed

section \<open>The methods are deep copies\<close>

text \<open>What the objects mean: the values of \<open>Types\<close>.\<close>

definition ageOf :: "('m, 'l, 'x) cell \<Rightarrow> int option" where
  "ageOf c = (case c of AgeCell n \<Rightarrow> Some n | _ \<Rightarrow> None)"

definition timeOf :: "('m, 'l, 'x) cell \<Rightarrow> time option" where
  "timeOf c = (case c of TimeCell t \<Rightarrow> Some t | _ \<Rightarrow> None)"

definition taintOf :: "('m, 'l, 'x) cell \<Rightarrow> ManagedTaintStatus option" where
  "taintOf c = (case c of TaintCell t \<Rightarrow> Some t | _ \<Rightarrow> None)"

definition pointee :: "('c \<Rightarrow> 'a option) \<Rightarrow> 'c list \<Rightarrow> addr option \<Rightarrow> 'a option" where
  "pointee f st p = Option.bind p (\<lambda>a. f (st ! a))"

definition admissionFields :: "('m, 'l, 'x) store \<Rightarrow> admissionRep \<Rightarrow> AdmissionStatus" where
  "admissionFields st r =
     \<lparr>adAdmitted = zaAdmitted r, adReason = zaReason r, adMessage = zaMessage r, adHeartbeatValid = zaHeartbeatValid r,
      adHeartbeatAgeSeconds = pointee ageOf st (zaHeartbeatAgeSeconds r), adBurstTaint = zaBurstTaint r,
      adNextTransition = pointee timeOf st (zaNextTransition r), adNextTransitionReason = zaNextTransitionReason r\<rparr>"

definition admissionValue :: "('m, 'l, 'x) store \<Rightarrow> addr option \<Rightarrow> AdmissionStatus option" where
  "admissionValue st p = Option.bind (boxValue admissionOf admissionFields st p) id"

definition specValue :: "('m, 'l, 'x) store \<Rightarrow> specRep \<Rightarrow> NodeActivitySpec" where
  "specValue st r =
     \<lparr>specNodeName = zsNodeName r, specWindows = sliceIn windowsAt st (zsWindows r), specLeadTime = zsLeadTime r\<rparr>"

definition statusValue :: "('m, 'l, 'x) store \<Rightarrow> statusRep \<Rightarrow> NodeActivityStatus" where
  "statusValue st r =
     \<lparr>stState = ztState r, stActivity = ztActivity r, stReason = ztReason r, stObservedAt = ztObservedAt r,
      stHeartbeatAt = ztHeartbeatAt r, stGeneration = ztGeneration r, stFailClosed = ztFailClosed r,
      stConditions = sliceIn conditionsAt st (ztConditions r),
      stManagedTaint = pointee taintOf st (ztManagedTaint r), stAdmission = admissionValue st (ztAdmission r)\<rparr>"

text \<open>What they reach.\<close>

definition admissionAddrs :: "('m, 'l, 'x) store \<Rightarrow> addr option \<Rightarrow> addr set" where
  "admissionAddrs =
     boxAddrs admissionOf (\<lambda>_ r. set_option (zaHeartbeatAgeSeconds r) \<union> set_option (zaNextTransition r))"

definition statusAddrs :: "('m, 'l, 'x) store \<Rightarrow> statusRep \<Rightarrow> addr set" where
  "statusAddrs st r = sliceAddrs (ztConditions r) \<union> (set_option (ztManagedTaint r) \<union> admissionAddrs st (ztAdmission r))"

lemma deep_copy_pointer: "deep_copy copyPointer (pointee f) (\<lambda>_. set_option)"
proof -
  have "pointee f = (\<lambda>st p. Option.bind (map_option (\<lambda>a. st ! a) p) f)"
    by (intro ext) (simp add: pointee_def map_option_case split: option.splits)
  then show ?thesis using deep_copy_read [OF plain_pointer.deep_copy_axioms, of "\<lambda>v. Option.bind v f"] by simp
qed

interpretation admission: deep_copy copyAdmission admissionValue admissionAddrs
proof -
  have "deep_copy copyAdmissionFields admissionFields
      (\<lambda>_ r. set_option (zaHeartbeatAgeSeconds r) \<union> set_option (zaNextTransition r))"
    by (rule deep_copy_parts [OF deep_copy_both [OF deep_copy_pointer deep_copy_pointer],
          of "\<lambda>r. (zaHeartbeatAgeSeconds r, zaNextTransition r)"
             "\<lambda>(age, nxt) r. r\<lparr>zaHeartbeatAgeSeconds := age, zaNextTransition := nxt\<rparr>"
             "\<lambda>r (age, nxt). \<lparr>adAdmitted = zaAdmitted r, adReason = zaReason r, adMessage = zaMessage r,
                adHeartbeatValid = zaHeartbeatValid r, adHeartbeatAgeSeconds = age, adBurstTaint = zaBurstTaint r,
                adNextTransition = nxt, adNextTransitionReason = zaNextTransitionReason r\<rparr>" _ _ ageOf timeOf])
      (auto simp: copyAdmissionFields_def copyBoth_def admissionFields_def split: prod.splits)
  then show "deep_copy copyAdmission admissionValue admissionAddrs"
    using deep_copy_read [OF deep_copy_box, of copyAdmissionFields admissionFields _ admissionOf AdmissionCell "\<lambda>v. Option.bind v id"]
    by (simp add: copyAdmission_def admissionValue_def [abs_def] admissionAddrs_def admissionOf_def)
qed

interpretation specs: deep_copy copySpec specValue "\<lambda>_ r. sliceAddrs (zsWindows r)"
  by (rule deep_copy_parts [OF windows.deep_copy_axioms, of zsWindows "\<lambda>ws r. r\<lparr>zsWindows := ws\<rparr>"
        "\<lambda>r ws. \<lparr>specNodeName = zsNodeName r, specWindows = ws, specLeadTime = zsLeadTime r\<rparr>"])
    (auto simp: copySpec_def specValue_def)

interpretation statuses: deep_copy copyStatus statusValue statusAddrs
  by (rule deep_copy_parts [OF deep_copy_both [OF conditions.deep_copy_axioms
          deep_copy_both [OF deep_copy_pointer admission.deep_copy_axioms]],
        of "\<lambda>r. (ztConditions r, ztManagedTaint r, ztAdmission r)"
           "\<lambda>(cs, mt, ad) r. r\<lparr>ztConditions := cs, ztManagedTaint := mt, ztAdmission := ad\<rparr>"
           "\<lambda>r (cs, mt, ad). \<lparr>stState = ztState r, stActivity = ztActivity r, stReason = ztReason r,
              stObservedAt = ztObservedAt r, stHeartbeatAt = ztHeartbeatAt r, stGeneration = ztGeneration r,
              stFailClosed = ztFailClosed r, stConditions = cs, stManagedTaint = mt, stAdmission = ad\<rparr>" _ _ taintOf])
    (auto simp: copyStatus_def copyBoth_def statusValue_def statusAddrs_def split: prod.splits)

text \<open>A NodeActivity and a list of them, for any deep copies of their metadata.\<close>

definition activityValue ::
    "(('m, 'l, 'x) store \<Rightarrow> 'm \<Rightarrow> 'v) \<Rightarrow> ('m, 'l, 'x) store \<Rightarrow> 'm activityRep \<Rightarrow>
     (string \<times> string) \<times> 'v \<times> NodeActivitySpec \<times> NodeActivityStatus" where
  "activityValue mv st r = (zrTypeMeta r, mv st (zrObjectMeta r), specValue st (zrSpec r), statusValue st (zrStatus r))"

definition activityAddrs ::
    "(('m, 'l, 'x) store \<Rightarrow> 'm \<Rightarrow> addr set) \<Rightarrow> ('m, 'l, 'x) store \<Rightarrow> 'm activityRep \<Rightarrow> addr set" where
  "activityAddrs ma st r =
     ma st (zrObjectMeta r) \<union> (sliceAddrs (zsWindows (zrSpec r)) \<union> statusAddrs st (zrStatus r))"

definition itemsValue ::
    "(('m, 'l, 'x) store \<Rightarrow> 'm \<Rightarrow> 'v) \<Rightarrow> ('m, 'l, 'x) store \<Rightarrow> slice \<Rightarrow>
     ((string \<times> string) \<times> 'v \<times> NodeActivitySpec \<times> NodeActivityStatus) list" where
  "itemsValue mv st s = map (activityValue mv st) (sliceIn itemsAt st s)"

definition itemsAddrs ::
    "(('m, 'l, 'x) store \<Rightarrow> 'm \<Rightarrow> addr set) \<Rightarrow> ('m, 'l, 'x) store \<Rightarrow> slice \<Rightarrow> addr set" where
  "itemsAddrs ma st s = sliceAddrs s \<union> (\<Union>r \<in> set (sliceIn itemsAt st s). activityAddrs ma st r)"

definition listFields where
  "listFields mv lv st r = (zlTypeMeta r, lv st (zlListMeta r), itemsValue mv st (zlItems r))"

definition listAddrs where
  "listAddrs ma la = boxAddrs listOf (\<lambda>st r. la st (zlListMeta r) \<union> itemsAddrs ma st (zlItems r))"

text \<open>What a pointer to a list points to: nothing, or the values of its fields and items.\<close>

definition listValue where
  "listValue mv lv = boxValue listOf (listFields mv lv)"

lemma deep_copy_activity:
  assumes "deep_copy copyMeta mv ma"
  shows "deep_copy (copyActivity copyMeta) (activityValue mv) (activityAddrs ma)"
  by (rule deep_copy_parts [OF deep_copy_both [OF assms deep_copy_both [OF specs.deep_copy_axioms statuses.deep_copy_axioms]],
        of "\<lambda>r. (zrObjectMeta r, zrSpec r, zrStatus r)"
           "\<lambda>(m, sp, stat) r. r\<lparr>zrObjectMeta := m, zrSpec := sp, zrStatus := stat\<rparr>"
           "\<lambda>r (m, sp, stat). (zrTypeMeta r, m, sp, stat)"])
    (auto simp: copyActivity_def copyBoth_def activityValue_def activityAddrs_def split: prod.splits)

lemma deep_copy_items:
  assumes "deep_copy copyMeta mv ma"
  shows "deep_copy (copyItems copyMeta) (itemsValue mv) (itemsAddrs ma)"
proof (rule deep_copy.intro)
  note all = deep_copy_all [OF deep_copy_activity [OF assms]]
  fix st s q st'
  assume v: "itemsAddrs ma st s \<subseteq> {..<length st}" and c: "copyItems copyMeta s st = (q, st')"
  show "take (length st) st' = st \<and> itemsValue mv st' q = itemsValue mv st s \<and> itemsAddrs ma st' q \<subseteq> {length st..<length st'}"
  proof (cases s)
    case None
    then show ?thesis using c by (auto simp: copyItems_def itemsValue_def itemsAddrs_def sliceIn_def sliceAddrs_def)
  next
    case (Some t)
    obtain xs st1 where x: "copyAll (copyActivity copyMeta) (sliceIn itemsAt st s) st = (xs, st1)" by fastforce
    then have q: "q = Some (length st1, 0, length xs)" "st' = st1 @ [ItemsCell xs]"
      using c Some by (auto simp: copyItems_def alloc_def)
    have vi: "(\<Union>r \<in> set (sliceIn itemsAt st s). activityAddrs ma st r) \<subseteq> {..<length st}"
      using v by (simp add: itemsAddrs_def)
    note cx = deep_copy.copied [OF all vi x] and l = deep_copy.grows [OF all vi x]
    have "(\<Union>r \<in> set xs. activityAddrs ma st1 r) \<subseteq> {..<length st1}" using cx by auto
    note k = deep_copy.kept [OF all _ this, of st']
    have same: "map (activityValue mv st') xs = map (activityValue mv st1) xs"
      "(\<Union>r \<in> set xs. activityAddrs ma st' r) = (\<Union>r \<in> set xs. activityAddrs ma st1 r)"
      using k(1,2) q(2) by simp_all
    have read: "sliceIn itemsAt st' q = xs" by (simp add: q sliceIn_def itemsAt_def)
    have "itemsValue mv st' q = itemsValue mv st s" using cx same(1) by (simp add: itemsValue_def read)
    moreover have "itemsAddrs ma st' q \<subseteq> {length st..<length st'}"
      unfolding itemsAddrs_def read same(2) using cx l by (fastforce simp: q sliceAddrs_def)
    moreover have "take (length st) st' = st" using cx l by (simp add: q)
    ultimately show ?thesis by blast
  qed
next
  fix st s st2
  assume v: "itemsAddrs ma st s \<subseteq> {..<length st}"
    and e: "\<forall>a \<in> itemsAddrs ma st s. a < length st2 \<and> st2 ! a = st ! a"
  have read: "sliceIn itemsAt st2 s = sliceIn itemsAt st s"
    using e by (cases s) (auto simp: sliceIn_def itemsAddrs_def sliceAddrs_def itemsAt_def)
  have "activityValue mv st2 r = activityValue mv st r \<and> activityAddrs ma st2 r = activityAddrs ma st r"
    if "r \<in> set (sliceIn itemsAt st s)" for r
    using v e that by (intro deep_copy.reads [OF deep_copy_activity [OF assms]]) (auto simp: itemsAddrs_def)
  then show "itemsValue mv st2 s = itemsValue mv st s \<and> itemsAddrs ma st2 s = itemsAddrs ma st s"
    by (simp add: itemsValue_def itemsAddrs_def read)
qed

lemma deep_copy_activity_pointer:
  assumes "deep_copy copyMeta mv ma"
  shows "deep_copy (deepCopyActivity copyMeta) (boxValue activityOf (activityValue mv)) (boxAddrs activityOf (activityAddrs ma))"
  unfolding deepCopyActivity_def by (rule deep_copy_box [OF deep_copy_activity [OF assms]]) (simp add: activityOf_def)

lemma deep_copy_list_pointer:
  assumes "deep_copy copyMeta mv ma" "deep_copy copyListMeta lv la"
  shows "deep_copy (deepCopyList copyMeta copyListMeta) (listValue mv lv) (listAddrs ma la)"
proof -
  have "deep_copy (copyList copyMeta copyListMeta) (listFields mv lv)
      (\<lambda>st r. la st (zlListMeta r) \<union> itemsAddrs ma st (zlItems r))"
    by (rule deep_copy_parts [OF deep_copy_both [OF assms(2) deep_copy_items [OF assms(1)]],
          of "\<lambda>r. (zlListMeta r, zlItems r)" "\<lambda>(lm, xs) r. r\<lparr>zlListMeta := lm, zlItems := xs\<rparr>"
             "\<lambda>r (lm, xs). (zlTypeMeta r, lm, xs)"])
      (auto simp: copyList_def copyBoth_def listFields_def split: prod.splits)
  then show ?thesis
    unfolding deepCopyList_def listValue_def listAddrs_def by (rule deep_copy_box) (simp add: listOf_def)
qed

section \<open>Copies are isolated\<close>

text \<open>
  C23: A deep copy shares nothing with the original: copying a list of NodeActivities, whatever pointers and slices its items
  share, writes to no existing cell and gives a list with the same items, windows, conditions, taints and admissions that reaches
  only cells of its own; so whatever is written later to the cells that were there, the copy keeps its content, and
  whatever is written to the cells of the copy, the original keeps its.  Of the copies of the metadata, which are the
  API machinery's, only that they are deep themselves is used.
\<close>
theorem deep_copy_isolated:
  assumes "deep_copy copyMeta mv ma" "deep_copy copyListMeta lv la"
    and "listAddrs ma la st p \<subseteq> {..<length st}" "deepCopyList copyMeta copyListMeta p st = (q, st')"
  shows "listValue mv lv st' q = listValue mv lv st p \<and> take (length st) st' = st \<and>
    listAddrs ma la st' q \<inter> {..<length st} = {} \<and>
    (\<forall>later. length st' \<le> length later \<and> (\<forall>a. length st \<le> a \<and> a < length st' \<longrightarrow> later ! a = st' ! a) \<longrightarrow>
       listValue mv lv later q = listValue mv lv st p) \<and>
    (\<forall>later. take (length st) later = st \<longrightarrow> listValue mv lv later p = listValue mv lv st p)"
  using deep_copy.isolated [OF deep_copy_list_pointer [OF assms(1,2)] assms(3,4)] by blast

text \<open>
  Metadata as a pointer to one cell; two items that share a window array, a managed taint and an
  admission.  Overwriting all of the original leaves the copy as it was.
\<close>

definition sampleItem :: "addr option activityRep" where
  "sampleItem =
     \<lparr>zrTypeMeta = ('''', ''''), zrObjectMeta = Some 0,
      zrSpec = \<lparr>zsNodeName = ''node-a'', zsWindows = Some (1, 0, 1), zsLeadTime = ''''\<rparr>,
      zrStatus =
        \<lparr>ztState = StateIdle, ztActivity = ActivityIdle, ztReason = [], ztObservedAt = 0, ztHeartbeatAt = 0,
         ztGeneration = 1, ztFailClosed = True, ztConditions = None, ztManagedTaint = Some 2, ztAdmission = Some 3\<rparr>\<rparr>"

definition sampleStore :: "(addr option, addr option, nat) store" where
  "sampleStore =
     [MetaCell 7,
      WindowsCell [\<lparr>awSchedule = ''0 20 * * *'', awDuration = ''1h'', awTimeZone = '''', awState = ''game''\<rparr>],
      TaintCell \<lparr>mtKey = ''k'', mtValue = ''v'', mtEffect = NoSchedule\<rparr>,
      AdmissionCell \<lparr>zaAdmitted = True, zaReason = '''', zaMessage = [], zaHeartbeatValid = True,
        zaHeartbeatAgeSeconds = Some 4,
        zaBurstTaint = \<lparr>btConfigured = False, btDesired = False, btApplied = False\<rparr>,
        zaNextTransition = None, zaNextTransitionReason = ''''\<rparr>,
      AgeCell 5,
      ItemsCell [sampleItem, sampleItem],
      ListCell \<lparr>zlTypeMeta = ('''', ''''), zlListMeta = None, zlItems = Some (5, 0, 2)\<rparr>]"

lemma sample_reach:
  "listAddrs (\<lambda>_. set_option) (\<lambda>_. set_option) sampleStore (Some 6) \<subseteq> {..<length sampleStore}"
  by (simp add: listAddrs_def boxAddrs_def listOf_def itemsAddrs_def sliceAddrs_def sliceIn_def itemsAt_def
      activityAddrs_def statusAddrs_def admissionAddrs_def admissionOf_def sampleStore_def sampleItem_def)

lemma deep_copy_isolated_witness:
  "case deepCopyList copyPointer copyPointer (Some 6) sampleStore of (q, st') \<Rightarrow>
     length sampleStore < length st' \<and> (\<exists>n. q = Some n \<and> 6 < n) \<and>
     listValue (pointee Some) (pointee Some) (replicate 7 (AgeCell 0) @ drop 7 st') q =
       listValue (pointee Some) (pointee Some) sampleStore (Some 6)"
proof -
  obtain q st' where c: "deepCopyList copyPointer copyPointer (Some 6) sampleStore = (q, st')" by fastforce
  have d: "deep_copy copyPointer (pointee f) (\<lambda>_. set_option)" for f :: "'c \<Rightarrow> 'd option" by (rule deep_copy_pointer)
  have l: "length sampleStore = 7" by (simp add: sampleStore_def)
  have "(fst (deepCopyList copyPointer copyPointer (Some 6) sampleStore),
      length (snd (deepCopyList copyPointer copyPointer (Some 6) sampleStore))) = (Some 18, 19)"
    by code_simp
  then have e: "length st' = 19" "q = Some 18" by (simp_all add: c)
  let ?later = "replicate 7 (AgeCell 0) @ drop 7 st'"
  have "length st' \<le> length ?later" "\<forall>a. length sampleStore \<le> a \<and> a < length st' \<longrightarrow> ?later ! a = st' ! a"
    using e by (auto simp: l nth_append)
  then have "listValue (pointee Some) (pointee Some) ?later q = listValue (pointee Some) (pointee Some) sampleStore (Some 6)"
    using deep_copy_isolated [OF d d sample_reach c] by blast
  then show ?thesis using c e l by simp
qed

end
