(* ===== verification/Spec2Isabelle.thy ===== *)
theory Spec2Isabelle
  imports EndToEnd PassErrors RecoveryProperties StartProperties DeepCopy
begin

text \<open>
  The interactive-node controller, in two processes.  A reporter on a host that people also play
  and work on samples what the host is doing and publishes it to the status of one
  \<open>NodeActivity\<close> object.  A controller in the cluster reads those objects and protects the enrolled
  nodes: it taints and labels them and, if told to, evicts opted-in Pods.  A third program checks
  the evidence of a recovery run, which measures how fast the desktop is given back.

  The reporter (\<open>cmd/node-activity-reporter\<close>):
    \<^item> Signals (\<open>signals/signals.go\<close>): observations, their aggregation, the bounded output of a command;
    \<^item> Logind, GameProcess, Nvidia (\<open>signals/logind.go\<close>, \<open>process.go\<close>, \<open>nvidia.go\<close>): the three providers;
    \<^item> Engine (\<open>engine/engine.go\<close>): the debounced evaluator, a state machine over samples, and its
      specification on the history of samples;
    \<^item> Config (\<open>config/config.go\<close>): the configuration, its validation, and the providers built from it;
    \<^item> Reporter (\<open>reporter/\<close>, \<open>main.go\<close>): the Kubernetes reporter, the start of the process, and the loop
      that samples, evaluates and reports.

  The controller (\<open>internal/controller\<close>, \<open>cmd/interactive-node-controller\<close>):
    \<^item> Types (\<open>api/v1alpha1/types.go\<close> and what is used of the Kubernetes API types), and DeepCopy (its
      \<open>DeepCopy\<close> methods): the same objects with their pointers and slices in an explicit store;
    \<^item> Heartbeat (\<open>heartbeat.go\<close>): whether a heartbeat is fresh, expired, missing or from the future;
    \<^item> Selection, Windows (\<open>windows.go\<close>): the availability windows of a spec and the strongest open one;
    \<^item> Policy (\<open>nodeactivity_controller.go\<close>, \<open>decidePolicy\<close>): the taint a host's status asks for;
    \<^item> Enrollment (\<open>enrollment.go\<close>, \<open>node_watch.go\<close>): the strongest of the enrollments of a node;
    \<^item> NodeOps: the label and the taints of a node and the watch predicate;
    \<^item> Budget, Retry, Eviction (\<open>eviction_budget.go\<close>, \<open>eviction_retry.go\<close>, \<open>eviction.go\<close>): the token
      buckets, the retry deadlines, the safety gates and the eviction pass over the Pods of a node;
    \<^item> Metrics (\<open>metrics.go\<close>): the gauges as stores of series;
    \<^item> Reconcile (\<open>Reconcile\<close> and what it calls): one pass, composed of all of the above;
    \<^item> PassEvictions: from which node a whole pass can evict;
    \<^item> CrdReadiness (\<open>crd_readiness.go\<close>): the check that the installed definition has every field the
      controller relies on, with the required paths as its specification;
    \<^item> Controller (\<open>main.go\<close>): the flags with their defaults and what the process starts with.

  The recovery report (\<open>internal/recovery\<close>, \<open>cmd/recovery-report\<close>):
    \<^item> DurationText: \<open>time.Duration.String\<close>, and that \<open>time.ParseDuration\<close> reads it back;
    \<^item> Recovery (\<open>budget.go\<close>, \<open>report.go\<close>): the budget, the catalog of workloads, the report and the
      JSON form of durations;
    \<^item> Acceptance (\<open>evaluate.go\<close>, \<open>lead.go\<close>, \<open>main.go\<close>): every check of a report in the order of the code,
      and the choice of a lead window.

  Prelude, GoStd and GoText hold the shared lemmas and the parts of Go's standard library the code
  uses: 64-bit durations with wrap-around and the saturation of \<open>time.Sub\<close>, instants as integers of
  nanoseconds from the zero time, \<open>strconv.Atoi\<close>, \<open>time.ParseDuration\<close>, the \<open>strings\<close> functions.  Samples
  is a small concrete cluster for the instances.  A message is a list of pieces, so that what
  depends on a formatted time or number stays visible.  Integers that can overflow keep their
  width: durations, token counts, generations, memory sizes.

  What is outside \<open>src/\<close> is a parameter: the API server (each read, and each write as a function of
  the writes before it), the clock at each reading, the cron library and the time-zone database, the
  condition and finalizer helpers, Kubernetes quantities and label syntax, the commands \<open>loginctl\<close> and
  \<open>nvidia-smi\<close>, \<open>/proc\<close>, the YAML and JSON decoders, HTTP and TLS; and the order in which Go iterates
  over a map.  What is relied on of them is a named hypothesis (\<open>cronOk\<close>, \<open>timely\<close>, \<open>obliging\<close>,
  \<open>answersByName\<close>, a permutation of the keys, \<open>deep_copy\<close> of the metadata), each met by a concrete instance.

  The locales state the interfaces: what a debounced or selected value must satisfy (Selection),
  the token meters (Budget), the frames of a pass (\<open>pass_frame\<close>, \<open>metrics_frame\<close>, \<open>node_frame\<close> and
  \<open>whole_pass\<close> in Reconcile, each adding one kind of effect): an assertion on the state that the
  primitive effects keep is kept by every step made of them and, for the last, by \<open>Reconcile\<close>,
  whichever errors stop it.  They are interpreted for the gauges, for what the controller writes to
  nodes and, in PassEvictions, for the steps that leave the eviction state alone and for the calls of
  the Eviction API.  \<open>deep_copy\<close> (DeepCopy) is the contract of a copy: the
  same value in new cells; it is interpreted for the methods of the API types.

  The properties: this theory has those of the eviction pass, over any sequence of passes;
  HostProperties those of the reporter; ControllerProperties those of the controller's components
  and of the whole pass; PassErrors that a pass neither swallows a refused write nor writes past one;
  StartProperties those of the readiness check, with the shipped definition as an instance, and of
  the start; RecoveryProperties those of an accepted recovery report; DeepCopy that of a copy; EndToEnd
  the one that joins the two processes, from the samples of the host to the taint and the label of
  its node.  Every property with a hypothesis is followed by an instance.

  Simplifications.  \<open>reflect.DeepEqual\<close> on statuses is equality.  A gauge keeps the integer it is set to
  (the code converts it to a float64).  The mutexes are not modelled: the reconciler runs one pass at
  a time on the state.  Loops are structural recursion, and the one of \<open>NextLeadWindow\<close> a recursion whose
  termination is proved; the report loop, which ends only when the process does, is a function of
  the finite list of its turns.

  Not modelled.  The HTTP wrapper of the readiness check with its timeout, the scheme, registration
  with the manager and with the Prometheus registry, command-line parsing, signal handling and
  logging: calls of libraries that keep no state of the program.
\<close>

section \<open>Eviction\<close>

lemma runEviction_retries_live:
  assumes "erPods r (nodeName (erNode r)) = Inr pods" "pod \<in> set pods" "podNodeName pod = nodeName (erNode r)"
    and "\<forall>d. prune (erNow r) (nodeName (erNode r)) pods kept (retryKey (nodeName (erNode r)) pod) = Some d \<longrightarrow> d \<le> erNow r"
  shows "\<forall>d. kept (retryKey (nodeName (erNode r)) pod) = Some d \<longrightarrow> d \<le> erNow r"
proof (intro allI impI)
  fix d assume d: "kept (retryKey (nodeName (erNode r)) pod) = Some d"
  show "d \<le> erNow r"
  proof (rule ccontr)
    assume "\<not> d \<le> erNow r"
    then have "erNow r < d" by simp
    moreover have "retryKey (nodeName (erNode r)) pod \<in> set (liveKeys (nodeName (erNode r)) pods)"
      using assms(2,3) by (auto simp: liveKeys_def)
    ultimately have "prune (erNow r) (nodeName (erNode r)) pods kept (retryKey (nodeName (erNode r)) pod) = Some d"
      using d by (simp add: prune_Some_iff)
    with assms(4) \<open>\<not> d \<le> erNow r\<close> show False by blast
  qed
qed

text \<open>
  C1: Every call of the Eviction API that a pass makes is for a Pod of the pass's node that was
  listed, is of the class the node's state authorizes, passes every safety gate, carries an
  identity, and has no retry deadline pending; eviction is enabled, not audited, and has a
  client.  The calls come in the order of the list, at most one for each Pod.
\<close>
theorem evict_calls_safe:
  assumes "erPods r (nodeName (erNode r)) = Inr pods"
    and "distinct (map (retryKey (nodeName (erNode r))) pods)" and "0 \<le> erNow r"
  shows "\<exists>called. subseq called pods \<and>
    esCalls (snd (runEviction p eviction r s)) = esCalls s @ map (callFor (nodeName (erNode r)) (erNow r)) called \<and>
    (\<forall>pod \<in> set called.
       podNodeName pod = nodeName (erNode r) \<and>
       permits (classFor p (erActivity r) (erNode r) (erDesired r) (erNow r)) pod \<and>
       podSafe (erPVC r) (erPV r) pod (normalized eviction) \<and>
       epEnabled eviction \<and> \<not> epAudit eviction \<and> erEvictor r \<noteq> None \<and>
       podUID pod \<noteq> '''' \<and> podResourceVersion pod \<noteq> '''' \<and>
       (\<forall>d. esRetries s (retryKey (nodeName (erNode r)) pod) = Some d \<longrightarrow> d \<le> erNow r))"
proof -
  let ?node = "nodeName (erNode r)" and ?now = "erNow r" and ?policy = "normalized eviction"
  let ?kind = "classFor p (erActivity r) (erNode r) (erDesired r) ?now"
  let ?s = "s\<lparr>esSummary := zeroSummary, esRetries := prune ?now ?node pods (esRetries s)\<rparr>"
  consider "esCalls (snd (runEviction p eviction r s)) = esCalls s"
    | "snd (runEviction p eviction r s) =
         evictPods (erPVC r) (erPV r) (erEvictor r) ?policy ?kind ?node ?now pods ?s"
    using reconcileEvictions_pass [of p eviction "erPVC r" "erPV r" "erPods r" "erEvictor r" ?now
        "erActivity r" "erNode r" "erDesired r" s] assms(1)
    unfolding runEviction_def by auto
  then show ?thesis
  proof cases
    case 1
    then show ?thesis by (intro exI [of _ "[]"]) simp
  next
    case 2
    obtain called where c: "subseq called pods"
      "esCalls (snd (runEviction p eviction r s)) = esCalls s @ map (callFor ?node ?now) called"
      "\<forall>pod \<in> set called. callable (erPVC r) (erPV r) ?policy ?kind ?node ?now
          (prune ?now ?node pods (esRetries s)) pod \<and> erEvictor r \<noteq> None"
      using evictPods_calls [OF assms(2,3), of "erPVC r" "erPV r" "erEvictor r" ?policy ?kind ?s] 2 by auto
    have "\<forall>d. esRetries s (retryKey ?node pod) = Some d \<longrightarrow> d \<le> ?now" if "pod \<in> set called" for pod
    proof (rule runEviction_retries_live [OF assms(1)])
      show "pod \<in> set pods" using list_emb_set [OF c(1) that] by blast
    qed (use c(3) that in \<open>auto simp: callable_def evictable_def\<close>)
    with c show ?thesis
      by (intro exI [of _ called])
         (auto simp: callable_def evictable_def evictionDecision_iff normalized_facts)
  qed
qed

lemma evict_calls_safe_witness:
  "\<exists>called. subseq called [samplePod ''p'', samplePod ''q''] \<and>
    map ecName (esCalls (snd (runEviction samplePolicy sampleEviction (sampleRun sampleGame) processStart))) =
      map podName called \<and> called \<noteq> []"
proof -
  have n: "nodeName (erNode (sampleRun sampleGame)) = ''node-a''" by code_simp
  have calls: "map ecName (esCalls (snd (runEviction samplePolicy sampleEviction (sampleRun sampleGame) processStart)))
      = [''p'', ''q'']" by code_simp
  obtain called where c: "subseq called [samplePod ''p'', samplePod ''q'']"
    "esCalls (snd (runEviction samplePolicy sampleEviction (sampleRun sampleGame) processStart)) =
       esCalls processStart @ map (callFor ''node-a'' (erNow (sampleRun sampleGame))) called"
    using evict_calls_safe [of "sampleRun sampleGame" "[samplePod ''p'', samplePod ''q'']" samplePolicy
        sampleEviction processStart] n
    by (auto simp: sampleRun_def retryKey_def samplePod_def sampleNow_def hour_def second_def)
  have "map podName called = [''p'', ''q'']"
    using arg_cong [OF c(2), of "map ecName"] calls by (simp add: comp_def callFor_def)
  then show ?thesis using c(1) calls by (intro exI [of _ called]) auto
qed

text \<open>
  C3: However often eviction passes run, for whatever nodes and states, and from any history of
  the process: the calls for one node and one class in a window of time, each costed at the
  least time its token takes to refill, fit in the node's burst, one nanosecond of rounding, and
  the length of the window.
\<close>
theorem node_eviction_rate:
  fixes hist rs :: "'e evictionRun list"
  assumes "policyBudgetsOk (normalized eviction)"
    and "\<forall>r \<in> set hist. 0 < erNow r" and "\<forall>r \<in> set rs. t0 \<le> erNow r \<and> erNow r \<le> t1"
    and "0 < t0" "t0 \<le> t1"
  shows "(countCalls (forNode lossy node) (esCalls (runEvictions p eviction (hist @ rs) processStart)) -
          countCalls (forNode lossy node) (esCalls (runEvictions p eviction hist processStart))) *
           tokenPrice (nodeMeter (budgetOf (normalized eviction) lossy))
         \<le> burstCredit (nodeMeter (budgetOf (normalized eviction) lossy)) + (t1 - t0)"
  unfolding runEvictions_append by (rule node_calls_bounded [OF assms])

lemma node_eviction_rate_witness:
  "countCalls (forNode False ''node-a'')
     (esCalls (runEvictions samplePolicy sampleEviction [sampleRun sampleGame] processStart)) * 30000000000
   \<le> 60000000001"
proof -
  have price: "tokenPrice (nodeMeter (budgetOf (normalized sampleEviction) False)) = 30000000000"
    "burstCredit (nodeMeter (budgetOf (normalized sampleEviction) False)) = 60000000001"
    by code_simp+
  have t: "0 < sampleNow" by (simp add: sampleNow_def hour_def second_def)
  show ?thesis
    using node_eviction_rate [OF sampleEviction_budgets, of "[]" "[sampleRun sampleGame]" sampleNow sampleNow
        False "''node-a''" samplePolicy] t
    by (simp add: price sampleRun_def)
qed

text \<open>
  C4: The same bound holds for all nodes together: the calls of one class in a window fit in the
  class's process-wide burst, one nanosecond of rounding, and the length of the window.
\<close>
theorem global_eviction_rate:
  fixes hist rs :: "'e evictionRun list"
  assumes "policyBudgetsOk (normalized eviction)"
    and "\<forall>r \<in> set hist. 0 < erNow r" and "\<forall>r \<in> set rs. t0 \<le> erNow r \<and> erNow r \<le> t1"
    and "0 < t0" "t0 \<le> t1"
  shows "(countCalls (forClass lossy) (esCalls (runEvictions p eviction (hist @ rs) processStart)) -
          countCalls (forClass lossy) (esCalls (runEvictions p eviction hist processStart))) *
           tokenPrice (globalMeter (budgetOf (normalized eviction) lossy))
         \<le> burstCredit (globalMeter (budgetOf (normalized eviction) lossy)) + (t1 - t0)"
  unfolding runEvictions_append by (rule global_calls_bounded [OF assms])

lemma global_eviction_rate_witness:
  "countCalls (forClass False)
     (esCalls (runEvictions samplePolicy sampleEviction [sampleRun sampleGame] processStart)) * 30000000000
   \<le> 60000000001"
proof -
  have price: "tokenPrice (globalMeter (budgetOf (normalized sampleEviction) False)) = 30000000000"
    "burstCredit (globalMeter (budgetOf (normalized sampleEviction) False)) = 60000000001"
    by code_simp+
  have t: "0 < sampleNow" by (simp add: sampleNow_def hour_def second_def)
  show ?thesis
    using global_eviction_rate [OF sampleEviction_budgets, of "[]" "[sampleRun sampleGame]" sampleNow sampleNow
        False samplePolicy] t
    by (simp add: price sampleRun_def)
qed

text \<open>
  C5: A heartbeat further ahead of the controller's clock than the tolerance never authorizes
  eviction, whatever the state, the taints and the burst fence: the pass makes no call and
  spends no budget.  This holds for a report whose state is stale too, as the comment of
  \<open>evictionClass\<close> and its contract tests have it; docs/controller.md keeps such a report on the row
  of stale heartbeats, which evicts lossy Pods.
\<close>
theorem future_heartbeat_never_evicts:
  assumes "policyOk p" "effectiveHeartbeatSkew p < stHeartbeatAt (naStatus (erActivity r)) - erNow r"
    and "stHeartbeatAt (naStatus (erActivity r)) \<noteq> 0"
  shows "esCalls (snd (runEviction p eviction r s)) = esCalls s \<and>
         esBudgets (snd (runEviction p eviction r s)) = esBudgets s"
proof -
  have "hvFuture (verdict p (erActivity r) (erNow r))"
    using verdict_iffs(2) [OF assms(1)] assms(2,3) by simp
  then have "classFor p (erActivity r) (erNode r) (erDesired r) (erNow r) = evictionClassNone"
    by (rule classFor_future)
  then show ?thesis
    using reconcileEvictions_pass [of p eviction "erPVC r" "erPV r" "erPods r" "erEvictor r" "erNow r"
        "erActivity r" "erNode r" "erDesired r" s]
    unfolding runEviction_def by auto
qed

lemma future_heartbeat_never_evicts_witness:
  "esCalls (snd (runEviction samplePolicy sampleEviction
     (sampleRun (sampleActivity ''a'' [] (sampleStatus StateActive ActivityGame (sampleNow + 16 * second)))) processStart)) = []"
  using future_heartbeat_never_evicts [OF samplePolicy_ok,
      of "sampleRun (sampleActivity ''a'' [] (sampleStatus StateActive ActivityGame (sampleNow + 16 * second)))"
         sampleEviction processStart]
  by (simp add: sampleRun_def sample_defs effectiveHeartbeatSkew_def sampleNow_def hour_def second_def)

text \<open>
  C6: With a missing or expired heartbeat a node authorizes only the eviction of Pods that opted
  into lossy eviction, and only behind a NoSchedule taint that is desired and applied to the
  Node; otherwise nothing is evicted.
\<close>
theorem stale_heartbeat_class:
  assumes "policyOk p"
    and "stHeartbeatAt (naStatus a) = 0 \<or> polStaleAfter p \<le> now - stHeartbeatAt (naStatus a)"
  shows "classFor p a node desired now =
    (if \<exists>t. desired = Some t \<and> tEffect t = NoSchedule \<and> hasTaint node (polKey p) (tValue t) NoSchedule
     then evictionClassLossyOnly else evictionClassNone)"
proof (rule classFor_stale)
  show "hvMissing (verdict p a now) \<or> hvExpired (verdict p a now)"
    using assms(2) verdict_iffs(1,3) [OF assms(1)] by auto
  show "\<not> hvFuture (verdict p a now)"
    using assms(2) verdict_iffs(2) [OF assms(1)] policyOk_bounds [OF assms(1)] by auto
qed

lemma stale_heartbeat_class_witness:
  "classFor samplePolicy (sampleActivity ''a'' [] (sampleStatus StateActive ActivityGame (sampleNow - 120 * second)))
     (sampleNode [failClosedTaint samplePolicy]) (Some (failClosedTaint samplePolicy)) sampleNow = evictionClassLossyOnly"
  using stale_heartbeat_class [OF samplePolicy_ok,
      of "sampleActivity ''a'' [] (sampleStatus StateActive ActivityGame (sampleNow - 120 * second))" sampleNow
         "sampleNode [failClosedTaint samplePolicy]" "Some (failClosedTaint samplePolicy)"]
  by (simp add: sample_defs sampleNode_def failClosedTaint_def hasTaint_def)

text \<open>
  C7: Every opted-in Pod becomes evictable only by a live game: the class that does not ask for
  the lossy opt-in is given exactly when a fresh heartbeat reports an active game and the active
  NoSchedule taint is both desired and on the Node.
\<close>
theorem game_class_iff:
  assumes "policyOk p"
  shows "classFor p a node desired now = evictionClassGame \<longleftrightarrow>
    stHeartbeatAt (naStatus a) \<noteq> 0 \<and> now - stHeartbeatAt (naStatus a) < polStaleAfter p \<and>
    stHeartbeatAt (naStatus a) - now \<le> effectiveHeartbeatSkew p \<and>
    stState (naStatus a) = StateActive \<and> stActivity (naStatus a) = ActivityGame \<and>
    (\<exists>t. desired = Some t \<and> tEffect t = NoSchedule \<and> tValue t = polActiveValue p) \<and>
    hasTaint node (polKey p) (polActiveValue p) NoSchedule"
  using classFor_Game_iff [OF assms] verdict_iffs(4) [OF assms] by auto

lemma game_class_iff_witness:
  "classFor samplePolicy sampleGame (sampleNode [activeTaint samplePolicy]) (Some (activeTaint samplePolicy)) sampleNow
     = evictionClassGame"
  unfolding game_class_iff [OF samplePolicy_ok]
  by (simp add: sampleGame_def sample_defs sampleNode_def activeTaint_def hasTaint_def effectiveHeartbeatSkew_def
      sampleNow_def hour_def second_def)

end
